(* ===== verification/Prelude.thy ===== *)
theory Prelude
  imports Main "HOL-Library.State_Monad" "HOL-Library.Sublist" "HOL-Library.AList" "HOL-Library.Multiset"
begin

text \<open>
  Generic material shared by every component: the collections of rules the proofs draw on,
  Go's error idiom on top of the state monad, a weakest-precondition calculus for state
  programs, and lemmas on association lists.
\<close>

named_theorems wp_rules \<open>weakest preconditions of state programs\<close>
named_theorems go_eval \<open>unfolding rules that evaluate Go library functions on closed terms\<close>

section \<open>The error idiom\<close>

text \<open>
  A Go function of type \<open>(T, error)\<close> is a state program with a sum as its value. The idiom
  \<open>if err != nil { return err }\<close> is \<open>onok\<close>: continue with the value, or return the error.
\<close>

definition onok :: "'e + 'a \<Rightarrow> ('a \<Rightarrow> ('s, 'e + 'b) state) \<Rightarrow> ('s, 'e + 'b) state" where
  "onok r f = (case r of Inl e \<Rightarrow> State_Monad.return (Inl e) | Inr x \<Rightarrow> f x)"

lemma onok_simps [simp]:
  "onok (Inl e) f = State_Monad.return (Inl e)"
  "onok (Inr x) f = f x"
  by (simp_all add: onok_def)

text \<open>A deferred call runs after the rest of the function body, whatever the body returns.\<close>

definition deferred :: "('s, 'd) state \<Rightarrow> ('s, 'a) state \<Rightarrow> ('s, 'a) state" where
  "deferred d body = do { r \<leftarrow> body; _ \<leftarrow> d; State_Monad.return r }"

definition is_ok :: "'e + 'a \<Rightarrow> bool" where
  "is_ok r = (case r of Inl _ \<Rightarrow> False | Inr _ \<Rightarrow> True)"

lemma is_ok_simps [simp]: "is_ok (Inr x)" "\<not> is_ok (Inl e)"
  by (simp_all add: is_ok_def)

lemma is_ok_iff: "is_ok r \<longleftrightarrow> (\<exists>x. r = Inr x)"
  by (cases r) simp_all

section \<open>Weakest preconditions\<close>

definition wp :: "('s, 'a) state \<Rightarrow> ('a \<Rightarrow> 's \<Rightarrow> bool) \<Rightarrow> 's \<Rightarrow> bool" where
  "wp m Q w = (case run_state m w of (a, w') \<Rightarrow> Q a w')"

lemma wp_return [simp, wp_rules]: "wp (State_Monad.return a) Q w = Q a w"
  by (simp add: wp_def)

lemma wp_bind [simp, wp_rules]:
  "wp (State_Monad.bind m f) Q w = wp m (\<lambda>a. wp (f a) Q) w"
  by (simp add: wp_def split: prod.splits)

lemma wp_get [simp, wp_rules]: "wp State_Monad.get Q w = Q w w"
  by (simp add: wp_def)

lemma wp_set [simp, wp_rules]: "wp (State_Monad.set s) Q w = Q () s"
  by (simp add: wp_def)

lemma wp_State [simp, wp_rules]: "wp (State f) Q w = (case f w of (a, w') \<Rightarrow> Q a w')"
  by (simp add: wp_def)

lemma wp_fun: "wp (State_Monad.return a) Q = Q a" "wp (State_Monad.bind m f) Q = wp m (\<lambda>a. wp (f a) Q)"
  by (simp_all add: fun_eq_iff)

lemma wp_onok [wp_rules]:
  "wp (onok r f) Q w = (case r of Inl e \<Rightarrow> Q (Inl e) w | Inr x \<Rightarrow> wp (f x) Q w)"
  by (simp add: onok_def split: sum.split)

lemma wp_deferred [wp_rules]:
  "wp (deferred d m) Q w = wp m (\<lambda>r. wp d (\<lambda>_. Q r)) w"
  by (simp add: deferred_def wp_def split: prod.splits)

lemma wp_mono: "wp m Q w \<Longrightarrow> (\<And>a w'. Q a w' \<Longrightarrow> R a w') \<Longrightarrow> wp m R w"
  by (auto simp: wp_def split: prod.splits)

lemma wp_conj: "wp m (\<lambda>a w'. Q a w' \<and> R a w') w \<longleftrightarrow> wp m Q w \<and> wp m R w"
  by (auto simp: wp_def split: prod.splits)

lemma wpI: "(\<And>a w'. run_state m w = (a, w') \<Longrightarrow> Q a w') \<Longrightarrow> wp m Q w"
  by (auto simp: wp_def split: prod.splits)

lemma wpD: "wp m Q w \<Longrightarrow> run_state m w = (a, w') \<Longrightarrow> Q a w'"
  by (simp add: wp_def)

lemma wp_if: "wp (if b then m else n) Q w = (if b then wp m Q w else wp n Q w)"
  by simp

section \<open>Relations kept by every run\<close>

text \<open>
  \<open>keeps R m\<close>: every run of \<open>m\<close> relates its first state to its last. For a reflexive and
  transitive \<open>R\<close> (a frame condition) it is closed under sequencing.
\<close>

definition keeps :: "('s \<Rightarrow> 's \<Rightarrow> bool) \<Rightarrow> ('s, 'a) state \<Rightarrow> bool" where
  "keeps R m = (\<forall>w. R w (snd (run_state m w)))"

lemma keepsI: "(\<And>w. R w (snd (run_state m w))) \<Longrightarrow> keeps R m"
  by (simp add: keeps_def)

lemma keepsD: "keeps R m \<Longrightarrow> R w (snd (run_state m w))"
  by (simp add: keeps_def)

lemma keeps_run: "keeps R m \<Longrightarrow> run_state m w = (a, w') \<Longrightarrow> R w w'"
  by (metis keepsD snd_conv)

lemma keeps_return: "reflp R \<Longrightarrow> keeps R (State_Monad.return a)"
  by (simp add: keeps_def reflp_def)

lemma keeps_bind:
  assumes "transp R" "keeps R m" "\<And>a. keeps R (f a)"
  shows "keeps R (State_Monad.bind m f)"
proof (rule keepsI)
  fix w
  obtain a w1 where m: "run_state m w = (a, w1)" by fastforce
  have "R w w1" using keepsD [OF assms(2), of w] m by simp
  moreover have "R w1 (snd (run_state (f a) w1))" using assms(3) by (rule keepsD)
  ultimately show "R w (snd (run_state (State_Monad.bind m f) w))"
    using m assms(1) by (auto dest: transpD)
qed

lemma keeps_onok: "reflp R \<Longrightarrow> (\<And>x. keeps R (f x)) \<Longrightarrow> keeps R (onok r f)"
  by (cases r) (simp_all add: keeps_return)

lemma keeps_deferred: "reflp R \<Longrightarrow> transp R \<Longrightarrow> keeps R d \<Longrightarrow> keeps R m \<Longrightarrow> keeps R (deferred d m)"
  unfolding deferred_def by (intro keeps_bind keeps_return)

section \<open>Association lists as Go maps\<close>

text \<open>
  A Go map is an association list with distinct keys; the order of the list is the order in
  which \<open>range\<close> happens to visit the entries, which Go leaves open.
\<close>

definition wf_map :: "('k \<times> 'v) list \<Rightarrow> bool" where
  "wf_map m = distinct (map fst m)"

lemma wf_map_Nil [simp]: "wf_map []"
  by (simp add: wf_map_def)

lemma wf_map_update [simp]: "wf_map m \<Longrightarrow> wf_map (AList.update k v m)"
  by (simp add: wf_map_def distinct_update)

lemma map_of_update [simp]: "map_of (AList.update k v m) = (map_of m)(k \<mapsto> v)"
  by (rule update_conv')

lemma wf_map_permute:
  assumes "wf_map m" "mset m' = mset m"
  shows "wf_map m'" "map_of m' = map_of m"
proof -
  have "mset (map fst m') = mset (map fst m)" using assms(2) by simp
  then have "distinct (map fst m') \<longleftrightarrow> distinct (map fst m)"
    by (rule mset_eq_imp_distinct_iff)
  then show wf: "wf_map m'"
    using assms(1) by (simp add: wf_map_def)
  have "set m' = set m" using assms(2) by (metis set_mset_mset)
  then show "map_of m' = map_of m"
    using wf assms(1) by (simp add: wf_map_def map_of_inject_set)
qed

end
