(* ===== verification/GoStrings.thy ===== *)
theory GoStrings
  imports Prelude "HOL-Library.Char_ord" "HOL-Library.List_Lexorder" "HOL-Library.Word"
begin

text \<open>
  The parts of Go's \<^verbatim>\<open>strings\<close>, \<^verbatim>\<open>strconv\<close> and \<^verbatim>\<open>bufio\<close> packages the program uses. A Go string is
  a sequence of bytes, which is what a \<^typ>\<open>string\<close> is here. Case mapping and white space are
  those of ASCII: bytes above 127 are passed through.
\<close>

section \<open>Bytes\<close>

definition is_space :: "char \<Rightarrow> bool" where
  "is_space c = (c \<in> {CHR '' '', CHR 0x09, CHR 0x0A, CHR 0x0B, CHR 0x0C, CHR 0x0D})"

abbreviation newline :: char where "newline \<equiv> CHR 0x0A"
abbreviation dquote :: char where "dquote \<equiv> CHR 0x22"

definition is_digit :: "char \<Rightarrow> bool" where
  "is_digit c = (48 \<le> (of_char c :: nat) \<and> (of_char c :: nat) \<le> 57)"

definition is_upper :: "char \<Rightarrow> bool" where
  "is_upper c = (65 \<le> (of_char c :: nat) \<and> (of_char c :: nat) \<le> 90)"

definition is_lower :: "char \<Rightarrow> bool" where
  "is_lower c = (97 \<le> (of_char c :: nat) \<and> (of_char c :: nat) \<le> 122)"

definition to_lower :: "char \<Rightarrow> char" where
  "to_lower c = (if is_upper c then char_of (of_char c + 32 :: nat) else c)"

definition to_upper :: "char \<Rightarrow> char" where
  "to_upper c = (if is_lower c then char_of (of_char c - 32 :: nat) else c)"

definition ToLower :: "string \<Rightarrow> string" where "ToLower = map to_lower"
definition ToUpper :: "string \<Rightarrow> string" where "ToUpper = map to_upper"

lemmas byte_defs [go_eval] = is_space_def is_digit_def is_upper_def is_lower_def to_lower_def
  to_upper_def ToLower_def ToUpper_def

text \<open>Equations that evaluate fast.\<close>

lemma is_upper_code [code]:
  "is_upper (Char b0 b1 b2 b3 b4 b5 b6 b7) \<longleftrightarrow>
     \<not> b7 \<and> b6 \<and> \<not> b5 \<and> (b0 \<or> b1 \<or> b2 \<or> b3 \<or> b4) \<and> \<not> (b4 \<and> b3 \<and> (b2 \<or> b1 \<and> b0))"
  by (cases b0; cases b1; cases b2; cases b3; cases b4; cases b5; cases b6; cases b7) (simp_all add: is_upper_def)

lemma to_lower_code [code]:
  "to_lower (Char b0 b1 b2 b3 b4 b5 b6 b7) =
     Char b0 b1 b2 b3 b4 (b5 \<or> is_upper (Char b0 b1 b2 b3 b4 b5 b6 b7)) b6 b7"
  by (cases b0; cases b1; cases b2; cases b3; cases b4; cases b5; cases b6; cases b7)
    (simp_all add: to_lower_def is_upper_code char_of_def bit_iff_odd)

section \<open>Package strings\<close>

definition HasPrefix :: "string \<Rightarrow> string \<Rightarrow> bool" where
  "HasPrefix s p = prefix p s"

definition HasSuffix :: "string \<Rightarrow> string \<Rightarrow> bool" where
  "HasSuffix s p = suffix p s"

definition TrimPrefix :: "string \<Rightarrow> string \<Rightarrow> string" where
  "TrimPrefix s p = (if prefix p s then drop (length p) s else s)"

definition Contains :: "string \<Rightarrow> string \<Rightarrow> bool" where
  "Contains s sub = sublist sub s"

text \<open>\<open>strings.Split(s, sep)\<close> for a separator of one byte.\<close>

fun Split :: "string \<Rightarrow> char \<Rightarrow> string list" where
  "Split [] sep = [[]]"
| "Split (c # s) sep =
     (if c = sep then [] # Split s sep
      else (case Split s sep of p # ps \<Rightarrow> (c # p) # ps | [] \<Rightarrow> [[c]]))"

text \<open>\<open>strings.SplitN(s, sep, 2)\<close>: the part before the first separator and, if there is one,
  the rest.\<close>

definition SplitN2 :: "string \<Rightarrow> char \<Rightarrow> string list" where
  "SplitN2 s sep =
     (case dropWhile (\<lambda>c. c \<noteq> sep) s of
        [] \<Rightarrow> [s]
      | _ # rest \<Rightarrow> [takeWhile (\<lambda>c. c \<noteq> sep) s, rest])"

fun Join :: "string list \<Rightarrow> string \<Rightarrow> string" where
  "Join [] sep = []"
| "Join [p] sep = p"
| "Join (p # ps) sep = p @ sep @ Join ps sep"

definition TrimLeft :: "(char \<Rightarrow> bool) \<Rightarrow> string \<Rightarrow> string" where
  "TrimLeft P s = dropWhile P s"

definition TrimRight :: "(char \<Rightarrow> bool) \<Rightarrow> string \<Rightarrow> string" where
  "TrimRight P s = rev (dropWhile P (rev s))"

definition TrimFunc :: "(char \<Rightarrow> bool) \<Rightarrow> string \<Rightarrow> string" where
  "TrimFunc P s = TrimRight P (TrimLeft P s)"

definition TrimSpace :: "string \<Rightarrow> string" where
  "TrimSpace s = TrimFunc is_space s"

function (sequential) Fields :: "string \<Rightarrow> string list" where
  "Fields [] = []"
| "Fields (c # s) =
     (if is_space c then Fields s
      else (c # takeWhile (\<lambda>c. \<not> is_space c) s) # Fields (dropWhile (\<lambda>c. \<not> is_space c) s))"
  by pat_completeness auto
termination
  by (relation "measure length") (auto simp: le_imp_less_Suc length_dropWhile_le)

lemmas strings_defs [go_eval] = HasPrefix_def HasSuffix_def TrimPrefix_def Contains_def SplitN2_def
  TrimLeft_def TrimRight_def TrimFunc_def TrimSpace_def

subsection \<open>Laws\<close>

lemma Split_not_Nil [simp]: "Split s c \<noteq> []"
  by (induction s) (auto split: list.splits)

lemma Join_Cons: "ps \<noteq> [] \<Longrightarrow> Join (p # ps) sep = p @ sep @ Join ps sep"
  by (cases ps) simp_all

theorem Join_Split: "Join (Split s c) [c] = s"
proof (induction s)
  case Nil
  show ?case by simp
next
  case (Cons a s)
  show ?case
  proof (cases "a = c")
    case True
    with Cons show ?thesis by (simp add: Join_Cons)
  next
    case False
    obtain p ps where ps: "Split s c = p # ps" by (meson Split_not_Nil neq_Nil_conv)
    have "Join ((a # p) # ps) [c] = a # Join (p # ps) [c]" by (cases ps) simp_all
    with Cons False ps show ?thesis by simp
  qed
qed

lemma Split_part: "p \<in> set (Split s c) \<Longrightarrow> c \<notin> set p"
  by (induction s arbitrary: p) (auto split: if_splits list.splits)

lemma Split_no_sep: "c \<notin> set s \<Longrightarrow> Split s c = [s]"
  by (induction s) auto

lemma Split_append_sep: "c \<notin> set p \<Longrightarrow> Split (p @ c # s) c = p # Split s c"
  by (induction p) auto

lemma Split_Join:
  "ps \<noteq> [] \<Longrightarrow> \<forall>p \<in> set ps. c \<notin> set p \<Longrightarrow> Split (Join ps [c]) c = ps"
  by (induction ps "[c]" rule: Join.induct) (auto simp: Split_no_sep Split_append_sep)

lemma set_Join: "set (Join ps sep) \<subseteq> (\<Union>p \<in> set ps. set p) \<union> set sep"
  by (induction ps sep rule: Join.induct) auto

lemma Split_set: "p \<in> set (Split s c) \<Longrightarrow> set p \<subseteq> set s"
proof (induction s arbitrary: p)
  case (Cons a s)
  obtain q qs where q: "Split s c = q # qs" by (meson Split_not_Nil neq_Nil_conv)
  have "set q \<subseteq> set s" "r \<in> set qs \<Longrightarrow> set r \<subseteq> set s" for r
    using Cons.IH [of q] Cons.IH [of r] q by auto
  then show ?case using Cons.prems q by (auto split: if_splits)
qed simp

lemma TrimRight_append: "P c \<Longrightarrow> TrimRight P (s @ [c]) = TrimRight P s"
  by (simp add: TrimRight_def)

lemma TrimRight_id: "s = [] \<or> \<not> P (last s) \<Longrightarrow> TrimRight P s = s"
  by (cases s rule: rev_cases) (auto simp: TrimRight_def)

lemma TrimRight_cases: "TrimRight P s = [] \<or> \<not> P (last (TrimRight P s))"
proof (cases "dropWhile P (rev s)")
  case (Cons a t)
  then have "\<not> P a" using hd_dropWhile [of P "rev s"] by simp
  then show ?thesis by (simp add: TrimRight_def Cons)
qed (simp add: TrimRight_def)

lemma TrimRight_prefix: "prefix (TrimRight P s) s"
  by (metis TrimRight_def rev_rev_ident suffix_dropWhile suffix_to_prefix)

lemma TrimFunc_fixed:
  "TrimFunc P s = [] \<or> (\<not> P (hd (TrimFunc P s)) \<and> \<not> P (last (TrimFunc P s)))"
proof (cases "TrimFunc P s = []")
  case False
  let ?t = "dropWhile P s"
  have ne: "TrimRight P ?t \<noteq> []" using False by (simp add: TrimFunc_def TrimLeft_def)
  obtain z where z: "?t = TrimRight P ?t @ z" using TrimRight_prefix by (auto simp: prefix_def)
  then have "hd ?t = hd (TrimRight P ?t)" using ne by (metis hd_append2)
  moreover have "?t \<noteq> []" using z ne by (metis append_is_Nil_conv)
  ultimately show ?thesis
    using ne TrimRight_cases [of P ?t] hd_dropWhile [of P s]
    by (simp add: TrimFunc_def TrimLeft_def)
qed simp

lemma TrimFunc_id: "s = [] \<or> (\<not> P (hd s) \<and> \<not> P (last s)) \<Longrightarrow> TrimFunc P s = s"
  by (cases s) (auto simp: TrimFunc_def TrimLeft_def TrimRight_id)

theorem TrimSpace_idem: "TrimSpace (TrimSpace s) = TrimSpace s"
  unfolding TrimSpace_def by (rule TrimFunc_id) (rule TrimFunc_fixed)

lemma TrimFunc_set: "set (TrimFunc P s) \<subseteq> set s"
proof -
  have "set (TrimRight P t) \<subseteq> set t" for t
    using TrimRight_prefix [of P t] by (rule set_mono_prefix)
  then show ?thesis
    using set_dropWhileD [of _ P s] by (fastforce simp: TrimFunc_def TrimLeft_def)
qed

lemma Fields_part: "f \<in> set (Fields s) \<Longrightarrow> f \<noteq> [] \<and> (\<forall>c \<in> set f. \<not> is_space c)"
proof (induction s rule: Fields.induct)
  case (2 c s)
  show ?case
  proof (cases "is_space c")
    case True
    then have "f \<in> set (Fields s)" using "2.prems" by simp
    then show ?thesis by (rule "2.IH"(1) [OF True])
  next
    case False
    then have "f = c # takeWhile (\<lambda>c. \<not> is_space c) s
        \<or> f \<in> set (Fields (dropWhile (\<lambda>c. \<not> is_space c) s))"
      using "2.prems" by simp
    then show ?thesis
    proof
      assume f: "f = c # takeWhile (\<lambda>c. \<not> is_space c) s"
      have "\<forall>x \<in> set (takeWhile (\<lambda>c. \<not> is_space c) s). \<not> is_space x"
        by (auto dest: set_takeWhileD)
      then show ?thesis unfolding f using False by simp
    qed (rule "2.IH"(2) [OF False])
  qed
qed simp

section \<open>Package strconv\<close>

definition digit_char :: "nat \<Rightarrow> char" where
  "digit_char d = char_of (48 + d)"

fun Itoa_nat :: "nat \<Rightarrow> string" where
  "Itoa_nat n = (if n < 10 then [digit_char n] else Itoa_nat (n div 10) @ [digit_char (n mod 10)])"

declare Itoa_nat.simps [simp del]

definition Itoa :: "int \<Rightarrow> string" where
  "Itoa i = (if i < 0 then CHR ''-'' # Itoa_nat (nat (- i)) else Itoa_nat (nat i))"

text \<open>Digits of a number in base \<open>b\<close> (at most 10): \<open>None\<close> where a byte is no digit of the base.\<close>

fun digits_val :: "nat \<Rightarrow> nat \<Rightarrow> string \<Rightarrow> nat option" where
  "digits_val b acc [] = Some acc"
| "digits_val b acc (c # s) =
     (if is_digit c \<and> of_char c - 48 < b
      then digits_val b (acc * b + (of_char c - 48)) s else None)"

text \<open>
  \<open>strconv.ParseInt(s, base, bits)\<close> for a base of at most 10: an optional sign, at least one
  digit, and the range of a signed integer of that width.
\<close>

definition ParseInt :: "string \<Rightarrow> nat \<Rightarrow> nat \<Rightarrow> int option" where
  "ParseInt s base bits =
     (let neg = (case s of c # _ \<Rightarrow> c = CHR ''-'' | [] \<Rightarrow> False);
          body = (case s of c # t \<Rightarrow> if c = CHR ''-'' \<or> c = CHR ''+'' then t else s | [] \<Rightarrow> [])
      in if body = [] then None
         else case digits_val base 0 body of
           None \<Rightarrow> None
         | Some n \<Rightarrow>
             if neg then (if n \<le> 2 ^ (bits - 1) then Some (- int n) else None)
             else (if n < 2 ^ (bits - 1) then Some (int n) else None))"

text \<open>The same over \<open>int\<close>, whose numerals evaluate fast.\<close>

lemma ParseInt_code [code]:
  "ParseInt s base bits =
     (let neg = (case s of c # _ \<Rightarrow> c = CHR ''-'' | [] \<Rightarrow> False);
          body = (case s of c # t \<Rightarrow> if c = CHR ''-'' \<or> c = CHR ''+'' then t else s | [] \<Rightarrow> [])
      in if body = [] then None
         else case digits_val base 0 body of
           None \<Rightarrow> None
         | Some n \<Rightarrow>
             if neg then (if int n \<le> 2 ^ (bits - 1) then Some (- int n) else None)
             else (if int n < 2 ^ (bits - 1) then Some (int n) else None))"
proof -
  have "n \<le> 2 ^ k \<longleftrightarrow> int n \<le> 2 ^ k" "n < 2 ^ k \<longleftrightarrow> int n < 2 ^ k" for n k :: nat
    by (metis of_nat_le_iff of_nat_numeral of_nat_power, metis of_nat_less_iff of_nat_numeral of_nat_power)
  then show ?thesis unfolding ParseInt_def by (simp only:)
qed

definition Atoi :: "string \<Rightarrow> int option" where
  "Atoi s = ParseInt s 10 64"

lemmas strconv_defs [go_eval] = digit_char_def Itoa_def ParseInt_def Atoi_def

lemma digit_char_digit: "d < 10 \<Longrightarrow> is_digit (digit_char d) \<and> of_char (digit_char d) = 48 + d"
  by (simp add: digit_char_def is_digit_def of_char_of)

lemma digits_val_append:
  "digits_val b acc (s @ t) = (case digits_val b acc s of None \<Rightarrow> None | Some a \<Rightarrow> digits_val b a t)"
  by (induction s arbitrary: acc) auto

lemma Itoa_nat_val: "digits_val 10 0 (Itoa_nat n) = Some n"
proof (induction n rule: Itoa_nat.induct)
  case (1 n)
  have d: "d < 10 \<Longrightarrow> digits_val 10 a [digit_char d] = Some (a * 10 + d)" for d a
    using digit_char_digit [of d] by simp
  show ?case
  proof (cases "n < 10")
    case True
    then show ?thesis using d [of n 0] by (subst Itoa_nat.simps) simp
  next
    case False
    then show ?thesis
      using "1.IH" d [of "n mod 10" "n div 10"]
      by (subst Itoa_nat.simps) (simp add: digits_val_append)
  qed
qed

lemma Itoa_nat_digits: "Itoa_nat n \<noteq> [] \<and> (\<forall>c \<in> set (Itoa_nat n). is_digit c)"
proof (induction n rule: Itoa_nat.induct)
  case (1 n)
  show ?case
    using "1.IH" digit_char_digit [of n] digit_char_digit [of "n mod 10"]
    by (subst (1 2) Itoa_nat.simps) auto
qed

lemma Itoa_nat_hd: "hd (Itoa_nat n) \<noteq> CHR ''-'' \<and> hd (Itoa_nat n) \<noteq> CHR ''+''"
proof -
  have "is_digit (hd (Itoa_nat n))" using Itoa_nat_digits [of n] by (auto intro: hd_in_set)
  then show ?thesis by (auto simp: is_digit_def)
qed

theorem Atoi_Itoa:
  assumes "- (2 ^ 63) \<le> i" "i < 2 ^ 63"
  shows "Atoi (Itoa i) = Some i"
proof (cases "i < 0")
  case True
  then have "nat (- i) \<le> 2 ^ 63" using assms by simp
  then show ?thesis using True Itoa_nat_digits [of "nat (- i)"]
    by (simp add: Atoi_def ParseInt_def Itoa_def Itoa_nat_val)
next
  case False
  then have b: "nat i < 2 ^ 63" using assms by (simp add: nat_less_iff)
  obtain c t where ct: "Itoa_nat (nat i) = c # t"
    using Itoa_nat_digits [of "nat i"] by (meson neq_Nil_conv)
  have "c \<noteq> CHR ''-''" "c \<noteq> CHR ''+''" using Itoa_nat_hd [of "nat i"] ct by simp_all
  then show ?thesis using False b Itoa_nat_val [of "nat i"]
    by (simp add: Atoi_def ParseInt_def Itoa_def ct)
qed

section \<open>Package bufio: lines of a file\<close>

text \<open>
  \<open>bufio.Scanner\<close> with \<open>ScanLines\<close>: the lines of the text, without the newline and without a
  carriage return before it; no empty line after a last newline. A line of 65536 bytes or more
  does not fit the buffer: the scan stops there and \<open>Err()\<close> is \<open>ErrTooLong\<close>, the second value.
\<close>

definition raw_lines :: "string \<Rightarrow> string list" where
  "raw_lines s = (if last (Split s newline) = [] then butlast (Split s newline) else Split s newline)"

definition drop_cr :: "string \<Rightarrow> string" where
  "drop_cr l = (if l \<noteq> [] \<and> last l = CHR 0x0D then butlast l else l)"

definition ScanLines :: "string \<Rightarrow> string list \<times> bool" where
  "ScanLines s =
     (let ls = raw_lines s; ok = (\<lambda>l. length l < 65536)
      in (map drop_cr (takeWhile ok ls), \<not> list_all ok ls))"

lemma ScanLines_code [code]:
  "ScanLines s =
     (let ls = raw_lines s; ok = (\<lambda>l. int (length l) < 65536)
      in (map drop_cr (takeWhile ok ls), \<not> list_all ok ls))"
  by (simp add: ScanLines_def)

lemmas bufio_defs [go_eval] = raw_lines_def drop_cr_def ScanLines_def

lemma raw_lines_Join:
  assumes "\<forall>l \<in> set ls. newline \<notin> set l"
  shows "raw_lines (concat (map (\<lambda>l. l @ [newline]) ls)) = ls"
proof -
  have "Split (concat (map (\<lambda>l. l @ [newline]) ls)) newline = ls @ [[]]"
    using assms by (induction ls) (auto simp: Split_append_sep)
  then show ?thesis by (simp add: raw_lines_def)
qed

lemma ScanLines_lines:
  assumes "\<forall>l \<in> set ls. newline \<notin> set l \<and> length l < 65536 \<and> (l = [] \<or> last l \<noteq> CHR 0x0D)"
  shows "ScanLines (concat (map (\<lambda>l. l @ [newline]) ls)) = (ls, False)"
proof -
  have "takeWhile (\<lambda>l. length l < 65536) ls = ls"
    unfolding takeWhile_eq_all_conv using assms by blast
  moreover have "map drop_cr ls = ls" using assms by (auto simp: drop_cr_def intro!: map_idI)
  moreover have "list_all (\<lambda>l. length l < 65536) ls" unfolding list_all_iff using assms by blast
  moreover have "raw_lines (concat (map (\<lambda>l. l @ [newline]) ls)) = ls"
    using assms by (intro raw_lines_Join) blast
  ultimately show ?thesis by (simp only: ScanLines_def Let_def simp_thms)
qed

end
