(* ===== verification/GoPath.thy ===== *)
theory GoPath
  imports GoStrings
begin

text \<open>
  Go's \<^verbatim>\<open>path\<close> and \<^verbatim>\<open>path/filepath\<close> packages on Unix (they agree there): lexical cleaning and
  joining of slash-separated paths.
\<close>

abbreviation slash :: char where "slash \<equiv> CHR ''/''"

section \<open>Definitions\<close>

text \<open>
  The elements of a cleaned path, kept in reverse while scanning: an empty element and \<open>.\<close> are
  dropped, \<open>..\<close> removes the element before it, stays at the root of a rooted path, and is kept at
  the start of any other.
\<close>

fun clean_elems :: "bool \<Rightarrow> string list \<Rightarrow> string list \<Rightarrow> string list" where
  "clean_elems rooted acc [] = rev acc"
| "clean_elems rooted acc (c # cs) =
     (if c = [] \<or> c = ''.'' then clean_elems rooted acc cs
      else if c = ''..'' then
        (if acc \<noteq> [] \<and> hd acc \<noteq> ''..'' then clean_elems rooted (tl acc) cs
         else if rooted then clean_elems rooted acc cs
         else clean_elems rooted (c # acc) cs)
      else clean_elems rooted (c # acc) cs)"

definition is_rooted :: "string \<Rightarrow> bool" where
  "is_rooted s = (case s of c # _ \<Rightarrow> c = slash | [] \<Rightarrow> False)"

definition path_Clean :: "string \<Rightarrow> string" where
  "path_Clean s =
     (if s = [] then ''.''
      else let body = Join (clean_elems (is_rooted s) [] (Split s slash)) [slash]
           in if is_rooted s then slash # body else if body = [] then ''.'' else body)"

definition path_Join :: "string list \<Rightarrow> string" where
  "path_Join elems =
     (case dropWhile (\<lambda>e. e = []) elems of [] \<Rightarrow> [] | es \<Rightarrow> path_Clean (Join es [slash]))"

text \<open>The directory with its final slash, and the file name.\<close>

definition path_Split :: "string \<Rightarrow> string \<times> string" where
  "path_Split s =
     (TrimRight (\<lambda>c. c \<noteq> slash) s, rev (takeWhile (\<lambda>c. c \<noteq> slash) (rev s)))"

definition path_Dir :: "string \<Rightarrow> string" where
  "path_Dir s = path_Clean (fst (path_Split s))"

definition path_Base :: "string \<Rightarrow> string" where
  "path_Base s =
     (if s = [] then ''.''
      else let t = TrimRight (\<lambda>c. c = slash) s
           in if t = [] then [slash] else snd (path_Split t))"

lemmas path_defs [go_eval] = path_Clean_def path_Join_def path_Split_def path_Dir_def path_Base_def
  is_rooted_def

section \<open>Laws\<close>

lemma path_Split_append: "fst (path_Split s) @ snd (path_Split s) = s"
  unfolding path_Split_def TrimRight_def
  by (metis fst_conv rev_append rev_rev_ident snd_conv takeWhile_dropWhile_id)

text \<open>An element that names a file: not empty, no slash, not a dot element.\<close>

definition plain :: "string \<Rightarrow> bool" where
  "plain c = (c \<noteq> [] \<and> slash \<notin> set c \<and> c \<noteq> ''.'' \<and> c \<noteq> ''..'')"

lemma clean_elems_plain: "\<forall>c \<in> set cs. plain c \<Longrightarrow> clean_elems r acc cs = rev acc @ cs"
  by (induction cs arbitrary: acc) (auto simp: plain_def)

lemma clean_elems_no_dots:
  "\<forall>c \<in> set cs. CHR ''.'' \<notin> set c \<Longrightarrow>
   clean_elems r acc cs = rev acc @ filter (\<lambda>c. c \<noteq> []) cs"
  by (induction cs arbitrary: acc) auto

lemma clean_elems_rooted:
  "\<forall>c \<in> set acc. plain c \<Longrightarrow> \<forall>c \<in> set cs. slash \<notin> set c \<Longrightarrow>
   \<forall>c \<in> set (clean_elems True acc cs). plain c"
proof (induction cs arbitrary: acc)
  case (Cons c cs)
  have tl: "\<forall>c \<in> set (tl acc). plain c" using Cons.prems(1) by (cases acc) simp_all
  have cs: "\<forall>c \<in> set cs. slash \<notin> set c" using Cons.prems(2) by simp
  have c: "c \<noteq> [] \<Longrightarrow> c \<noteq> ''.'' \<Longrightarrow> c \<noteq> ''..'' \<Longrightarrow> \<forall>x \<in> set (c # acc). plain x"
    using Cons.prems by (simp add: plain_def)
  show ?case
    using Cons.IH [OF tl cs] Cons.IH [OF Cons.prems(1) cs] Cons.IH [OF c cs]
    by (simp del: set_simps)
qed simp

lemma Split_slash_plain:
  "cs \<noteq> [] \<Longrightarrow> \<forall>c \<in> set cs. plain c \<Longrightarrow> Split (slash # Join cs [slash]) slash = [] # cs"
  by (auto simp: Split_Join plain_def)

lemma path_Clean_plain:
  assumes "\<forall>c \<in> set cs. plain c"
  shows "path_Clean (slash # Join cs [slash]) = slash # Join cs [slash]"
proof (cases "cs = []")
  case True
  then show ?thesis by (simp add: path_Clean_def is_rooted_def)
next
  case False
  then show ?thesis
    using assms Split_slash_plain [OF False assms]
    by (simp add: path_Clean_def is_rooted_def clean_elems_plain)
qed

theorem path_Clean_rooted:
  assumes "is_rooted s"
  obtains cs where "path_Clean s = slash # Join cs [slash]" "\<forall>c \<in> set cs. plain c"
proof
  let ?cs = "clean_elems True [] (Split s slash)"
  show "path_Clean s = slash # Join ?cs [slash]"
    using assms by (auto simp: path_Clean_def is_rooted_def)
  show "\<forall>c \<in> set ?cs. plain c"
    using Split_part [of _ s slash] by (intro clean_elems_rooted) auto
qed

theorem path_Clean_rooted_idem: "is_rooted s \<Longrightarrow> path_Clean (path_Clean s) = path_Clean s"
  by (metis path_Clean_rooted path_Clean_plain)

lemma Split_append_Join: "es \<noteq> [] \<Longrightarrow> Split (Join es [c]) c = concat (map (\<lambda>e. Split e c) es)"
proof (induction es "[c]" rule: Join.induct)
  case (3 p v va)
  have app: "Split (s @ c # t) c = Split s c @ Split t c" for s t
    by (induction s) (auto split: list.splits)
  show ?case using 3 app [of p] by simp
qed simp_all

text \<open>Joining elements without dots below a fixed rooted directory stays below it.\<close>

theorem path_Join_below:
  assumes "base \<noteq> []" "\<forall>c \<in> set base. plain c" "\<forall>e \<in> set es. CHR ''.'' \<notin> set e"
  shows "\<exists>cs. path_Join ((slash # Join base [slash]) # es) = slash # Join (base @ cs) [slash]
              \<and> (\<forall>c \<in> set cs. plain c)"
proof -
  let ?b = "slash # Join base [slash]"
  let ?parts = "concat (map (\<lambda>e. Split e slash) es)"
  let ?cs = "filter (\<lambda>c. c \<noteq> []) ?parts"
  have b: "Split ?b slash = [] # base" using assms(1,2) by (rule Split_slash_plain)
  have sp: "Split (Join (?b # es) [slash]) slash = [] # base @ ?parts"
    using b by (subst Split_append_Join) (simp_all del: Split.simps)
  have nd: "\<forall>c \<in> set ?parts. CHR ''.'' \<notin> set c"
    using assms(3) Split_set by fastforce
  have dist: "clean_elems True acc (base @ ?parts) = rev acc @ base @ ?cs" for acc
    using assms(2)
  proof (induction base arbitrary: acc)
    case Nil
    then show ?case using nd by (simp add: clean_elems_no_dots)
  next
    case (Cons a base)
    then show ?case by (simp add: plain_def)
  qed
  have "is_rooted (Join (?b # es) [slash])" by (cases es) (simp_all add: is_rooted_def)
  then have "path_Join (?b # es) = slash # Join (base @ ?cs) [slash]"
    using sp dist [of "[]"] by (auto simp: path_Join_def path_Clean_def is_rooted_def)
  moreover have "\<forall>c \<in> set ?cs. plain c"
    using nd Split_part by (fastforce simp: plain_def)
  ultimately show ?thesis by blast
qed

end
