(* ===== verification/GoOS.thy ===== *)
theory GoOS
  imports GoPath
begin

text \<open>
  The operating system as Go's \<^verbatim>\<open>os\<close>, \<^verbatim>\<open>io/ioutil\<close>, \<^verbatim>\<open>os/exec\<close> and \<^verbatim>\<open>net/http\<close> packages show it to the
  program: a file system with symbolic links, system calls any of which may fail at any moment
  (the fault schedule \<open>w_fault\<close> is arbitrary), and the outside world (programs that are run, web
  servers, the mount and module calls of the kernel) as functions the world carries.
\<close>

unbundle bit_operations_syntax

section \<open>Errors\<close>

datatype errno = ENOENT | EEXIST | ENOTDIR | EISDIR | ENOTEMPTY | ELOOP | EINVAL | EIO | EXDEV
  | EWOULDBLOCK | EACCES | EOther nat

datatype goerror = Errno errno | ErrMsg string | ErrWrap string goerror | ErrMulti "goerror list"
  | ErrEOF | GoPanic string

definition IsNotExist :: "goerror \<Rightarrow> bool" where
  "IsNotExist e = (e = Errno ENOENT)"

definition IsExist :: "goerror \<Rightarrow> bool" where
  "IsExist e = (e = Errno EEXIST \<or> e = Errno ENOTEMPTY)"

section \<open>Files\<close>

type_synonym path = "string list"
type_synonym filemode = "32 word"

text \<open>A device is a character device (\<open>KDev True\<close>) or a block device.\<close>

datatype kind = KDir | KReg string | KLink string | KDev bool "64 word" | KFifo | KSock

text \<open>\<open>i_mode\<close> holds the twelve mode bits of Unix, \<open>07777\<close>.\<close>

record inode =
  i_kind :: kind
  i_mode :: filemode
  i_uid :: int
  i_gid :: int

type_synonym fs = "(path \<times> inode) list"

abbreviation fs_get :: "fs \<Rightarrow> path \<Rightarrow> inode option" where "fs_get \<equiv> map_of"
abbreviation fs_put :: "path \<Rightarrow> inode \<Rightarrow> fs \<Rightarrow> fs" where "fs_put \<equiv> AList.update"
abbreviation fs_del :: "path \<Rightarrow> fs \<Rightarrow> fs" where "fs_del \<equiv> AList.delete"

definition is_dir :: "fs \<Rightarrow> path \<Rightarrow> bool" where
  "is_dir f p = (case fs_get f p of Some i \<Rightarrow> i_kind i = KDir | None \<Rightarrow> False)"

definition has_children :: "fs \<Rightarrow> path \<Rightarrow> bool" where
  "has_children f p = list_ex (\<lambda>(q, _). q \<noteq> [] \<and> butlast q = p) f"

text \<open>Every file lies in a directory.\<close>

definition wf_fs :: "fs \<Rightarrow> bool" where
  "wf_fs f = (is_dir f [] \<and> list_all (\<lambda>(q, _). q = [] \<or> is_dir f (butlast q)) f)"

definition children :: "fs \<Rightarrow> path \<Rightarrow> string list" where
  "children f p = sort (remdups (map (\<lambda>(q, _). last q) (filter (\<lambda>(q, _). q \<noteq> [] \<and> butlast q = p) f)))"

text \<open>Moving a file or a directory with everything below it; what was at the new name is gone.\<close>

definition move_path :: "path \<Rightarrow> path \<Rightarrow> path \<Rightarrow> path" where
  "move_path old new q = (if prefix old q then new @ drop (length old) q else q)"

definition fs_move :: "path \<Rightarrow> path \<Rightarrow> fs \<Rightarrow> fs" where
  "fs_move old new f = map (\<lambda>(q, i). (move_path old new q, i)) (filter (\<lambda>(q, _). q \<noteq> new) f)"

text \<open>The file system as it looks from a new root, and with the old root moved to \<open>old\<close> below it.\<close>

definition fs_subtree :: "path \<Rightarrow> fs \<Rightarrow> fs" where
  "fs_subtree p f = map (\<lambda>(q, i). (drop (length p) q, i)) (filter (\<lambda>(q, _). prefix p q) f)"

definition fs_pivot :: "path \<Rightarrow> path \<Rightarrow> fs \<Rightarrow> fs" where
  "fs_pivot p old f =
     filter (\<lambda>(q, _). \<not> prefix old q) (fs_subtree p f)
     @ map (\<lambda>(q, i). (old @ q, i)) (filter (\<lambda>(q, _). \<not> prefix p q) f)"

definition fs_remove_tree :: "path \<Rightarrow> fs \<Rightarrow> fs" where
  "fs_remove_tree p f = filter (\<lambda>(q, _). \<not> prefix p q) f"

text \<open>
  Path resolution: \<open>cur\<close> is the directory reached, the list the elements still to walk. A symbolic
  link is followed, except a last one when \<open>follow\<close> is false; \<open>n\<close> is the number of links that may
  still be followed (40, as in Linux). A missing last element is no error here.
\<close>

fun namei :: "nat \<Rightarrow> fs \<Rightarrow> bool \<Rightarrow> path \<Rightarrow> path \<Rightarrow> errno + path" where
  "namei n f follow cur [] = Inr cur"
| "namei n f follow cur (c # cs) =
     (if c = ''.'' then namei n f follow cur cs
      else if c = ''..'' then namei n f follow (butlast cur) cs
      else case fs_get f (cur @ [c]) of
        None \<Rightarrow> if cs = [] then Inr (cur @ [c]) else Inl ENOENT
      | Some i \<Rightarrow>
         (case i_kind i of
            KLink t \<Rightarrow>
              if cs = [] \<and> \<not> follow then Inr (cur @ [c])
              else (case n of
                0 \<Rightarrow> Inl ELOOP
              | Suc m \<Rightarrow> namei m f follow (if is_rooted t then [] else cur)
                          (filter (\<lambda>e. e \<noteq> []) (Split t slash) @ cs))
          | KDir \<Rightarrow> namei n f follow (cur @ [c]) cs
          | _ \<Rightarrow> if cs = [] then Inr (cur @ [c]) else Inl ENOTDIR))"

section \<open>The world\<close>

datatype stdin_src = StdinNone | StdinInherit | StdinBytes string

text \<open>\<open>syscall.SysProcAttr\<close>: the namespaces of a new process and the signal when its parent dies.\<close>

record sysproc =
  sp_clone :: "64 word"
  sp_unshare :: "64 word"
  sp_deathsig :: int

text \<open>
  A command: the program, the name it is called by when that is another one, its arguments, the
  environment if it is set, its input, its attributes if they are set.
\<close>

record cmd =
  c_name :: string
  c_argv0 :: "string option"
  c_args :: "string list"
  c_env :: "string list option"
  c_stdin :: stdin_src
  c_attr :: "sysproc option"

record http_resp =
  h_proto :: string
  h_status :: string
  h_code :: int
  h_body :: "goerror + string"

record mountreq =
  m_source :: string
  m_target :: string
  m_fstype :: string
  m_flags :: "64 word"
  m_data :: string

datatype event = EvRun cmd | EvMount mountreq | EvLog goerror | EvPrint string | EvModule string string
  | EvSync | EvExecve string "string list" "string list" | EvGet string | EvExit int | EvHostname string
  | EvChroot string | EvPivot string string | EvAttach string string "64 word" | EvDetach string
  | EvRlimit int "64 word" "64 word"

record world =
  w_fs :: fs
  w_cwd :: path
  w_umask :: filemode
  w_sysno :: nat
  w_fault :: "nat \<Rightarrow> (errno \<times> nat) option"
  w_rand :: "nat \<Rightarrow> string"
  w_randno :: nat
  w_exec :: "cmd \<Rightarrow> fs \<Rightarrow> goerror option \<times> fs"
  w_mountfx :: "mountreq \<Rightarrow> fs \<Rightarrow> errno option \<times> fs"
  w_modload :: "string \<Rightarrow> string \<Rightarrow> goerror option"
  w_http :: "nat \<Rightarrow> string \<Rightarrow> goerror + http_resp"
  w_httpno :: nat
  w_env :: "(string \<times> string) list"
  w_uid :: int
  w_hostname :: string
  w_stdin :: "string list"
  w_trace :: "event list"

type_synonym 'a os = "(world, goerror + 'a) state"

definition fault_free :: "world \<Rightarrow> bool" where
  "fault_free w = (\<forall>n. w_fault w n = None)"

definition resolve :: "world \<Rightarrow> bool \<Rightarrow> string \<Rightarrow> errno + path" where
  "resolve w follow s =
     (if s = [] then Inl ENOENT
      else namei 40 (w_fs w) follow (if is_rooted s then [] else w_cwd w)
             (filter (\<lambda>e. e \<noteq> []) (Split s slash)))"

definition tick :: "world \<Rightarrow> world" where
  "tick w = w\<lparr>w_sysno := Suc (w_sysno w)\<rparr>"

text \<open>
  A system call on the file system: the schedule decides whether it fails; then \<open>op\<close> computes the
  error or the value and the new file system. \<open>part\<close> is what a failing call may leave behind.
\<close>

definition fs_call_part :: "(nat \<Rightarrow> world \<Rightarrow> fs) \<Rightarrow> (world \<Rightarrow> errno + 'a \<times> fs) \<Rightarrow> 'a os" where
  "fs_call_part part op = State (\<lambda>w.
     case w_fault w (w_sysno w) of
       Some (e, k) \<Rightarrow> (Inl (Errno e), (tick w)\<lparr>w_fs := part k w\<rparr>)
     | None \<Rightarrow>
        (case op w of
           Inl e \<Rightarrow> (Inl (Errno e), tick w)
         | Inr (a, f) \<Rightarrow> (Inr a, (tick w)\<lparr>w_fs := f\<rparr>)))"

definition fs_call :: "(world \<Rightarrow> errno + 'a \<times> fs) \<Rightarrow> 'a os" where
  "fs_call op = fs_call_part (\<lambda>_. w_fs) op"

definition with_path :: "world \<Rightarrow> bool \<Rightarrow> string \<Rightarrow> (path \<Rightarrow> errno + 'b) \<Rightarrow> errno + 'b" where
  "with_path w follow s k = (case resolve w follow s of Inl e \<Rightarrow> Inl e | Inr p \<Rightarrow> k p)"

definition with_inode :: "world \<Rightarrow> bool \<Rightarrow> string \<Rightarrow> (path \<Rightarrow> inode \<Rightarrow> errno + 'b) \<Rightarrow> errno + 'b" where
  "with_inode w follow s k =
     with_path w follow s (\<lambda>p. case fs_get (w_fs w) p of None \<Rightarrow> Inl ENOENT | Some i \<Rightarrow> k p i)"

text \<open>A new file: its directory must be there.\<close>

definition new_inode :: "path \<Rightarrow> inode \<Rightarrow> fs \<Rightarrow> errno + fs" where
  "new_inode p i f = (if p \<noteq> [] \<and> is_dir f (butlast p) then Inr (fs_put p i f) else Inl ENOENT)"

section \<open>File modes\<close>

text \<open>
  \<open>os.FileMode\<close> keeps the permission bits where Unix has them and setuid, setgid and sticky in
  bits 23, 22 and 20. \<open>syscallMode\<close> is the translation \<open>os\<close> makes before a system call.
\<close>

definition syscallMode :: "filemode \<Rightarrow> filemode" where
  "syscallMode m = (m AND 511)
     OR (if bit m 23 then 2048 else 0) OR (if bit m 22 then 1024 else 0)
     OR (if bit m 20 then 512 else 0)"

definition goMode :: "inode \<Rightarrow> filemode" where
  "goMode i = (i_mode i AND 511)
     OR (if bit (i_mode i) 11 then push_bit 23 1 else 0)
     OR (if bit (i_mode i) 10 then push_bit 22 1 else 0)
     OR (if bit (i_mode i) 9 then push_bit 20 1 else 0)
     OR (case i_kind i of KDir \<Rightarrow> push_bit 31 1 | KLink _ \<Rightarrow> push_bit 27 1 | KDev c _ \<Rightarrow> push_bit 26 1 OR (if c then push_bit 21 1 else 0)
         | KFifo \<Rightarrow> push_bit 25 1 | KSock \<Rightarrow> push_bit 24 1 | KReg _ \<Rightarrow> 0)"

definition Perm :: "filemode \<Rightarrow> filemode" where
  "Perm m = m AND 511"

section \<open>System calls\<close>

record fileinfo =
  fi_name :: string
  fi_inode :: inode

definition IsDir :: "fileinfo \<Rightarrow> bool" where
  "IsDir fi = (i_kind (fi_inode fi) = KDir)"

definition os_Stat :: "string \<Rightarrow> fileinfo os" where
  "os_Stat s = fs_call (\<lambda>w. with_inode w True s
     (\<lambda>p i. Inr (\<lparr>fi_name = path_Base s, fi_inode = i\<rparr>, w_fs w)))"

definition os_Lstat :: "string \<Rightarrow> fileinfo os" where
  "os_Lstat s = fs_call (\<lambda>w. with_inode w False s
     (\<lambda>p i. Inr (\<lparr>fi_name = path_Base s, fi_inode = i\<rparr>, w_fs w)))"

definition os_Readlink :: "string \<Rightarrow> string os" where
  "os_Readlink s = fs_call (\<lambda>w. with_inode w False s
     (\<lambda>p i. case i_kind i of KLink t \<Rightarrow> Inr (t, w_fs w) | _ \<Rightarrow> Inl EINVAL))"

definition os_ReadFile :: "string \<Rightarrow> string os" where
  "os_ReadFile s = fs_call (\<lambda>w. with_inode w True s
     (\<lambda>p i. case i_kind i of KReg c \<Rightarrow> Inr (c, w_fs w) | KDir \<Rightarrow> Inl EISDIR | _ \<Rightarrow> Inl EINVAL))"

text \<open>The entries of a directory with their \<open>lstat\<close> data, as \<open>ioutil.ReadDir\<close> sorts them.\<close>

definition entries :: "fs \<Rightarrow> path \<Rightarrow> fileinfo list" where
  "entries f p = concat (map (\<lambda>c. case fs_get f (p @ [c]) of
       Some i \<Rightarrow> [\<lparr>fi_name = c, fi_inode = i\<rparr>] | None \<Rightarrow> []) (filter plain (children f p)))"

definition os_ReadDirInfo :: "string \<Rightarrow> (fileinfo list) os" where
  "os_ReadDirInfo s = fs_call (\<lambda>w. with_inode w True s
     (\<lambda>p i. if i_kind i = KDir then Inr (entries (w_fs w) p, w_fs w) else Inl ENOTDIR))"

definition os_ReadDir :: "string \<Rightarrow> (string list) os" where
  "os_ReadDir s = fs_call (\<lambda>w. with_inode w True s
     (\<lambda>p i. if i_kind i = KDir then Inr (children (w_fs w) p, w_fs w) else Inl ENOTDIR))"

text \<open>Opening for reading; a read that fails in the middle has delivered a part of the content.\<close>

definition os_Open :: "string \<Rightarrow> path os" where
  "os_Open s = fs_call (\<lambda>w. with_inode w True s (\<lambda>p i. Inr (p, w_fs w)))"

definition fd_ReadAll :: "path \<Rightarrow> (world, string \<times> goerror option) state" where
  "fd_ReadAll p = State (\<lambda>w.
     case (case fs_get (w_fs w) p of Some i \<Rightarrow> i_kind i | None \<Rightarrow> KReg []) of
       KReg c \<Rightarrow>
         (case w_fault w (w_sysno w) of
            None \<Rightarrow> ((c, None), tick w)
          | Some (e, k) \<Rightarrow> ((take k c, Some (Errno e)), tick w))
     | KDir \<Rightarrow> (([], Some (Errno EISDIR)), tick w)
     | _ \<Rightarrow> (([], Some (Errno EINVAL)), tick w))"

text \<open>An open file is the path of its inode; the program only writes files it has just created
  or emptied, front to back, so a write appends.\<close>

definition os_OpenTrunc :: "string \<Rightarrow> filemode \<Rightarrow> path os" where
  "os_OpenTrunc s perm = fs_call (\<lambda>w. with_path w True s
     (\<lambda>p. case fs_get (w_fs w) p of
        None \<Rightarrow>
         (case new_inode p \<lparr>i_kind = KReg [], i_mode = syscallMode perm AND NOT (w_umask w),
                            i_uid = w_uid w, i_gid = w_uid w\<rparr> (w_fs w) of
            Inl e \<Rightarrow> Inl e | Inr f \<Rightarrow> Inr (p, f))
      | Some i \<Rightarrow>
         (case i_kind i of
            KDir \<Rightarrow> Inl EISDIR
          | KReg _ \<Rightarrow> Inr (p, fs_put p (i\<lparr>i_kind := KReg []\<rparr>) (w_fs w))
          | KLink _ \<Rightarrow> Inl ELOOP
          | _ \<Rightarrow> Inr (p, w_fs w))))"

definition append_file :: "path \<Rightarrow> string \<Rightarrow> fs \<Rightarrow> fs" where
  "append_file p data f =
     (case fs_get f p of
        Some i \<Rightarrow> (case i_kind i of KReg c \<Rightarrow> fs_put p (i\<lparr>i_kind := KReg (c @ data)\<rparr>) f | _ \<Rightarrow> f)
      | None \<Rightarrow> f)"

definition fd_Write :: "path \<Rightarrow> string \<Rightarrow> unit os" where
  "fd_Write p data = fs_call_part (\<lambda>k w. append_file p (take k data) (w_fs w))
     (\<lambda>w. Inr ((), append_file p data (w_fs w)))"

definition fd_Close :: "path \<Rightarrow> unit os" where
  "fd_Close p = fs_call (\<lambda>w. Inr ((), w_fs w))"

definition os_WriteFile :: "string \<Rightarrow> string \<Rightarrow> filemode \<Rightarrow> unit os" where
  "os_WriteFile s data perm = do {
     r \<leftarrow> os_OpenTrunc s perm;
     onok r (\<lambda>h. do {
       rw \<leftarrow> fd_Write h data;
       rc \<leftarrow> fd_Close h;
       State_Monad.return (case rw of Inl e \<Rightarrow> Inl e | Inr _ \<Rightarrow> rc) })}"

definition os_Create :: "string \<Rightarrow> path os" where
  "os_Create s = os_OpenTrunc s 438"

text \<open>\<open>open\<close> with \<open>O_CREATE|O_EXCL\<close>, mode 0600, as \<open>ioutil.TempFile\<close> uses it.\<close>

definition os_OpenExcl :: "string \<Rightarrow> path os" where
  "os_OpenExcl s = fs_call (\<lambda>w. with_path w False s
     (\<lambda>p. case fs_get (w_fs w) p of
        Some _ \<Rightarrow> Inl EEXIST
      | None \<Rightarrow>
         (case new_inode p \<lparr>i_kind = KReg [], i_mode = 384 AND NOT (w_umask w),
                            i_uid = w_uid w, i_gid = w_uid w\<rparr> (w_fs w) of
            Inl e \<Rightarrow> Inl e | Inr f \<Rightarrow> Inr (p, f))))"

definition os_Mkdir :: "string \<Rightarrow> filemode \<Rightarrow> unit os" where
  "os_Mkdir s perm = fs_call (\<lambda>w. with_path w False s
     (\<lambda>p. case fs_get (w_fs w) p of
        Some _ \<Rightarrow> Inl EEXIST
      | None \<Rightarrow>
         (case new_inode p \<lparr>i_kind = KDir, i_mode = syscallMode perm AND NOT (w_umask w),
                            i_uid = w_uid w, i_gid = w_uid w\<rparr> (w_fs w) of
            Inl e \<Rightarrow> Inl e | Inr f \<Rightarrow> Inr ((), f))))"

definition os_Symlink :: "string \<Rightarrow> string \<Rightarrow> unit os" where
  "os_Symlink target s = fs_call (\<lambda>w. with_path w False s
     (\<lambda>p. case fs_get (w_fs w) p of
        Some _ \<Rightarrow> Inl EEXIST
      | None \<Rightarrow>
         (case new_inode p \<lparr>i_kind = KLink target, i_mode = 511, i_uid = w_uid w, i_gid = w_uid w\<rparr>
                 (w_fs w) of
            Inl e \<Rightarrow> Inl e | Inr f \<Rightarrow> Inr ((), f))))"

text \<open>\<open>mknod\<close>: the type bits of the mode say what is made; without any it is a regular file.\<close>

definition mknod_kind :: "filemode \<Rightarrow> 64 word \<Rightarrow> kind option" where
  "mknod_kind mode dev =
     (let t = mode AND 61440 in
      if t = 0 \<or> t = 32768 then Some (KReg [])
      else if t = 8192 then Some (KDev True dev)
      else if t = 24576 then Some (KDev False dev)
      else if t = 4096 then Some KFifo
      else if t = 49152 then Some KSock
      else None)"

definition os_Mknod :: "string \<Rightarrow> filemode \<Rightarrow> 64 word \<Rightarrow> unit os" where
  "os_Mknod s mode dev = fs_call (\<lambda>w. with_path w False s
     (\<lambda>p. case mknod_kind mode dev of
        None \<Rightarrow> Inl EINVAL
      | Some k \<Rightarrow>
         (case fs_get (w_fs w) p of
            Some _ \<Rightarrow> Inl EEXIST
          | None \<Rightarrow>
             (case new_inode p \<lparr>i_kind = k, i_mode = (mode AND 4095) AND NOT (w_umask w),
                                i_uid = w_uid w, i_gid = w_uid w\<rparr> (w_fs w) of
                Inl e \<Rightarrow> Inl e | Inr f \<Rightarrow> Inr ((), f)))))"

definition os_Chmod :: "string \<Rightarrow> filemode \<Rightarrow> unit os" where
  "os_Chmod s m = fs_call (\<lambda>w. with_inode w True s
     (\<lambda>p i. Inr ((), fs_put p (i\<lparr>i_mode := syscallMode m\<rparr>) (w_fs w))))"

definition os_Chown :: "string \<Rightarrow> int \<Rightarrow> int \<Rightarrow> unit os" where
  "os_Chown s uid gid = fs_call (\<lambda>w. with_inode w True s
     (\<lambda>p i. Inr ((), fs_put p (i\<lparr>i_uid := uid, i_gid := gid\<rparr>) (w_fs w))))"

definition os_Remove :: "string \<Rightarrow> unit os" where
  "os_Remove s = fs_call (\<lambda>w. with_inode w False s
     (\<lambda>p i. if p = [] then Inl EINVAL
            else if has_children (w_fs w) p then Inl ENOTEMPTY
            else Inr ((), fs_del p (w_fs w))))"

text \<open>
  When \<open>RemoveAll\<close> fails it may have removed a part of what is below the path; the fault schedule says how much:
  some of the entries below it, each with all below itself.
\<close>

definition removed_part :: "path \<Rightarrow> nat \<Rightarrow> fs \<Rightarrow> fs" where
  "removed_part p k f = fold fs_remove_tree (take k (filter (\<lambda>q. strict_prefix p q) (map fst f))) f"

definition os_RemoveAll :: "string \<Rightarrow> unit os" where
  "os_RemoveAll s = fs_call_part
     (\<lambda>k w. case resolve w False s of Inl e \<Rightarrow> w_fs w | Inr p \<Rightarrow> if p = [] then w_fs w else removed_part p k (w_fs w))
     (\<lambda>w. with_path w False s
     (\<lambda>p. if p = [] then Inl EINVAL else Inr ((), fs_remove_tree p (w_fs w))))"

text \<open>
  \<open>rename\<close>: neither name is followed; a directory only replaces an empty directory, a file never
  replaces a directory, and nothing is moved below itself.
\<close>

definition rename_inodes :: "path \<Rightarrow> path \<Rightarrow> fs \<Rightarrow> errno + fs" where
  "rename_inodes old new f =
     (case fs_get f old of
        None \<Rightarrow> Inl ENOENT
      | Some i \<Rightarrow>
         if old = new then Inr f
         else if old = [] \<or> new = [] \<or> prefix old new then Inl EINVAL
         else if \<not> is_dir f (butlast new) then Inl ENOENT
         else (case fs_get f new of
                 None \<Rightarrow> Inr (fs_move old new f)
               | Some j \<Rightarrow>
                  if i_kind i = KDir then
                    (if i_kind j \<noteq> KDir then Inl ENOTDIR
                     else if has_children f new then Inl ENOTEMPTY
                     else Inr (fs_move old new f))
                  else if i_kind j = KDir then Inl EISDIR
                  else Inr (fs_move old new f)))"

text \<open>Go refuses a directory as the new name, whether the system call would replace it or not, unless it is the old one by another name.\<close>

definition os_Rename :: "string \<Rightarrow> string \<Rightarrow> unit os" where
  "os_Rename s t = fs_call (\<lambda>w. with_path w False s (\<lambda>p. with_path w False t
     (\<lambda>q. if is_dir (w_fs w) q \<and> fs_get (w_fs w) p \<noteq> None \<and> (s = t \<or> p \<noteq> q) then Inl EEXIST
      else case rename_inodes p q (w_fs w) of Inl e \<Rightarrow> Inl e | Inr f \<Rightarrow> Inr ((), f))))"

definition os_Chdir :: "string \<Rightarrow> unit os" where
  "os_Chdir s = State (\<lambda>w.
     case w_fault w (w_sysno w) of
       Some (e, _) \<Rightarrow> (Inl (Errno e), tick w)
     | None \<Rightarrow>
        (case with_inode w True s (\<lambda>p i. if i_kind i = KDir then Inr p else Inl ENOTDIR) of
           Inl e \<Rightarrow> (Inl (Errno e), tick w)
         | Inr p \<Rightarrow> (Inr (), (tick w)\<lparr>w_cwd := p\<rparr>)))"

text \<open>
  \<open>chroot\<close> and \<open>pivot_root\<close>: the working directory goes with the process; one outside of the new
  root is taken to be the new root itself.
\<close>

definition under_root :: "path \<Rightarrow> path \<Rightarrow> path" where
  "under_root p d = (if prefix p d then drop (length p) d else [])"

definition sys_Chroot :: "string \<Rightarrow> unit os" where
  "sys_Chroot s = State (\<lambda>w.
     case w_fault w (w_sysno w) of
       Some (e, _) \<Rightarrow> (Inl (Errno e), tick w)
     | None \<Rightarrow>
        (case with_inode w True s (\<lambda>p i. if i_kind i = KDir then Inr p else Inl ENOTDIR) of
           Inl e \<Rightarrow> (Inl (Errno e), tick w)
         | Inr p \<Rightarrow> (Inr (), (tick w)\<lparr>w_fs := fs_subtree p (w_fs w), w_cwd := under_root p (w_cwd w),
                                        w_trace := w_trace w @ [EvChroot s]\<rparr>)))"

definition sys_PivotRoot :: "string \<Rightarrow> string \<Rightarrow> unit os" where
  "sys_PivotRoot s t = State (\<lambda>w.
     case w_fault w (w_sysno w) of
       Some (e, _) \<Rightarrow> (Inl (Errno e), tick w)
     | None \<Rightarrow>
        (case with_inode w True s (\<lambda>p i. if i_kind i \<noteq> KDir then Inl ENOTDIR else
                with_inode w True t (\<lambda>q j. if i_kind j \<noteq> KDir then Inl ENOTDIR
                  else if p = [] \<or> \<not> strict_prefix p q then Inl EINVAL else Inr (p, q))) of
           Inl e \<Rightarrow> (Inl (Errno e), tick w)
         | Inr (p, q) \<Rightarrow>
            (Inr (), (tick w)\<lparr>w_fs := fs_pivot p (drop (length p) q) (w_fs w), w_cwd := under_root p (w_cwd w),
                               w_trace := w_trace w @ [EvPivot s t]\<rparr>)))"

section \<open>Library procedures built from system calls\<close>

text \<open>The path and its ancestors as \<open>os.MkdirAll\<close> cuts them off at their last slash.\<close>

definition parent_path :: "string \<Rightarrow> string option" where
  "parent_path s =
     (let t = TrimRight (\<lambda>c. c \<noteq> slash) (TrimRight (\<lambda>c. c = slash) s)
      in if length t > 1 then Some (butlast t) else None)"

lemma parent_path_shorter: "parent_path s = Some t \<Longrightarrow> length t < length s"
proof -
  assume a: "parent_path s = Some t"
  let ?t = "TrimRight (\<lambda>c. c \<noteq> slash) (TrimRight (\<lambda>c. c = slash) s)"
  have "length ?t \<le> length s"
    by (meson TrimRight_prefix order_trans prefix_length_le)
  then show ?thesis using a by (auto simp: parent_path_def Let_def split: if_splits)
qed

function ancestors :: "string \<Rightarrow> string list" where
  "ancestors s = s # (case parent_path s of None \<Rightarrow> [] | Some t \<Rightarrow> ancestors t)"
  by pat_completeness auto
termination
  by (relation "measure length") (auto dest: parent_path_shorter)

declare ancestors.simps [simp del]

definition mkdir_or_dir :: "string \<Rightarrow> filemode \<Rightarrow> unit os" where
  "mkdir_or_dir p perm = do {
     m \<leftarrow> os_Mkdir p perm;
     (case m of
        Inr _ \<Rightarrow> State_Monad.return (Inr ())
      | Inl e \<Rightarrow> do {
          l \<leftarrow> os_Lstat p;
          State_Monad.return (case l of Inr fi \<Rightarrow> if IsDir fi then Inr () else Inl e | Inl _ \<Rightarrow> Inl e) }) }"

primrec mkdir_chain :: "filemode \<Rightarrow> string list \<Rightarrow> unit os" where
  "mkdir_chain perm [] = State_Monad.return (Inr ())"
| "mkdir_chain perm (p # anc) = do {
     st \<leftarrow> os_Stat p;
     (case st of
        Inr fi \<Rightarrow> State_Monad.return (if IsDir fi then Inr () else Inl (Errno ENOTDIR))
      | Inl _ \<Rightarrow> do {
          r \<leftarrow> mkdir_chain perm anc;
          onok r (\<lambda>_. mkdir_or_dir p perm) }) }"

definition os_MkdirAll :: "string \<Rightarrow> filemode \<Rightarrow> unit os" where
  "os_MkdirAll s perm = mkdir_chain perm (ancestors s)"

definition next_random :: "(world, string) state" where
  "next_random = State (\<lambda>w. (w_rand w (w_randno w), w\<lparr>w_randno := Suc (w_randno w)\<rparr>))"

text \<open>\<open>ioutil.TempFile\<close> and \<open>TempDir\<close>: random names until one is free, at most 10000.\<close>

definition temp_dir :: "string \<Rightarrow> string" where
  "temp_dir dir = (if dir = [] then ''/tmp'' else dir)"

text \<open>The random part goes where the last \<open>*\<close> of the pattern is, or to its end.\<close>

definition pattern_split :: "string \<Rightarrow> string \<times> string" where
  "pattern_split pat =
     (if CHR ''*'' \<in> set pat
      then (butlast (TrimRight (\<lambda>c. c \<noteq> CHR ''*'') pat), rev (takeWhile (\<lambda>c. c \<noteq> CHR ''*'') (rev pat)))
      else (pat, []))"

primrec temp_loop :: "(string \<Rightarrow> 'a os) \<Rightarrow> string \<Rightarrow> string \<times> string \<Rightarrow> nat \<Rightarrow> (string \<times> 'a) os" where
  "temp_loop mk dir ps 0 = State_Monad.return (Inl (Errno EEXIST))"
| "temp_loop mk dir ps (Suc n) = do {
     rnd \<leftarrow> next_random;
     let name = path_Join [dir, fst ps @ rnd @ snd ps];
     r \<leftarrow> mk name;
     (case r of
        Inr h \<Rightarrow> State_Monad.return (Inr (name, h))
      | Inl e \<Rightarrow> if IsExist e then temp_loop mk dir ps n else State_Monad.return (Inl e)) }"

definition TempFile :: "string \<Rightarrow> string \<Rightarrow> (string \<times> path) os" where
  "TempFile dir pat = temp_loop os_OpenExcl (temp_dir dir) (pattern_split pat) 10000"

definition TempDir :: "string \<Rightarrow> string \<Rightarrow> (string \<times> unit) os" where
  "TempDir dir pat = temp_loop (\<lambda>n. os_Mkdir n 448) (temp_dir dir) (pattern_split pat) 10000"

section \<open>Processes, network, kernel\<close>

definition emit :: "event \<Rightarrow> (world, unit) state" where
  "emit ev = State (\<lambda>w. ((), w\<lparr>w_trace := w_trace w @ [ev]\<rparr>))"

definition cmd_Run :: "cmd \<Rightarrow> unit os" where
  "cmd_Run c = State (\<lambda>w.
     case w_exec w c (w_fs w) of
       (r, f) \<Rightarrow> (case r of None \<Rightarrow> Inr () | Some e \<Rightarrow> Inl e,
                  w\<lparr>w_fs := f, w_trace := w_trace w @ [EvRun c]\<rparr>))"

definition Command :: "string \<Rightarrow> string list \<Rightarrow> cmd" where
  "Command name args =
     \<lparr>c_name = name, c_argv0 = None, c_args = args, c_env = None, c_stdin = StdinNone, c_attr = None\<rparr>"

definition http_Get :: "string \<Rightarrow> http_resp os" where
  "http_Get url = State (\<lambda>w.
     (w_http w (w_httpno w) url,
      w\<lparr>w_httpno := Suc (w_httpno w), w_trace := w_trace w @ [EvGet url]\<rparr>))"

definition sys_mount :: "mountreq \<Rightarrow> unit os" where
  "sys_mount m = State (\<lambda>w.
     case w_mountfx w m (w_fs w) of
       (Some e, f) \<Rightarrow> (Inl (Errno e), w\<lparr>w_trace := w_trace w @ [EvMount m]\<rparr>)
     | (None, f) \<Rightarrow> (Inr (), w\<lparr>w_fs := f, w_trace := w_trace w @ [EvMount m]\<rparr>))"

definition modprobe_Load :: "string \<Rightarrow> string \<Rightarrow> unit os" where
  "modprobe_Load m params = State (\<lambda>w.
     (case w_modload w m params of None \<Rightarrow> Inr () | Some e \<Rightarrow> Inl e,
      w\<lparr>w_trace := w_trace w @ [EvModule m params]\<rparr>))"

definition Getuid :: "(world, int) state" where
  "Getuid = State (\<lambda>w. (w_uid w, w))"

definition Getenv :: "string \<Rightarrow> (world, string) state" where
  "Getenv k = State (\<lambda>w. (case map_of (w_env w) k of Some v \<Rightarrow> v | None \<Rightarrow> [], w))"

definition Setenv :: "string \<Rightarrow> string \<Rightarrow> (world, unit) state" where
  "Setenv k v = State (\<lambda>w. ((), w\<lparr>w_env := AList.update k v (w_env w)\<rparr>))"

definition Unsetenv :: "string \<Rightarrow> (world, unit) state" where
  "Unsetenv k = State (\<lambda>w. ((), w\<lparr>w_env := AList.delete k (w_env w)\<rparr>))"

definition Environ :: "(world, string list) state" where
  "Environ = State (\<lambda>w. (map (\<lambda>(k, v). k @ ''='' @ v) (w_env w), w))"

text \<open>
  \<open>execve\<close>: on success the process is another one, and \<open>EvExecve\<close> is the last thing it did; what a
  caller does with the value \<open>Inr ()\<close> is code that does not run.
\<close>

definition sys_Exec :: "string \<Rightarrow> string list \<Rightarrow> string list \<Rightarrow> unit os" where
  "sys_Exec path args env = State (\<lambda>w.
     case w_fault w (w_sysno w) of
       Some (e, _) \<Rightarrow> (Inl (Errno e), tick w)
     | None \<Rightarrow>
        (case with_inode w True path (\<lambda>p i. case i_kind i of
                KReg _ \<Rightarrow> if i_mode i AND 73 \<noteq> 0 then Inr () else Inl EACCES | _ \<Rightarrow> Inl EACCES) of
           Inl e \<Rightarrow> (Inl (Errno e), tick w)
         | Inr _ \<Rightarrow> (Inr (), (tick w)\<lparr>w_trace := w_trace w @ [EvExecve path args env]\<rparr>)))"

definition sys_Setrlimit :: "int \<Rightarrow> 64 word \<Rightarrow> 64 word \<Rightarrow> unit os" where
  "sys_Setrlimit resource cur hard = State (\<lambda>w.
     case w_fault w (w_sysno w) of
       Some (e, _) \<Rightarrow> (Inl (Errno e), tick w)
     | None \<Rightarrow> (Inr (), (tick w)\<lparr>w_trace := w_trace w @ [EvRlimit resource cur hard]\<rparr>))"

definition sys_Sethostname :: "string \<Rightarrow> unit os" where
  "sys_Sethostname h = State (\<lambda>w.
     case w_fault w (w_sysno w) of
       Some (e, _) \<Rightarrow> (Inl (Errno e), tick w)
     | None \<Rightarrow> (Inr (), (tick w)\<lparr>w_hostname := h, w_trace := w_trace w @ [EvHostname h]\<rparr>))"

definition os_Hostname :: "string os" where
  "os_Hostname = State (\<lambda>w.
     case w_fault w (w_sysno w) of
       Some (e, _) \<Rightarrow> (Inl (Errno e), tick w)
     | None \<Rightarrow> (Inr (w_hostname w), tick w))"

end
