(* ===== verification/GoOS_Laws.thy ===== *)
theory GoOS_Laws
  imports GoOS
begin

text \<open>
  Laws of the file system: lookup after each primitive, preservation of the tree shape \<open>wf_fs\<close>,
  and which path resolutions a change of the file system leaves alone.
\<close>

section \<open>File-system primitives\<close>

lemma fs_get_put [simp]: "fs_get (fs_put p i f) q = (if q = p then Some i else fs_get f q)"
  by simp

lemma fs_get_del [simp]: "fs_get (fs_del p f) q = (if q = p then None else fs_get f q)"
  by (simp add: delete_conv')

lemma fs_get_remove_tree [simp]:
  "fs_get (fs_remove_tree p f) q = (if prefix p q then None else fs_get f q)"
  by (induction f) (auto simp: fs_remove_tree_def)

lemma is_dir_put [simp]:
  "is_dir (fs_put p i f) q = (if q = p then i_kind i = KDir else is_dir f q)"
  by (simp add: is_dir_def)

lemma is_dir_del [simp]: "is_dir (fs_del p f) q = (q \<noteq> p \<and> is_dir f q)"
  by (simp add: is_dir_def delete_conv')

lemma is_dir_remove_tree [simp]:
  "is_dir (fs_remove_tree p f) q = (\<not> prefix p q \<and> is_dir f q)"
  by (simp add: is_dir_def)

lemma is_dir_get: "is_dir f p \<Longrightarrow> fs_get f p \<noteq> None"
  by (auto simp: is_dir_def split: option.splits)

lemma has_children_iff: "has_children f p \<longleftrightarrow> (\<exists>c. fs_get f (p @ [c]) \<noteq> None)"
proof
  assume "has_children f p"
  then obtain q i where q: "(q, i) \<in> set f" "q \<noteq> []" "butlast q = p"
    by (auto simp: has_children_def list_ex_iff)
  then have "q = p @ [last q]" by (metis append_butlast_last_id)
  with q(1) show "\<exists>c. fs_get f (p @ [c]) \<noteq> None"
    by (metis map_of_eq_None_iff fst_conv image_eqI)
next
  assume "\<exists>c. fs_get f (p @ [c]) \<noteq> None"
  then obtain c i where "fs_get f (p @ [c]) = Some i" by auto
  then have "(p @ [c], i) \<in> set f" by (rule map_of_SomeD)
  then show "has_children f p" by (force simp: has_children_def list_ex_iff)
qed

lemma wf_fs_iff:
  "wf_fs f \<longleftrightarrow> is_dir f [] \<and> (\<forall>q. fs_get f q \<noteq> None \<and> q \<noteq> [] \<longrightarrow> is_dir f (butlast q))"
proof -
  have "(\<exists>i. (q, i) \<in> set f) \<longleftrightarrow> fs_get f q \<noteq> None" for q
    by (force simp: map_of_eq_None_iff)
  then show ?thesis by (fastforce simp: wf_fs_def list_all_iff)
qed

lemma wf_fs_root: "wf_fs f \<Longrightarrow> is_dir f []"
  by (simp add: wf_fs_iff)

lemma wf_fs_parent: "wf_fs f \<Longrightarrow> fs_get f q \<noteq> None \<Longrightarrow> q \<noteq> [] \<Longrightarrow> is_dir f (butlast q)"
  by (simp add: wf_fs_iff)

lemma wf_fs_above: "wf_fs f \<Longrightarrow> fs_get f (p @ q) \<noteq> None \<Longrightarrow> q \<noteq> [] \<Longrightarrow> is_dir f p"
proof (induction q rule: rev_induct)
  case (snoc c q)
  have d: "is_dir f (p @ q)"
    using wf_fs_parent [OF snoc.prems(1,2)] by (simp add: butlast_append)
  show ?case
  proof (cases "q = []")
    case False
    then show ?thesis using snoc.IH [OF snoc.prems(1) is_dir_get [OF d]] by simp
  qed (use d in simp)
qed simp

lemma wf_fs_below_empty:
  assumes "wf_fs f" "\<not> has_children f p" "strict_prefix p q"
  shows "fs_get f q = None"
proof (rule ccontr)
  assume n: "fs_get f q \<noteq> None"
  obtain z where z: "q = p @ z" "z \<noteq> []" using assms(3) by (auto simp: strict_prefix_def prefix_def)
  then obtain c r where q: "q = p @ c # r" by (cases z) auto
  have "fs_get f (p @ [c]) \<noteq> None"
  proof (cases "r = []")
    case False
    then have "is_dir f (p @ [c])" using wf_fs_above [OF assms(1), of "p @ [c]" r] n q by simp
    then show ?thesis by (rule is_dir_get)
  qed (use n q in simp)
  then show False using assms(2) by (auto simp: has_children_iff)
qed

subsection \<open>Moving\<close>

lemma map_of_rekey:
  assumes "\<And>q. q \<in> fst ` set xs \<Longrightarrow> (k = g q) = (k0 = q)"
  shows "map_of (map (\<lambda>(q, i). (g q, i)) xs) k = map_of xs k0"
  using assms
proof (induction xs)
  case (Cons x xs)
  have "(k = g (fst x)) = (k0 = fst x)" by (rule Cons.prems) simp
  moreover have "map_of (map (\<lambda>(q, i). (g q, i)) xs) k = map_of xs k0"
    by (rule Cons.IH) (simp add: Cons.prems)
  ultimately show ?case by (cases x) (simp only: list.map prod.case map_of.simps fun_upd_apply fst_conv snd_conv)
qed simp

lemma map_of_filter_neq: "k \<noteq> n \<Longrightarrow> map_of (filter (\<lambda>(q, _). q \<noteq> n) xs) k = map_of xs k"
  by (induction xs) auto

lemma fs_get_move:
  assumes "wf_fs f" "\<not> has_children f new" "\<not> prefix old new"
  shows "fs_get (fs_move old new f) q =
    (if prefix new q then fs_get f (old @ drop (length new) q)
     else if prefix old q then None else fs_get f q)"
proof -
  let ?f = "filter (\<lambda>(q, _). q \<noteq> new) f"
  have below: "k \<in> fst ` set ?f \<Longrightarrow> \<not> prefix new k" for k
  proof
    assume "k \<in> fst ` set ?f" and p: "prefix new k"
    then have "k \<noteq> new" "k \<in> fst ` set f" by auto
    then have "k \<noteq> new" "fs_get f k \<noteq> None" by (simp_all add: map_of_eq_None_iff)
    then show False using wf_fs_below_empty [OF assms(1,2), of k] p
      by (simp add: strict_prefix_def)
  qed
  show ?thesis
  proof (cases "prefix new q")
    case True
    then obtain r where q: "q = new @ r" by (auto simp: prefix_def)
    have "fs_get (fs_move old new f) q = map_of ?f (old @ r)"
      unfolding fs_move_def
      by (rule map_of_rekey) (use below q in \<open>auto simp: move_path_def prefix_def\<close>)
    also have "\<dots> = fs_get f (old @ r)"
      using assms(3) by (intro map_of_filter_neq) (auto simp: prefix_def)
    finally show ?thesis using q by simp
  next
    case False
    show ?thesis
    proof (cases "prefix old q")
      case True
      have "fs_get (fs_move old new f) q = map_of ?f new"
        unfolding fs_move_def
        by (rule map_of_rekey) (use False True below in \<open>auto simp: move_path_def prefix_def\<close>)
      also have "map_of ?f new = None" by (force simp: map_of_eq_None_iff)
      finally show ?thesis using False True by simp
    next
      case nold: False
      have "fs_get (fs_move old new f) q = map_of ?f q"
        unfolding fs_move_def
        by (rule map_of_rekey) (use False nold in \<open>auto simp: move_path_def prefix_def\<close>)
      also have "\<dots> = fs_get f q" using False by (intro map_of_filter_neq) auto
      finally show ?thesis using False nold by simp
    qed
  qed
qed

lemma wf_fs_no_children: "wf_fs f \<Longrightarrow> \<not> is_dir f p \<Longrightarrow> \<not> has_children f p"
  unfolding has_children_iff by (metis not_Cons_self2 wf_fs_above)

text \<open>The two ways a rename succeeds.\<close>

lemma rename_inodes_cases:
  assumes "rename_inodes old new f = Inr g" "wf_fs f"
  obtains "g = f" "old = new"
  | i where "fs_get f old = Some i" "old \<noteq> []" "new \<noteq> []" "\<not> prefix old new"
      "is_dir f (butlast new)" "g = fs_move old new f" "\<not> has_children f new"
      "is_dir f new \<Longrightarrow> i_kind i = KDir"
proof (cases "old = new")
  case True
  then show ?thesis using assms(1) that(1) by (auto simp: rename_inodes_def split: option.splits)
next
  case False
  obtain i where i: "fs_get f old = Some i"
    using assms(1) by (auto simp: rename_inodes_def split: option.splits)
  have nd: "\<not> is_dir f new \<Longrightarrow> \<not> has_children f new" using assms(2) by (rule wf_fs_no_children)
  have c: "old \<noteq> []" "new \<noteq> []" "\<not> prefix old new" "is_dir f (butlast new)"
    using assms(1) False i by (auto simp: rename_inodes_def split: if_splits)
  have "g = fs_move old new f \<and> \<not> has_children f new \<and> (is_dir f new \<longrightarrow> i_kind i = KDir)"
    using assms(1) False i c nd
    by (auto simp: rename_inodes_def is_dir_def split: option.splits if_splits)
  then show ?thesis using that(2) i c by blast
qed

text \<open>Every primitive keeps the tree well-formed.\<close>

lemma not_prefix_butlast: "p \<noteq> [] \<Longrightarrow> \<not> prefix p (butlast p)"
  by (cases p rule: rev_cases) (auto dest!: prefix_length_le)

lemma butlast_neq: "p \<noteq> [] \<Longrightarrow> butlast p \<noteq> p"
  using not_prefix_butlast [of p] by auto

lemma prefix_butlastD: "prefix p (butlast q) \<Longrightarrow> prefix p q"
  using prefixeq_butlast prefix_order.trans by blast

lemma wf_fsI:
  "is_dir f [] \<Longrightarrow> (\<And>q. fs_get f q \<noteq> None \<Longrightarrow> q \<noteq> [] \<Longrightarrow> is_dir f (butlast q)) \<Longrightarrow> wf_fs f"
  by (simp add: wf_fs_iff)

lemma wf_fs_new:
  assumes "wf_fs f" "fs_get f p = None" "new_inode p i f = Inr g"
  shows "wf_fs g"
proof -
  have g: "g = fs_put p i f" "p \<noteq> []" "is_dir f (butlast p)"
    using assms(3) by (auto simp: new_inode_def split: if_splits)
  show ?thesis
  proof (rule wf_fsI)
    show "is_dir g []" using g wf_fs_root [OF assms(1)] by simp
    fix q
    assume q: "fs_get g q \<noteq> None" "q \<noteq> []"
    have d: "is_dir f (butlast q)"
    proof (cases "q = p")
      case False
      then show ?thesis using q g wf_fs_parent [OF assms(1), of q] by simp
    qed (use g in simp)
    then have "butlast q \<noteq> p" using assms(2) is_dir_get by metis
    then show "is_dir g (butlast q)" using g d by simp
  qed
qed

lemma wf_fs_change:
  assumes "wf_fs f" "fs_get f p = Some i" "i_kind i = KDir \<longleftrightarrow> i_kind j = KDir"
  shows "wf_fs (fs_put p j f)"
proof -
  have "is_dir (fs_put p j f) q = is_dir f q" for q using assms(2,3) by (auto simp: is_dir_def)
  then show ?thesis using assms(1,2) by (simp add: wf_fs_iff)
qed

lemma wf_fs_delete:
  assumes "wf_fs f" "p \<noteq> []" "\<not> has_children f p"
  shows "wf_fs (fs_del p f)"
proof (rule wf_fsI)
  show "is_dir (fs_del p f) []" using wf_fs_root [OF assms(1)] assms(2) by simp
  fix q
  assume q: "fs_get (fs_del p f) q \<noteq> None" "q \<noteq> []"
  then have q': "fs_get f q \<noteq> None" by (simp split: if_splits)
  then have "butlast q \<noteq> p"
    using assms(3) q(2) by (metis append_butlast_last_id has_children_iff)
  then show "is_dir (fs_del p f) (butlast q)" using wf_fs_parent [OF assms(1) q' q(2)] by simp
qed

lemma fs_get_remove_trees:
  "fs_get (fold fs_remove_tree ps f) q = (if \<exists>p \<in> set ps. prefix p q then None else fs_get f q)"
  by (induction ps arbitrary: f) auto

lemma fs_get_removed_part: "\<not> strict_prefix p q \<Longrightarrow> fs_get (removed_part p k f) q = fs_get f q"
  by (auto simp: removed_part_def fs_get_remove_trees dest!: in_set_takeD)

lemma is_dir_removed_part: "\<not> strict_prefix p q \<Longrightarrow> is_dir (removed_part p k f) q = is_dir f q"
  by (simp add: is_dir_def fs_get_removed_part)

lemma wf_fs_remove_tree:
  assumes "wf_fs f" "p \<noteq> []"
  shows "wf_fs (fs_remove_tree p f)"
proof (rule wf_fsI)
  show "is_dir (fs_remove_tree p f) []" using wf_fs_root [OF assms(1)] assms(2) by simp
  fix q
  assume q: "fs_get (fs_remove_tree p f) q \<noteq> None" "q \<noteq> []"
  then have "fs_get f q \<noteq> None" "\<not> prefix p (butlast q)"
    by (auto split: if_splits dest: prefix_butlastD)
  then show "is_dir (fs_remove_tree p f) (butlast q)"
    using wf_fs_parent [OF assms(1) _ q(2)] by simp
qed

lemma wf_fs_rename:
  assumes "wf_fs f" "rename_inodes old new f = Inr g"
  shows "wf_fs g"
  using assms(2,1)
proof (cases rule: rename_inodes_cases)
  case (2 i)
  have get: "fs_get g q = (if prefix new q then fs_get f (old @ drop (length new) q)
      else if prefix old q then None else fs_get f q)" for q
    unfolding 2 by (rule fs_get_move [OF assms(1)]) (use 2 in simp_all)
  have dir: "is_dir g q = (if prefix new q then is_dir f (old @ drop (length new) q)
      else \<not> prefix old q \<and> is_dir f q)" for q
    by (simp add: is_dir_def get)
  have par: "is_dir g (butlast q)" if q: "fs_get g q \<noteq> None" "q \<noteq> []" for q
  proof (cases "prefix new q")
    case True
    then obtain r where r: "q = new @ r" by (auto simp: prefix_def)
    show ?thesis
    proof (cases "r = []")
      case True
      have "\<not> prefix new (butlast new)" using 2(3) by (rule not_prefix_butlast)
      moreover have "\<not> prefix old (butlast new)" using 2(4) prefix_butlastD by blast
      ultimately show ?thesis using r True 2(5) by (simp add: dir)
    next
      case False
      then have "is_dir f (old @ butlast r)"
        using wf_fs_parent [OF assms(1), of "old @ r"] q(1) r by (simp add: get butlast_append)
      then show ?thesis using r False by (simp add: dir butlast_append)
    qed
  next
    case False
    then have n: "fs_get f q \<noteq> None" "\<not> prefix old q" using q by (auto simp: get split: if_splits)
    have "\<not> prefix new (butlast q)" "\<not> prefix old (butlast q)"
      using False n(2) prefix_butlastD by blast+
    then show ?thesis using wf_fs_parent [OF assms(1) n(1) q(2)] by (simp add: dir)
  qed
  have "is_dir g []" using wf_fs_root [OF assms(1)] 2(2,3) by (simp add: dir)
  then show ?thesis using par by (simp add: wf_fs_iff)
qed (use assms(1) in simp)

subsection \<open>A new root\<close>

lemma fs_get_subtree: "fs_get (fs_subtree p f) q = fs_get f (p @ q)"
proof -
  let ?f = "filter (\<lambda>(q, _). prefix p q) f"
  have "map_of (map (\<lambda>(q, i). (drop (length p) q, i)) ?f) q = map_of ?f (p @ q)"
    by (rule map_of_rekey) (auto simp: prefix_def)
  also have "\<dots> = fs_get f (p @ q)" by (induction f) auto
  finally show ?thesis by (simp add: fs_subtree_def)
qed

lemma is_dir_subtree: "is_dir (fs_subtree p f) q = is_dir f (p @ q)"
  by (simp add: is_dir_def fs_get_subtree)

lemma fs_get_filter:
  "fs_get (filter (\<lambda>(q, _). P q) f) q = (if P q then fs_get f q else None)"
  by (induction f) auto

lemma fs_get_graft:
  "fs_get (map (\<lambda>(q, i). (old @ q, i)) f) q = (if prefix old q then fs_get f (drop (length old) q) else None)"
proof (cases "prefix old q")
  case True
  then have "map_of (map (\<lambda>(q, i). (old @ q, i)) f) q = map_of f (drop (length old) q)"
    by (intro map_of_rekey) (auto simp: prefix_def)
  then show ?thesis using True by simp
next
  case False
  then show ?thesis by (force simp: map_of_eq_None_iff)
qed

lemma fs_get_pivot:
  "fs_get (fs_pivot p old f) q =
     (if prefix old q then (if prefix p (drop (length old) q) then None else fs_get f (drop (length old) q))
      else fs_get f (p @ q))"
proof -
  have s: "fs_get (filter (\<lambda>(q, _). \<not> prefix old q) (fs_subtree p f)) q =
      (if \<not> prefix old q then fs_get f (p @ q) else None)"
    by (simp add: fs_get_filter fs_get_subtree)
  have g: "fs_get (map (\<lambda>(q, i). (old @ q, i)) (filter (\<lambda>(q, _). \<not> prefix p q) f)) q =
      (if prefix old q then (if \<not> prefix p (drop (length old) q) then fs_get f (drop (length old) q) else None) else None)"
    by (simp only: fs_get_graft fs_get_filter)
  show ?thesis unfolding fs_pivot_def map_of_append map_add_def g s by (auto split: option.split)
qed

lemma wf_fs_subtree:
  assumes "wf_fs f" "is_dir f p"
  shows "wf_fs (fs_subtree p f)"
proof (rule wf_fsI)
  show "is_dir (fs_subtree p f) []" using assms(2) by (simp add: is_dir_subtree)
  fix q
  assume q: "fs_get (fs_subtree p f) q \<noteq> None" "q \<noteq> []"
  then show "is_dir (fs_subtree p f) (butlast q)"
    using wf_fs_parent [OF assms(1), of "p @ q"] by (simp add: fs_get_subtree is_dir_subtree butlast_append)
qed

lemma wf_fs_pivot:
  assumes wf: "wf_fs f" and p: "p \<noteq> []" and old: "old \<noteq> []" "is_dir f (p @ old)"
  shows "wf_fs (fs_pivot p old f)"
proof (rule wf_fsI)
  let ?g = "fs_pivot p old f"
  have dir: "is_dir ?g q = (if prefix old q then \<not> prefix p (drop (length old) q) \<and> is_dir f (drop (length old) q)
      else is_dir f (p @ q))" for q
    by (simp add: is_dir_def fs_get_pivot)
  have no: "\<not> prefix old (butlast old)" using old(1) by (rule not_prefix_butlast)
  show "is_dir ?g []" using wf_fs_above [OF wf is_dir_get [OF old(2)] old(1)] old(1) by (simp add: dir)
  fix q
  assume q: "fs_get ?g q \<noteq> None" "q \<noteq> []"
  show "is_dir ?g (butlast q)"
  proof (cases "prefix old q")
    case True
    then obtain r where r: "q = old @ r" by (auto simp: prefix_def)
    have n: "\<not> prefix p r" "fs_get f r \<noteq> None" using q(1) r by (auto simp: fs_get_pivot split: if_splits)
    show ?thesis
    proof (cases "r = []")
      case True
      have "is_dir f (p @ butlast old)"
        using wf_fs_parent [OF wf is_dir_get [OF old(2)]] old(1) by (simp add: butlast_append)
      then show ?thesis using r True no by (simp add: dir)
    next
      case False
      have "\<not> prefix p (butlast r)" using n(1) prefix_butlastD by blast
      then show ?thesis using r False wf_fs_parent [OF wf n(2) False] by (simp add: dir butlast_append)
    qed
  next
    case False
    then have "\<not> prefix old (butlast q)" using prefix_butlastD by blast
    then show ?thesis
      using False q wf_fs_parent [OF wf, of "p @ q"] by (simp add: dir fs_get_pivot butlast_append)
  qed
qed

section \<open>Path resolution\<close>

lemma namei_None:
  "plain c \<Longrightarrow> fs_get f (cur @ [c]) = None \<Longrightarrow>
   namei n f follow cur (c # cs) = (if cs = [] then Inr (cur @ [c]) else Inl ENOENT)"
  by (simp add: plain_def)

text \<open>New files that are no links change no resolution that succeeded.\<close>

definition extends_fs :: "fs \<Rightarrow> fs \<Rightarrow> bool" where
  "extends_fs f g = (\<forall>q. fs_get g q = fs_get f q \<or>
     (fs_get f q = None \<and> (\<exists>i. fs_get g q = Some i \<and> (\<forall>t. i_kind i \<noteq> KLink t))))"

lemma namei_extend:
  "namei n f follow cur cs = Inr p \<Longrightarrow> extends_fs f g \<Longrightarrow> namei n g follow cur cs = Inr p"
proof (induction n f follow cur cs rule: namei.induct)
  case (2 n f follow cur c cs)
  show ?case
  proof (cases "c = ''.'' \<or> c = ''..''")
    case True
    then show ?thesis using "2.prems" "2.IH"(1,2) by auto
  next
    case False
    have e: "fs_get g (cur @ [c]) = fs_get f (cur @ [c]) \<or>
     (fs_get f (cur @ [c]) = None \<and> (\<exists>i. fs_get g (cur @ [c]) = Some i \<and> (\<forall>t. i_kind i \<noteq> KLink t)))"
      using "2.prems"(2) by (simp add: extends_fs_def)
    show ?thesis
    proof (cases "fs_get f (cur @ [c])")
      case None
      then have "cs = []" "p = cur @ [c]" using "2.prems"(1) False by (auto split: if_splits)
      then show ?thesis using e None False by (auto split: kind.split)
    next
      case (Some i)
      have g: "fs_get g (cur @ [c]) = Some i" using e Some by auto
      show ?thesis
      proof (cases "i_kind i")
        case (KLink t)
        show ?thesis
        proof (cases "cs = [] \<and> \<not> follow")
          case True
          then show ?thesis using "2.prems" Some False g KLink by simp
        next
          case more: False
          then obtain m where m: "n = Suc m"
            using "2.prems"(1) Some False KLink by (cases n) (auto split: if_splits)
          have "namei n h follow cur (c # cs) =
              namei m h follow (if is_rooted t then [] else cur)
                (filter (\<lambda>e. e \<noteq> []) (Split t slash) @ cs)"
            if "fs_get h (cur @ [c]) = Some i" for h
            using that False KLink more m by auto
          then show ?thesis
            using "2.IH"(4) [OF _ _ Some KLink more m] "2.prems" False g Some by simp
        qed
      next
        case KDir
        then show ?thesis using "2.prems" "2.IH"(3) Some False g by auto
      qed (use "2.prems" Some False g in auto)
    qed
  qed
qed simp

text \<open>A walk through real directories ends where it is written to end.\<close>

lemma namei_dirs:
  assumes "\<forall>c \<in> set cs. plain c"
    and "\<And>k. k < length cs \<Longrightarrow> is_dir f (cur @ take (Suc k) cs) \<or> Suc k = length cs"
    and "follow \<Longrightarrow> cs \<noteq> [] \<Longrightarrow> (\<forall>i t. fs_get f (cur @ cs) = Some i \<longrightarrow> i_kind i \<noteq> KLink t)"
  shows "namei n f follow cur cs = Inr (cur @ cs)"
  using assms
proof (induction cs arbitrary: cur)
  case (Cons c cs)
  have c: "c \<noteq> ''.''" "c \<noteq> ''..''" using Cons.prems(1) by (auto simp: plain_def)
  show ?case
  proof (cases "cs = []")
    case True
    then show ?thesis
      using c Cons.prems(3) by (auto split: option.splits kind.splits)
  next
    case False
    then have "is_dir f (cur @ [c])" using Cons.prems(2) [of 0] by simp
    then obtain i where i: "fs_get f (cur @ [c]) = Some i" "i_kind i = KDir"
      by (auto simp: is_dir_def split: option.splits)
    have "namei n f follow (cur @ [c]) cs = Inr ((cur @ [c]) @ cs)"
    proof (rule Cons.IH)
      show "k < length cs \<Longrightarrow> is_dir f ((cur @ [c]) @ take (Suc k) cs) \<or> Suc k = length cs" for k
        using Cons.prems(2) [of "Suc k"] by simp
    qed (use Cons.prems in auto)
    then show ?thesis using c i by simp
  qed
qed simp

end
