(* ===== verification/Kernel.thy ===== *)
theory Kernel
  imports GoOS_Laws
begin

text \<open>
  The kernel as a step relation, the operations of \<open>GoOS\<close> as programs made of kernel steps, and the
  contract \<open>kernel_invariant\<close>: what every kernel step keeps, every program keeps.
\<close>

section \<open>Kernel steps\<close>

text \<open>
  The elementary changes of the world. Every operation of the model is a sequence of them, so that
  a property each of them keeps is kept by every program.
\<close>

inductive kstep :: "world \<Rightarrow> world \<Rightarrow> bool" where
  k_tick: "kstep w (tick w)"
| k_new: "fs_get (w_fs w) p = None \<Longrightarrow> new_inode p i (w_fs w) = Inr f \<Longrightarrow> kstep w (w\<lparr>w_fs := f\<rparr>)"
| k_change: "fs_get (w_fs w) p = Some i \<Longrightarrow> (i_kind i = KDir \<longleftrightarrow> i_kind j = KDir) \<Longrightarrow>
     kstep w (w\<lparr>w_fs := fs_put p j (w_fs w)\<rparr>)"
| k_delete: "p \<noteq> [] \<Longrightarrow> \<not> has_children (w_fs w) p \<Longrightarrow> kstep w (w\<lparr>w_fs := fs_del p (w_fs w)\<rparr>)"
| k_remove_tree: "p \<noteq> [] \<Longrightarrow> kstep w (w\<lparr>w_fs := fs_remove_tree p (w_fs w)\<rparr>)"
| k_rename: "rename_inodes p q (w_fs w) = Inr f \<Longrightarrow> kstep w (w\<lparr>w_fs := f\<rparr>)"
| k_exec: "w_exec w c (w_fs w) = (r, f) \<Longrightarrow> kstep w (w\<lparr>w_fs := f\<rparr>)"
| k_mount: "w_mountfx w m (w_fs w) = (None, f) \<Longrightarrow>
     kstep w (w\<lparr>w_fs := f\<rparr>)"
| k_emit: "kstep w (w\<lparr>w_trace := w_trace w @ [ev]\<rparr>)"
| k_random: "kstep w (w\<lparr>w_randno := n\<rparr>)"
| k_http: "kstep w (w\<lparr>w_httpno := n\<rparr>)"
| k_cwd: "kstep w (w\<lparr>w_cwd := d\<rparr>)"
| k_env: "kstep w (w\<lparr>w_env := e\<rparr>)"
| k_hostname: "kstep w (w\<lparr>w_hostname := h\<rparr>)"
| k_stdin: "kstep w (w\<lparr>w_stdin := ls\<rparr>)"
| k_chroot: "is_dir (w_fs w) p \<Longrightarrow> kstep w (w\<lparr>w_fs := fs_subtree p (w_fs w)\<rparr>)"
| k_pivot: "p \<noteq> [] \<Longrightarrow> old \<noteq> [] \<Longrightarrow> is_dir (w_fs w) (p @ old) \<Longrightarrow>
     kstep w (w\<lparr>w_fs := fs_pivot p old (w_fs w)\<rparr>)"

abbreviation ksteps :: "world \<Rightarrow> world \<Rightarrow> bool" where "ksteps \<equiv> kstep\<^sup>*\<^sup>*"

definition program :: "(world, 'a) state \<Rightarrow> bool" where
  "program m = keeps ksteps m"

named_theorems program_intros \<open>the program consists of kernel steps\<close>

lemma program_return [program_intros]: "program (State_Monad.return a)"
  by (simp add: program_def keeps_def)

lemma program_bind [program_intros]: "program m \<Longrightarrow> (\<And>a. program (f a)) \<Longrightarrow> program (State_Monad.bind m f)"
  unfolding program_def by (rule keeps_bind) (auto simp: transp_def)

lemma program_onok [program_intros]: "(\<And>x. program (f x)) \<Longrightarrow> program (onok r f)"
  by (cases r) (simp_all add: program_return)

lemma program_deferred [program_intros]: "program d \<Longrightarrow> program m \<Longrightarrow> program (deferred d m)"
  unfolding deferred_def by (intro program_bind program_return)

lemma program_if [program_intros]: "program m \<Longrightarrow> program n \<Longrightarrow> program (if b then m else n)"
  by simp

lemma program_sum [program_intros]:
  "(\<And>a. program (f a)) \<Longrightarrow> (\<And>b. program (g b)) \<Longrightarrow> program (case x of Inl a \<Rightarrow> f a | Inr b \<Rightarrow> g b)"
  by (simp split: sum.split)

lemma program_option [program_intros]:
  "program f \<Longrightarrow> (\<And>b. program (g b)) \<Longrightarrow> program (case x of None \<Rightarrow> f | Some b \<Rightarrow> g b)"
  by (simp split: option.split)

lemma program_prod [program_intros]:
  "(\<And>a b. program (f a b)) \<Longrightarrow> program (case x of (a, b) \<Rightarrow> f a b)"
  by (simp split: prod.split)

lemma program_list [program_intros]:
  "program f \<Longrightarrow> (\<And>a b. program (g a b)) \<Longrightarrow> program (case x of [] \<Rightarrow> f | a # b \<Rightarrow> g a b)"
  by (simp split: list.split)

lemma program_let [program_intros]: "(\<And>x. program (f x)) \<Longrightarrow> program (let x = e in f x)"
  by simp

lemma programI: "(\<And>w a w'. run_state m w = (a, w') \<Longrightarrow> ksteps w w') \<Longrightarrow> program m"
  unfolding program_def keeps_def by (metis prod.collapse)

lemma program_State: "(\<And>w. ksteps w (snd (f w))) \<Longrightarrow> program (State f)"
  by (simp add: program_def keeps_def)

section \<open>System calls are programs\<close>

lemma ksteps_tick: "ksteps w v \<Longrightarrow> ksteps w (tick v)"
  by (erule rtranclp.rtrancl_into_rtrancl, rule k_tick)

lemma tick_fs: "(tick w)\<lparr>w_fs := f\<rparr> = tick (w\<lparr>w_fs := f\<rparr>)"
  by (simp add: tick_def)

lemma program_fs_call_part:
  assumes "\<And>k w. ksteps w (w\<lparr>w_fs := part k w\<rparr>)"
    and "\<And>w a f. op w = Inr (a, f) \<Longrightarrow> ksteps w (w\<lparr>w_fs := f\<rparr>)"
  shows "program (fs_call_part part op)"
  unfolding fs_call_part_def
proof (rule program_State)
  fix w :: world
  show "ksteps w (snd (case w_fault w (w_sysno w) of
       Some (e, k) \<Rightarrow> (Inl (Errno e), (tick w)\<lparr>w_fs := part k w\<rparr>)
     | None \<Rightarrow> (case op w of Inl e \<Rightarrow> (Inl (Errno e), tick w)
                | Inr (a, f) \<Rightarrow> (Inr a, (tick w)\<lparr>w_fs := f\<rparr>))))"
    using assms(2) [of w]
    by (auto split: option.split sum.split simp: tick_fs intro!: ksteps_tick assms(1))
qed

lemma program_fs_call:
  "(\<And>w a f. op w = Inr (a, f) \<Longrightarrow> f = w_fs w \<or> kstep w (w\<lparr>w_fs := f\<rparr>)) \<Longrightarrow> program (fs_call op)"
  unfolding fs_call_def
proof (rule program_fs_call_part)
  fix w a f
  assume "op w = Inr (a, f)" and "\<And>w a f. op w = Inr (a, f) \<Longrightarrow> f = w_fs w \<or> kstep w (w\<lparr>w_fs := f\<rparr>)"
  then have "f = w_fs w \<or> kstep w (w\<lparr>w_fs := f\<rparr>)" by blast
  then show "ksteps w (w\<lparr>w_fs := f\<rparr>)" by (elim disjE) (simp_all add: r_into_rtranclp)
qed simp

lemmas path_cases = with_inode_def with_path_def

lemma program_os_Stat [program_intros]: "program (os_Stat s)"
  unfolding os_Stat_def by (rule program_fs_call) (auto simp: path_cases split: sum.splits option.splits)

lemma program_os_Lstat [program_intros]: "program (os_Lstat s)"
  unfolding os_Lstat_def by (rule program_fs_call) (auto simp: path_cases split: sum.splits option.splits)

lemma program_os_Readlink [program_intros]: "program (os_Readlink s)"
  unfolding os_Readlink_def
  by (rule program_fs_call) (auto simp: path_cases split: sum.splits option.splits kind.splits)

lemma program_os_ReadFile [program_intros]: "program (os_ReadFile s)"
  unfolding os_ReadFile_def
  by (rule program_fs_call) (auto simp: path_cases split: sum.splits option.splits kind.splits)

lemma program_os_ReadDir [program_intros]: "program (os_ReadDir s)"
  unfolding os_ReadDir_def
  by (rule program_fs_call) (auto simp: path_cases split: sum.splits option.splits if_splits)

lemma program_os_ReadDirInfo [program_intros]: "program (os_ReadDirInfo s)"
  unfolding os_ReadDirInfo_def
  by (rule program_fs_call) (auto simp: path_cases split: sum.splits option.splits if_splits)

lemma program_os_Open [program_intros]: "program (os_Open s)"
  unfolding os_Open_def by (rule program_fs_call) (auto simp: path_cases split: sum.splits option.splits)

lemma program_fd_ReadAll [program_intros]: "program (fd_ReadAll p)"
  unfolding fd_ReadAll_def
  by (rule program_State) (auto split: option.split kind.split intro!: ksteps_tick)

lemma program_os_OpenTrunc [program_intros]: "program (os_OpenTrunc s perm)"
  unfolding os_OpenTrunc_def
  by (rule program_fs_call)
    (auto simp: path_cases split: sum.splits option.splits kind.splits
      intro: k_new, auto intro!: k_change)

lemma ksteps_append: "ksteps w (w\<lparr>w_fs := append_file p data (w_fs w)\<rparr>)"
  by (auto simp: append_file_def split: option.split kind.split intro!: r_into_rtranclp k_change)

lemma program_fd_Write [program_intros]: "program (fd_Write p data)"
  unfolding fd_Write_def by (rule program_fs_call_part) (auto intro: ksteps_append)

lemma program_fd_Close [program_intros]: "program (fd_Close p)"
  unfolding fd_Close_def by (rule program_fs_call) auto

lemma program_os_WriteFile [program_intros]: "program (os_WriteFile s data perm)"
  unfolding os_WriteFile_def by (intro program_intros)

lemma program_os_Create [program_intros]: "program (os_Create s)"
  unfolding os_Create_def by (intro program_intros)

lemma program_os_OpenExcl [program_intros]: "program (os_OpenExcl s)"
  unfolding os_OpenExcl_def
  by (rule program_fs_call) (auto simp: path_cases split: sum.splits option.splits intro: k_new)

lemma program_os_Mkdir [program_intros]: "program (os_Mkdir s perm)"
  unfolding os_Mkdir_def
  by (rule program_fs_call) (auto simp: path_cases split: sum.splits option.splits intro: k_new)

lemma program_os_Symlink [program_intros]: "program (os_Symlink t s)"
  unfolding os_Symlink_def
  by (rule program_fs_call) (auto simp: path_cases split: sum.splits option.splits intro: k_new)

lemma program_os_Mknod [program_intros]: "program (os_Mknod s perm dev)"
  unfolding os_Mknod_def
  by (rule program_fs_call) (auto simp: path_cases split: sum.splits option.splits intro: k_new)

lemma program_os_Chmod [program_intros]: "program (os_Chmod s m)"
  unfolding os_Chmod_def
  by (rule program_fs_call)
    (auto simp: path_cases split: sum.splits option.splits intro!: k_change)

lemma program_os_Chown [program_intros]: "program (os_Chown s u g)"
  unfolding os_Chown_def
  by (rule program_fs_call)
    (auto simp: path_cases split: sum.splits option.splits intro!: k_change)

lemma program_os_Remove [program_intros]: "program (os_Remove s)"
  unfolding os_Remove_def
  by (rule program_fs_call)
    (auto simp: path_cases split: sum.splits option.splits if_splits intro: k_delete)

lemma program_os_RemoveAll [program_intros]: "program (os_RemoveAll s)"
  unfolding os_RemoveAll_def
proof (rule program_fs_call_part)
  fix k and w :: world
  have t: "ksteps w (w\<lparr>w_fs := fold fs_remove_tree ps (w_fs w)\<rparr>)" if "[] \<notin> set ps" for ps w
    using that
  proof (induction ps arbitrary: w)
    case (Cons p ps)
    have "kstep w (w\<lparr>w_fs := fs_remove_tree p (w_fs w)\<rparr>)" using Cons.prems by (intro k_remove_tree) auto
    moreover have "ksteps (w\<lparr>w_fs := fs_remove_tree p (w_fs w)\<rparr>) (w\<lparr>w_fs := fold fs_remove_tree (p # ps) (w_fs w)\<rparr>)"
      using Cons.IH [of "w\<lparr>w_fs := fs_remove_tree p (w_fs w)\<rparr>"] Cons.prems by simp
    ultimately show ?case by (rule converse_rtranclp_into_rtranclp)
  qed simp
  show "ksteps w (w\<lparr>w_fs := case resolve w False s of Inl e \<Rightarrow> w_fs w
      | Inr p \<Rightarrow> if p = [] then w_fs w else removed_part p k (w_fs w)\<rparr>)"
    unfolding removed_part_def by (auto split: sum.split intro!: t dest!: in_set_takeD)
qed (auto simp: path_cases split: sum.splits if_splits intro: k_remove_tree)

lemma program_os_Rename [program_intros]: "program (os_Rename s t)"
  unfolding os_Rename_def
  by (rule program_fs_call) (auto simp: path_cases split: sum.splits if_splits intro: k_rename)

lemma ksteps_cwd: "ksteps w v \<Longrightarrow> ksteps w (v\<lparr>w_cwd := d\<rparr>)"
  by (erule rtranclp.rtrancl_into_rtrancl, rule k_cwd)

lemma program_os_Chdir [program_intros]: "program (os_Chdir s)"
  unfolding os_Chdir_def
  by (rule program_State)
    (auto split: option.split sum.split intro: ksteps_tick intro!: ksteps_cwd)

lemma ksteps_emit: "ksteps w v \<Longrightarrow> ksteps w (v\<lparr>w_trace := w_trace v @ [ev]\<rparr>)"
  by (erule rtranclp.rtrancl_into_rtrancl, rule k_emit)

lemma kstep_root:
  assumes "kstep w (w\<lparr>w_fs := f\<rparr>)"
  shows "ksteps w ((tick w)\<lparr>w_fs := f, w_cwd := d, w_trace := w_trace w @ [ev]\<rparr>)"
proof -
  have "ksteps w (w\<lparr>w_fs := f\<rparr>)" using assms by simp
  from ksteps_emit [OF ksteps_cwd [OF ksteps_tick [OF this]], of d ev] show ?thesis
    by (cases w) (simp add: tick_def)
qed

lemma program_sys_Chroot [program_intros]: "program (sys_Chroot s)"
  unfolding sys_Chroot_def
  by (rule program_State)
    (auto simp: path_cases is_dir_def split: option.split sum.split if_splits
      intro!: ksteps_tick kstep_root k_chroot)

lemma program_sys_PivotRoot [program_intros]: "program (sys_PivotRoot s t)"
  unfolding sys_PivotRoot_def
proof (rule program_State)
  fix w :: world
  have "kstep w (w\<lparr>w_fs := fs_pivot p (drop (length p) q) (w_fs w)\<rparr>)"
    if "p \<noteq> []" "strict_prefix p q" "is_dir (w_fs w) q" for p q
    by (rule k_pivot) (use that in \<open>auto simp: strict_prefix_def prefix_def\<close>)
  then show "ksteps w (snd (case w_fault w (w_sysno w) of
       Some (e, _) \<Rightarrow> (Inl (Errno e), tick w)
     | None \<Rightarrow>
        (case with_inode w True s (\<lambda>p i. if i_kind i \<noteq> KDir then Inl ENOTDIR else
                with_inode w True t (\<lambda>q j. if i_kind j \<noteq> KDir then Inl ENOTDIR
                  else if p = [] \<or> \<not> strict_prefix p q then Inl EINVAL else Inr (p, q))) of
           Inl e \<Rightarrow> (Inl (Errno e), tick w)
         | Inr (p, q) \<Rightarrow>
            (Inr (), (tick w)\<lparr>w_fs := fs_pivot p (drop (length p) q) (w_fs w), w_cwd := under_root p (w_cwd w),
                               w_trace := w_trace w @ [EvPivot s t]\<rparr>))))"
    by (auto simp: path_cases is_dir_def split: option.split sum.split if_splits
      intro!: ksteps_tick kstep_root)
qed

lemma program_mkdir_or_dir [program_intros]: "program (mkdir_or_dir p perm)"
  unfolding mkdir_or_dir_def by (intro program_intros)

lemma program_mkdir_chain [program_intros]: "program (mkdir_chain perm ps)"
  by (induction ps) (auto intro!: program_intros)

lemma program_os_MkdirAll [program_intros]: "program (os_MkdirAll s perm)"
  unfolding os_MkdirAll_def by (intro program_intros)

lemma program_next_random [program_intros]: "program next_random"
  unfolding next_random_def by (rule program_State) (auto intro!: r_into_rtranclp k_random)

lemma program_temp_loop [program_intros]: "(\<And>s. program (mk s)) \<Longrightarrow> program (temp_loop mk dir ps n)"
  by (induction n) (auto intro!: program_intros)

lemma program_TempFile [program_intros]: "program (TempFile dir pre)"
  unfolding TempFile_def by (intro program_intros)

lemma program_TempDir [program_intros]: "program (TempDir dir pre)"
  unfolding TempDir_def by (intro program_intros)

lemma program_emit [program_intros]: "program (emit ev)"
  unfolding emit_def by (rule program_State) (auto intro!: r_into_rtranclp k_emit)

text \<open>\<^verbatim>\<open>logrus.Fatal\<close>: the process logs and exits; deferred calls do not run.\<close>

definition fatal :: "goerror \<Rightarrow> (world, unit) state" where
  "fatal e = do { _ \<leftarrow> emit (EvLog e); emit (EvExit 1) }"

definition or_fatal :: "goerror + 'a \<Rightarrow> ('a \<Rightarrow> (world, unit) state) \<Rightarrow> (world, unit) state" where
  "or_fatal r k = (case r of Inl e \<Rightarrow> fatal e | Inr x \<Rightarrow> k x)"

lemma program_fatal [program_intros]: "program (fatal e)"
  unfolding fatal_def by (intro program_intros)

lemma program_or_fatal [program_intros]: "(\<And>x. program (k x)) \<Longrightarrow> program (or_fatal r k)"
  unfolding or_fatal_def by (intro program_intros)

lemma program_cmd_Run [program_intros]: "program (cmd_Run c)"
  unfolding cmd_Run_def
proof (rule program_State)
  fix w :: world
  obtain r f where "w_exec w c (w_fs w) = (r, f)" by fastforce
  then show "ksteps w (snd (case w_exec w c (w_fs w) of (r, f) \<Rightarrow>
      (case r of None \<Rightarrow> Inr () | Some e \<Rightarrow> Inl e,
       w\<lparr>w_fs := f, w_trace := w_trace w @ [EvRun c]\<rparr>)))"
    using ksteps_emit [OF r_into_rtranclp, OF k_exec [of w c r f], of "EvRun c"] by simp
qed

lemma program_http_Get [program_intros]: "program (http_Get url)"
  unfolding http_Get_def
proof (rule program_State)
  fix w :: world
  show "ksteps w (snd (w_http w (w_httpno w) url,
      w\<lparr>w_httpno := Suc (w_httpno w), w_trace := w_trace w @ [EvGet url]\<rparr>))"
    using ksteps_emit [OF r_into_rtranclp, OF k_http [of w "Suc (w_httpno w)"], of "EvGet url"]
    by simp
qed

lemma program_sys_mount [program_intros]: "program (sys_mount m)"
  unfolding sys_mount_def
proof (rule program_State)
  fix w :: world
  show "ksteps w (snd (case w_mountfx w m (w_fs w) of
       (Some e, f) \<Rightarrow> (Inl (Errno e), w\<lparr>w_trace := w_trace w @ [EvMount m]\<rparr>)
     | (None, f) \<Rightarrow> (Inr (), w\<lparr>w_fs := f, w_trace := w_trace w @ [EvMount m]\<rparr>)))"
  proof (cases "w_mountfx w m (w_fs w)")
    case (Pair r f)
    show ?thesis
    proof (cases r)
      case None
      with Pair have "ksteps w (w\<lparr>w_fs := f\<rparr>)"
        by (simp add: r_into_rtranclp k_mount)
      then show ?thesis using ksteps_emit [of w _ "EvMount m"] Pair None by fastforce
    next
      case (Some e)
      then show ?thesis using ksteps_emit [of w w "EvMount m"] Pair by simp
    qed
  qed
qed

lemma program_modprobe_Load [program_intros]: "program (modprobe_Load m params)"
  unfolding modprobe_Load_def
  by (rule program_State) (auto intro!: ksteps_emit)

lemma program_Getuid [program_intros]: "program Getuid"
  unfolding Getuid_def by (rule program_State) simp

lemma ksteps_emit_tick: "ksteps w ((tick w)\<lparr>w_trace := w_trace w @ [ev]\<rparr>)"
  using ksteps_emit [OF ksteps_tick [OF rtranclp.rtrancl_refl], of w ev] by (simp add: tick_def)

lemma program_sys_Exec [program_intros]: "program (sys_Exec path args env)"
  unfolding sys_Exec_def
  by (rule program_State)
    (auto split: option.split sum.split intro: ksteps_tick intro!: ksteps_emit_tick)

lemma program_sys_Setrlimit [program_intros]: "program (sys_Setrlimit r c m)"
  unfolding sys_Setrlimit_def
  by (rule program_State) (auto split: option.split intro: ksteps_tick intro!: ksteps_emit_tick)

lemma program_Getenv [program_intros]: "program (Getenv k)"
  unfolding Getenv_def by (rule program_State) simp

lemma program_Environ [program_intros]: "program Environ"
  unfolding Environ_def by (rule program_State) simp

lemma program_Setenv [program_intros]: "program (Setenv k v)"
  unfolding Setenv_def by (rule program_State) (auto intro!: r_into_rtranclp k_env)

lemma program_Unsetenv [program_intros]: "program (Unsetenv k)"
  unfolding Unsetenv_def by (rule program_State) (auto intro!: r_into_rtranclp k_env)

lemma program_sys_Sethostname [program_intros]: "program (sys_Sethostname h)"
  unfolding sys_Sethostname_def
proof (rule program_State)
  fix w :: world
  have "ksteps w (tick (w\<lparr>w_hostname := h, w_trace := w_trace w @ [EvHostname h]\<rparr>))"
    using ksteps_tick [OF ksteps_emit [OF r_into_rtranclp, OF k_hostname [of w h], of "EvHostname h"]]
    by simp
  moreover have "(tick w)\<lparr>w_hostname := h, w_trace := w_trace w @ [EvHostname h]\<rparr>
      = tick (w\<lparr>w_hostname := h, w_trace := w_trace w @ [EvHostname h]\<rparr>)"
    by (simp add: tick_def)
  ultimately show "ksteps w (snd (case w_fault w (w_sysno w) of
       Some (e, _) \<Rightarrow> (Inl (Errno e), tick w)
     | None \<Rightarrow> (Inr (), (tick w)\<lparr>w_hostname := h, w_trace := w_trace w @ [EvHostname h]\<rparr>)))"
    by (auto split: option.split intro: ksteps_tick)
qed

lemma program_os_Hostname [program_intros]: "program os_Hostname"
  unfolding os_Hostname_def
  by (rule program_State) (auto split: option.split intro: ksteps_tick)

section \<open>The contract\<close>

text \<open>What every kernel step keeps, every program keeps.\<close>

locale kernel_invariant =
  fixes I :: "world \<Rightarrow> bool"
  assumes step: "kstep w w' \<Longrightarrow> I w \<Longrightarrow> I w'"
begin

lemma steps: "ksteps w w' \<Longrightarrow> I w \<Longrightarrow> I w'"
  by (induction rule: rtranclp_induct) (auto intro: step)

lemma run_keeps: "program m \<Longrightarrow> run_state m w = (a, w') \<Longrightarrow> I w \<Longrightarrow> I w'"
  unfolding program_def by (blast intro: steps dest: keeps_run)

lemma snd_run_keeps: "program m \<Longrightarrow> I w \<Longrightarrow> I (snd (run_state m w))"
  unfolding program_def by (blast intro: steps dest: keepsD)

lemma wp_keeps: "program m \<Longrightarrow> I w \<Longrightarrow> wp m Q w \<Longrightarrow> wp m (\<lambda>a w'. Q a w' \<and> I w') w"
  by (auto simp: wp_def split: prod.splits intro: run_keeps)

end

text \<open>The programs outside (commands that are run, the mount call) leave a tree.\<close>

definition sane_outside :: "world \<Rightarrow> bool" where
  "sane_outside w = ((\<forall>c f. wf_fs f \<longrightarrow> wf_fs (snd (w_exec w c f)))
     \<and> (\<forall>m f. wf_fs f \<longrightarrow> wf_fs (snd (w_mountfx w m f))))"

definition wf_world :: "world \<Rightarrow> bool" where
  "wf_world w = (wf_fs (w_fs w) \<and> sane_outside w)"

lemma kstep_wf_fs: "kstep w w' \<Longrightarrow> wf_fs (w_fs w) \<Longrightarrow> sane_outside w \<Longrightarrow> wf_fs (w_fs w')"
proof (induction rule: kstep.induct)
  case (k_new w p i f)
  then show ?case using wf_fs_new by simp
next
  case (k_change w p i j)
  then show ?case using wf_fs_change by simp
next
  case (k_rename w p q f)
  then show ?case using wf_fs_rename by simp
next
  case (k_exec w c r f)
  have "wf_fs (snd (w_exec w c (w_fs w)))"
    using k_exec.prems unfolding sane_outside_def by blast
  with k_exec.hyps show ?case by simp
next
  case (k_mount w m f)
  have "wf_fs (snd (w_mountfx w m (w_fs w)))"
    using k_mount.prems unfolding sane_outside_def by blast
  with k_mount.hyps show ?case by simp
qed (simp_all add: tick_def wf_fs_delete wf_fs_remove_tree wf_fs_subtree wf_fs_pivot)

lemma kstep_sane: "kstep w w' \<Longrightarrow> sane_outside w' = sane_outside w"
  by (induction rule: kstep.induct) (simp_all add: sane_outside_def tick_def)

lemma kstep_wf_world: "kstep w w' \<Longrightarrow> wf_world w \<Longrightarrow> wf_world w'"
  unfolding wf_world_def using kstep_wf_fs kstep_sane by blast

interpretation tree: kernel_invariant wf_world
  by unfold_locales (rule kstep_wf_world)

text \<open>The world outside does not change under a program's feet.\<close>

definition outside :: "world \<Rightarrow> (nat \<Rightarrow> (errno \<times> nat) option) \<times> (cmd \<Rightarrow> fs \<Rightarrow> goerror option \<times> fs)
    \<times> (nat \<Rightarrow> string \<Rightarrow> goerror + http_resp) \<times> (string \<Rightarrow> string \<Rightarrow> goerror option)
    \<times> (nat \<Rightarrow> string) \<times> int \<times> filemode" where
  "outside w = (w_fault w, w_exec w, w_http w, w_modload w, w_rand w, w_uid w, w_umask w)"

lemma kstep_outside: "kstep w w' \<Longrightarrow> outside w' = outside w"
  by (induction rule: kstep.induct) (simp_all add: outside_def tick_def)

interpretation outside: kernel_invariant "\<lambda>w. outside w = o'" for o'
  by unfold_locales (simp add: kstep_outside)

text \<open>What has happened stays in the record.\<close>

lemma kstep_trace: "kstep w w' \<Longrightarrow> prefix (w_trace w) (w_trace w')"
  by (induction rule: kstep.induct) (simp_all add: tick_def)

interpretation trace: kernel_invariant "\<lambda>w. prefix t (w_trace w)" for t
  by unfold_locales (blast intro: prefix_order.trans kstep_trace)

lemma run_fault_free:
  assumes "program m" "run_state m w = (a, w')" "fault_free w"
  shows "fault_free w'"
proof -
  have "outside w' = outside w" using outside.run_keeps [OF assms(1,2)] by simp
  then show ?thesis using assms(3) by (simp add: outside_def fault_free_def)
qed

end
