(* ===== verification/GoFiles.thy ===== *)
theory GoFiles
  imports Kernel
begin

text \<open>
  Reasoning rules for system calls: one weakest-precondition rule per call, where a failing call
  leaves the file system as it was, and resolution of absolute names through real directories.
\<close>

section \<open>Rules for calls\<close>

lemma tick_simps [simp]:
  "w_fs (tick w) = w_fs w" "w_cwd (tick w) = w_cwd w" "w_umask (tick w) = w_umask w"
  "w_uid (tick w) = w_uid w" "w_fault (tick w) = w_fault w" "w_trace (tick w) = w_trace w"
  "w_stdin (tick w) = w_stdin w" "w_env (tick w) = w_env w" "w_exec (tick w) = w_exec w"
  "w_http (tick w) = w_http w" "w_httpno (tick w) = w_httpno w"
  "w_hostname (tick w) = w_hostname w" "w_rand (tick w) = w_rand w" "w_randno (tick w) = w_randno w"
  "w_modload (tick w) = w_modload w" "w_mountfx (tick w) = w_mountfx w"
  by (simp_all add: tick_def)

lemma resolve_cong: "w_fs v = w_fs w \<Longrightarrow> w_cwd v = w_cwd w \<Longrightarrow> resolve v follow s = resolve w follow s"
  by (simp add: resolve_def)

lemma resolve_tick [simp]: "resolve (tick w) follow s = resolve w follow s"
  by (rule resolve_cong) simp_all

lemma wp_fs_call_part:
  assumes "\<And>e k. Q (Inl (Errno e)) ((tick w)\<lparr>w_fs := part k w\<rparr>)"
    and "\<And>e. op w = Inl e \<Longrightarrow> Q (Inl (Errno e)) (tick w)"
    and "\<And>a f. op w = Inr (a, f) \<Longrightarrow> Q (Inr a) ((tick w)\<lparr>w_fs := f\<rparr>)"
  shows "wp (fs_call_part part op) Q w"
  using assms by (auto simp: fs_call_part_def split: option.split sum.split)

lemma tick_same_fs [simp]: "(tick w)\<lparr>w_fs := w_fs w\<rparr> = tick w"
  by (simp add: tick_def)

lemma wp_fs_call:
  assumes "\<And>e. Q (Inl (Errno e)) (tick w)"
    and "\<And>a f. op w = Inr (a, f) \<Longrightarrow> Q (Inr a) ((tick w)\<lparr>w_fs := f\<rparr>)"
  shows "wp (fs_call op) Q w"
  unfolding fs_call_def
  by (rule wp_fs_call_part) (auto intro: assms)

lemma case_sum_Inr:
  "(case x of Inl e \<Rightarrow> Inl e | Inr f \<Rightarrow> Inr (g f)) = Inr y \<longleftrightarrow> (\<exists>f. x = Inr f \<and> y = g f)"
  by (auto split: sum.split)

lemma case_reg_Inr:
  "(case k of KReg c \<Rightarrow> Inr (g c) | KDir \<Rightarrow> Inl e1 | _ \<Rightarrow> Inl e2) = Inr y
     \<longleftrightarrow> (\<exists>c. k = KReg c \<and> y = g c)"
  by (auto split: kind.split)

lemma case_link_Inr:
  "(case k of KLink c \<Rightarrow> Inr (g c) | _ \<Rightarrow> Inl e2) = Inr y \<longleftrightarrow> (\<exists>c. k = KLink c \<and> y = g c)"
  by (auto split: kind.split)

text \<open>A call the schedule spares.\<close>

lemma run_fs_call:
  "fault_free w \<Longrightarrow> run_state (fs_call op) w =
     (case op w of Inl e \<Rightarrow> (Inl (Errno e), tick w) | Inr (a, f) \<Rightarrow> (Inr a, (tick w)\<lparr>w_fs := f\<rparr>))"
  by (simp add: fs_call_def fs_call_part_def fault_free_def split: sum.split)

lemma fault_free_simps [simp]:
  "fault_free (tick w) = fault_free w" "fault_free (w\<lparr>w_fs := f\<rparr>) = fault_free w"
  "fault_free (w\<lparr>w_trace := t\<rparr>) = fault_free w" "fault_free (w\<lparr>w_randno := n\<rparr>) = fault_free w"
  "fault_free (w\<lparr>w_httpno := n\<rparr>) = fault_free w" "fault_free (w\<lparr>w_stdin := i\<rparr>) = fault_free w"
  by (simp_all add: fault_free_def)

lemma with_inode_Inr:
  "with_inode w follow s k = Inr x \<longleftrightarrow>
     (\<exists>p i. resolve w follow s = Inr p \<and> fs_get (w_fs w) p = Some i \<and> k p i = Inr x)"
  by (auto simp: path_cases split: sum.splits option.splits)

lemma with_path_Inr:
  "with_path w follow s k = Inr x \<longleftrightarrow> (\<exists>p. resolve w follow s = Inr p \<and> k p = Inr x)"
  by (auto simp: with_path_def split: sum.splits)

lemma new_inode_Inr:
  "new_inode p i f = Inr g \<longleftrightarrow> p \<noteq> [] \<and> is_dir f (butlast p) \<and> g = fs_put p i f"
  by (auto simp: new_inode_def)

lemmas call_results = case_sum_Inr case_reg_Inr case_link_Inr with_inode_Inr with_path_Inr new_inode_Inr

text \<open>Reading calls: a value that the file system holds, or an error; nothing changes.\<close>

definition same_files :: "world \<Rightarrow> world \<Rightarrow> bool" where
  "same_files w v = (w_fs v = w_fs w \<and> w_cwd v = w_cwd w)"

lemma same_files_refl [simp]: "same_files w w"
  by (simp add: same_files_def)

lemma same_files_tick [simp]: "same_files w (tick v) = same_files w v"
  by (simp add: same_files_def)

lemma wp_os_Stat:
  assumes "\<And>e. Q (Inl e) (tick w)"
    and "\<And>p i. resolve w True s = Inr p \<Longrightarrow> fs_get (w_fs w) p = Some i \<Longrightarrow>
      Q (Inr \<lparr>fi_name = path_Base s, fi_inode = i\<rparr>) (tick w)"
  shows "wp (os_Stat s) Q w"
  unfolding os_Stat_def by (rule wp_fs_call) (auto simp: call_results assms)

lemma wp_os_ReadFile:
  assumes "\<And>e. Q (Inl e) (tick w)"
    and "\<And>p i c. resolve w True s = Inr p \<Longrightarrow> fs_get (w_fs w) p = Some i \<Longrightarrow> i_kind i = KReg c \<Longrightarrow>
      Q (Inr c) (tick w)"
  shows "wp (os_ReadFile s) Q w"
  unfolding os_ReadFile_def
  by (rule wp_fs_call) (auto simp: call_results assms)

lemma wp_os_Open:
  assumes "\<And>e. Q (Inl e) (tick w)"
    and "\<And>p i. resolve w True s = Inr p \<Longrightarrow> fs_get (w_fs w) p = Some i \<Longrightarrow> Q (Inr p) (tick w)"
  shows "wp (os_Open s) Q w"
  unfolding os_Open_def by (rule wp_fs_call) (auto simp: call_results assms)

lemma wp_fd_ReadAll: "(\<And>r. Q r (tick w)) \<Longrightarrow> wp (fd_ReadAll p) Q w"
  by (auto simp: fd_ReadAll_def split: option.split kind.split)

lemma wp_fd_Close: "(\<And>r. Q r (tick w)) \<Longrightarrow> wp (fd_Close p) Q w"
  unfolding fd_Close_def by (rule wp_fs_call) auto

lemma wp_os_Chmod:
  assumes "\<And>e. Q (Inl e) (tick w)"
    and "\<And>p i. resolve w True s = Inr p \<Longrightarrow> fs_get (w_fs w) p = Some i \<Longrightarrow>
      Q (Inr ()) ((tick w)\<lparr>w_fs := fs_put p (i\<lparr>i_mode := syscallMode m\<rparr>) (w_fs w)\<rparr>)"
  shows "wp (os_Chmod s m) Q w"
  unfolding os_Chmod_def by (rule wp_fs_call) (auto simp: call_results intro: assms)

lemma wp_os_Chown:
  assumes "\<And>e. Q (Inl e) (tick w)"
    and "\<And>p i. resolve w True s = Inr p \<Longrightarrow> fs_get (w_fs w) p = Some i \<Longrightarrow>
      Q (Inr ()) ((tick w)\<lparr>w_fs := fs_put p (i\<lparr>i_uid := u, i_gid := g\<rparr>) (w_fs w)\<rparr>)"
  shows "wp (os_Chown s u g) Q w"
  unfolding os_Chown_def by (rule wp_fs_call) (auto simp: call_results intro: assms)

lemma wp_os_Remove:
  assumes "\<And>e. Q (Inl e) (tick w)"
    and "\<And>p i. resolve w False s = Inr p \<Longrightarrow> p \<noteq> [] \<Longrightarrow> \<not> has_children (w_fs w) p \<Longrightarrow>
      fs_get (w_fs w) p = Some i \<Longrightarrow> Q (Inr ()) ((tick w)\<lparr>w_fs := fs_del p (w_fs w)\<rparr>)"
  shows "wp (os_Remove s) Q w"
  unfolding os_Remove_def
  by (rule wp_fs_call) (auto simp: call_results split: if_splits intro: assms)

lemma wp_os_Rename:
  assumes "\<And>e. Q (Inl e) (tick w)"
    and "\<And>p q f. resolve w False s = Inr p \<Longrightarrow> resolve w False t = Inr q \<Longrightarrow>
      rename_inodes p q (w_fs w) = Inr f \<Longrightarrow> Q (Inr ()) ((tick w)\<lparr>w_fs := f\<rparr>)"
  shows "wp (os_Rename s t) Q w"
  unfolding os_Rename_def
  by (rule wp_fs_call) (auto simp: path_cases split: sum.splits if_splits intro: assms)

lemma wp_fd_Write:
  assumes "\<And>e k. Q (Inl e) ((tick w)\<lparr>w_fs := append_file p (take k data) (w_fs w)\<rparr>)"
    and "Q (Inr ()) ((tick w)\<lparr>w_fs := append_file p data (w_fs w)\<rparr>)"
  shows "wp (fd_Write p data) Q w"
  unfolding fd_Write_def by (rule wp_fs_call_part) (auto intro: assms)

lemma wp_os_OpenExcl:
  assumes "\<And>e. Q (Inl e) (tick w)"
    and "\<And>p. resolve w False s = Inr p \<Longrightarrow> fs_get (w_fs w) p = None \<Longrightarrow> p \<noteq> [] \<Longrightarrow>
      is_dir (w_fs w) (butlast p) \<Longrightarrow>
      Q (Inr p) ((tick w)\<lparr>w_fs := fs_put p \<lparr>i_kind = KReg [], i_mode = 384 AND NOT (w_umask w),
                            i_uid = w_uid w, i_gid = w_uid w\<rparr> (w_fs w)\<rparr>)"
  shows "wp (os_OpenExcl s) Q w"
  unfolding os_OpenExcl_def
  by (rule wp_fs_call)
    (auto simp: call_results split: option.splits sum.splits intro: assms)

lemma wp_os_OpenTrunc:
  assumes "\<And>e. Q (Inl e) (tick w)"
    and "\<And>p i c. resolve w True s = Inr p \<Longrightarrow> \<not> is_dir (w_fs w) p \<Longrightarrow> i_kind i = KReg c \<Longrightarrow>
      Q (Inr p) ((tick w)\<lparr>w_fs := fs_put p i (w_fs w)\<rparr>)"
    and "\<And>p. resolve w True s = Inr p \<Longrightarrow> Q (Inr p) (tick w)"
  shows "wp (os_OpenTrunc s perm) Q w"
  unfolding os_OpenTrunc_def
proof (rule wp_fs_call)
  fix a f
  let ?new = "\<lparr>i_kind = KReg [], i_mode = syscallMode perm AND NOT (w_umask w), i_uid = w_uid w, i_gid = w_uid w\<rparr>"
  assume op: "with_path w True s
     (\<lambda>p. case fs_get (w_fs w) p of
        None \<Rightarrow> (case new_inode p ?new (w_fs w) of Inl e \<Rightarrow> Inl e | Inr f \<Rightarrow> Inr (p, f))
      | Some i \<Rightarrow>
         (case i_kind i of
            KDir \<Rightarrow> Inl EISDIR
          | KReg _ \<Rightarrow> Inr (p, fs_put p (i\<lparr>i_kind := KReg []\<rparr>) (w_fs w))
          | KLink _ \<Rightarrow> Inl ELOOP
          | _ \<Rightarrow> Inr (p, w_fs w))) = Inr (a, f)"
  obtain p where p: "resolve w True s = Inr p"
    using op by (cases "resolve w True s") (auto simp: with_path_def)
  have "p = a"
    using op p
    by (cases "fs_get (w_fs w) p"; cases "i_kind (the (fs_get (w_fs w) p))")
      (auto simp: with_path_def new_inode_def split: if_splits)
  with p have r: "resolve w True s = Inr a" by simp
  show "Q (Inr a) ((tick w)\<lparr>w_fs := f\<rparr>)"
  proof (cases "fs_get (w_fs w) a")
    case None
    then have f: "f = fs_put a ?new (w_fs w)"
      using op r by (auto simp: with_path_def new_inode_def split: if_splits)
    show ?thesis unfolding f by (rule assms(2) [OF r]) (simp_all add: None is_dir_def)
  next
    case (Some i)
    have "f = w_fs w \<or> (\<not> is_dir (w_fs w) a \<and> f = fs_put a (i\<lparr>i_kind := KReg []\<rparr>) (w_fs w))"
      using op r Some by (auto simp: with_path_def is_dir_def split: kind.splits)
    then show ?thesis
      using assms(2) [OF r, of "i\<lparr>i_kind := KReg []\<rparr>" "[]"] assms(3) [OF r] by auto
  qed
qed (rule assms(1))

text \<open>A property of the files that writing to any non-directory keeps is kept by a whole write.\<close>

lemma wp_os_WriteFile_files:
  assumes J: "J (w_fs w)" and path: "\<And>p. resolve w True s = Inr p \<Longrightarrow> P p"
    and put: "\<And>f p j c. J f \<Longrightarrow> P p \<Longrightarrow> \<not> is_dir f p \<Longrightarrow> i_kind j = KReg c \<Longrightarrow> J (fs_put p j f)"
  shows "wp (os_WriteFile s data perm) (\<lambda>_ v. J (w_fs v)) w"
proof -
  have app: "J (append_file p d f)" if "J f" "P p" for p d f
    using that put by (auto simp: append_file_def is_dir_def split: option.split kind.split)
  have rest: "wp (do { rw \<leftarrow> fd_Write p data; rc \<leftarrow> fd_Close p;
       State_Monad.return (case rw of Inl e \<Rightarrow> Inl e | Inr _ \<Rightarrow> rc) }) (\<lambda>_ v. J (w_fs v)) v"
    if "J (w_fs v)" "P p" for v :: world and p
    unfolding wp_bind wp_fun by (rule wp_fd_Write; rule wp_fd_Close) (use app that in simp_all)
  show ?thesis
    unfolding os_WriteFile_def wp_bind [of "os_OpenTrunc _ _"]
  proof (rule wp_os_OpenTrunc, goal_cases)
    case (2 p i c)
    then show ?case unfolding onok_simps by (intro rest) (use J path put in auto)
  next
    case (3 p)
    then show ?case unfolding onok_simps by (intro rest) (use J path in auto)
  qed (simp add: J)
qed

lemma wp_os_Symlink:
  assumes "\<And>e. Q (Inl e) (tick w)"
    and "\<And>p. resolve w False s = Inr p \<Longrightarrow> fs_get (w_fs w) p = None \<Longrightarrow> p \<noteq> [] \<Longrightarrow>
      is_dir (w_fs w) (butlast p) \<Longrightarrow>
      Q (Inr ()) ((tick w)\<lparr>w_fs := fs_put p \<lparr>i_kind = KLink t, i_mode = 511,
                            i_uid = w_uid w, i_gid = w_uid w\<rparr> (w_fs w)\<rparr>)"
  shows "wp (os_Symlink t s) Q w"
  unfolding os_Symlink_def
  by (rule wp_fs_call)
    (auto simp: call_results split: option.splits sum.splits intro: assms)

lemma wp_os_Mkdir:
  assumes "\<And>e. Q (Inl e) (tick w)"
    and "\<And>p. resolve w False s = Inr p \<Longrightarrow> fs_get (w_fs w) p = None \<Longrightarrow> p \<noteq> [] \<Longrightarrow>
      is_dir (w_fs w) (butlast p) \<Longrightarrow>
      Q (Inr ()) ((tick w)\<lparr>w_fs := fs_put p \<lparr>i_kind = KDir, i_mode = syscallMode perm AND NOT (w_umask w),
                            i_uid = w_uid w, i_gid = w_uid w\<rparr> (w_fs w)\<rparr>)"
  shows "wp (os_Mkdir s perm) Q w"
  unfolding os_Mkdir_def
  by (rule wp_fs_call)
    (auto simp: call_results split: option.splits sum.splits intro: assms)

lemma wp_os_Lstat:
  assumes "\<And>e. Q (Inl e) (tick w)"
    and "\<And>p i. resolve w False s = Inr p \<Longrightarrow> fs_get (w_fs w) p = Some i \<Longrightarrow>
      Q (Inr \<lparr>fi_name = path_Base s, fi_inode = i\<rparr>) (tick w)"
  shows "wp (os_Lstat s) Q w"
  unfolding os_Lstat_def by (rule wp_fs_call) (auto simp: call_results assms)

lemma wp_os_Readlink: "(\<And>r. Q r (tick w)) \<Longrightarrow> wp (os_Readlink s) Q w"
  unfolding os_Readlink_def by (rule wp_fs_call) (auto simp: call_results)

text \<open>A directory is there after \<open>mkdir_or_dir\<close>, new or not, unless it reports an error.\<close>

lemma wp_mkdir_or_dir:
  assumes "\<And>v e. w_fs v = w_fs w \<Longrightarrow> Q (Inl e) v"
    and "\<And>v p. w_fs v = w_fs w \<Longrightarrow> resolve w False s = Inr p \<Longrightarrow> is_dir (w_fs w) p \<Longrightarrow> Q (Inr ()) v"
    and "\<And>p i v. resolve w False s = Inr p \<Longrightarrow> fs_get (w_fs w) p = None \<Longrightarrow> i_kind i = KDir \<Longrightarrow>
      w_fs v = fs_put p i (w_fs w) \<Longrightarrow> Q (Inr ()) v"
  shows "wp (mkdir_or_dir s perm) Q w"
  unfolding mkdir_or_dir_def wp_bind [of "os_Mkdir _ _"]
proof (rule wp_os_Mkdir, goal_cases)
  case (1 e)
  show ?case
    unfolding sum.case wp_bind wp_fun
    by (rule wp_os_Lstat) (auto simp: IsDir_def is_dir_def intro!: assms(1,2))
next
  case (2 p)
  show ?case unfolding sum.case wp_return by (rule assms(3)) (use 2 in simp_all)
qed

text \<open>
  Temporary names: every failed attempt leaves the files alone, and the one that succeeds does so
  in a world with the files of the first.
\<close>

lemma wp_temp_loop:
  assumes mk: "\<And>s Q v. (\<And>e. Q (Inl e) (tick v)) \<Longrightarrow> (\<And>a v'. mkpost v s a v' \<Longrightarrow> Q (Inr a) v') \<Longrightarrow> wp (mk s) Q v"
    and inv: "\<And>v. I v \<Longrightarrow> I (tick v)" "\<And>v n. I v \<Longrightarrow> I (v\<lparr>w_randno := n\<rparr>)"
    and fin: "\<And>v e. I v \<Longrightarrow> Q (Inl e) v"
      "\<And>v rnd k a v'. I v \<Longrightarrow> rnd = w_rand v k \<Longrightarrow> mkpost v (path_Join [dir, fst ps @ rnd @ snd ps]) a v' \<Longrightarrow>
         Q (Inr (path_Join [dir, fst ps @ rnd @ snd ps], a)) v'"
  shows "I v \<Longrightarrow> wp (temp_loop mk dir ps n) Q v"
proof (induction n arbitrary: v)
  case 0
  then show ?case using fin(1) by simp
next
  case (Suc n)
  let ?v = "v\<lparr>w_randno := Suc (w_randno v)\<rparr>"
  let ?s = "path_Join [dir, fst ps @ w_rand v (w_randno v) @ snd ps]"
  have I: "I ?v" using inv(2) Suc.prems .
  have "wp (mk ?s) (\<lambda>r. wp (case r of Inr h \<Rightarrow> State_Monad.return (Inr (?s, h))
      | Inl e \<Rightarrow> if IsExist e then temp_loop mk dir ps n else State_Monad.return (Inl e)) Q) ?v"
  proof (rule mk)
    fix e
    show "wp (case Inl e of Inr h \<Rightarrow> State_Monad.return (Inr (?s, h))
      | Inl e \<Rightarrow> if IsExist e then temp_loop mk dir ps n else State_Monad.return (Inl e)) Q (tick ?v)"
      using Suc.IH [OF inv(1) [OF I]] fin(1) [OF inv(1) [OF I]] by simp
  next
    fix a v'
    assume "mkpost ?v ?s a v'"
    then show "wp (case Inr a of Inr h \<Rightarrow> State_Monad.return (Inr (?s, h))
      | Inl e \<Rightarrow> if IsExist e then temp_loop mk dir ps n else State_Monad.return (Inl e)) Q v'"
      using fin(2) [OF I, of _ "w_randno v"] by simp
  qed
  then show ?case by (simp add: next_random_def Let_def)
qed

text \<open>The random parts are what \<open>ioutil\<close> makes them: digits.\<close>

definition good_rand :: "world \<Rightarrow> bool" where
  "good_rand w = (\<forall>n. w_rand w n \<noteq> [] \<and> (\<forall>c \<in> set (w_rand w n). is_digit c))"

lemma pattern_split_length:
  "pattern_split pat = (a, b) \<Longrightarrow> length pat \<le> length a + length b + 1"
proof -
  assume ps: "pattern_split pat = (a, b)"
  have "length (takeWhile (\<lambda>c. c \<noteq> CHR ''*'') (rev pat)) + length (dropWhile (\<lambda>c. c \<noteq> CHR ''*'') (rev pat))
      = length pat"
    by (metis length_append length_rev takeWhile_dropWhile_id)
  then show ?thesis using ps by (auto simp: pattern_split_def TrimRight_def split: if_splits)
qed

lemma pattern_split_set:
  assumes "pattern_split pat = (a, b)"
  shows "set a \<subseteq> set pat" "set b \<subseteq> set pat"
proof -
  have "set (TrimRight P pat) \<subseteq> set pat" for P
    using TrimRight_prefix by (rule set_mono_prefix)
  moreover have "set (takeWhile P (rev pat)) \<subseteq> set pat" for P
    by (auto dest: set_takeWhileD)
  ultimately show "set a \<subseteq> set pat" "set b \<subseteq> set pat"
    using assms
    by (auto simp: pattern_split_def subset_iff split: if_splits dest!: in_set_butlastD)
qed

lemma temp_name_plain:
  assumes "pattern_split pat = (a, b)" "slash \<notin> set pat" "rnd \<noteq> []" "\<forall>c \<in> set rnd. is_digit c"
  shows "plain (a @ rnd @ b)"
proof -
  have s: "slash \<notin> set (a @ rnd @ b)"
    using assms pattern_split_set [OF assms(1)] by (auto simp: is_digit_def)
  obtain d where d: "d \<in> set (a @ rnd @ b)" "is_digit d"
    using assms(3,4) by (cases rnd) auto
  then have "d \<noteq> CHR ''.''" by (auto simp: is_digit_def)
  then have "\<not> set (a @ rnd @ b) \<subseteq> {CHR ''.''}" using d(1) by blast
  then have "a @ rnd @ b \<noteq> ''.''" "a @ rnd @ b \<noteq> ''..''" by (metis list.set(1,2) subset_refl insert_absorb2)+
  then show ?thesis using s assms(3) by (simp add: plain_def)
qed

section \<open>Absolute names through real directories\<close>

definition abs_path :: "path \<Rightarrow> string" where
  "abs_path p = slash # Join p [slash]"

text \<open>\<open>p\<close> is written plainly and every directory on the way to it is real.\<close>

definition direct :: "fs \<Rightarrow> path \<Rightarrow> bool" where
  "direct f p = (p \<noteq> [] \<and> (\<forall>c \<in> set p. plain c) \<and> (\<forall>k < length p. is_dir f (take k p)))"

lemma elems_abs_path: "(\<forall>c \<in> set p. plain c) \<Longrightarrow> filter (\<lambda>e. e \<noteq> []) (Split (abs_path p) slash) = p"
proof (cases "p = []")
  case True
  then show ?thesis by (simp add: abs_path_def)
next
  case False
  assume p: "\<forall>c \<in> set p. plain c"
  then have "filter (\<lambda>e. e \<noteq> []) p = p" by (auto simp: plain_def intro: filter_True)
  then show ?thesis using Split_slash_plain [OF False p] by (simp add: abs_path_def)
qed

lemma resolve_abs:
  assumes "direct (w_fs w) p"
    and "follow \<Longrightarrow> (\<forall>i t. fs_get (w_fs w) p = Some i \<longrightarrow> i_kind i \<noteq> KLink t)"
  shows "resolve w follow (abs_path p) = Inr p"
proof -
  have d: "is_dir (w_fs w) ([] @ take (Suc k) p) \<or> Suc k = length p" if "k < length p" for k
    using assms(1) that by (cases "Suc k = length p") (simp_all add: direct_def)
  have "namei 40 (w_fs w) follow [] p = Inr ([] @ p)"
    by (rule namei_dirs) (use assms d in \<open>auto simp: direct_def\<close>)
  then show ?thesis
    using assms(1) elems_abs_path [of p]
    by (simp add: resolve_def direct_def is_rooted_def abs_path_def)
qed

lemma direct_butlast: "direct f p \<Longrightarrow> is_dir f (butlast p)"
  by (cases p rule: rev_cases) (auto simp: direct_def)

lemma direct_sibling: "direct f p \<Longrightarrow> plain c \<Longrightarrow> direct f (butlast p @ [c])"
  by (cases p rule: rev_cases) (auto simp: direct_def less_Suc_eq)

lemma direct_mono:
  "direct f p \<Longrightarrow> (\<And>q. is_dir f q \<Longrightarrow> is_dir g q) \<Longrightarrow> direct g p"
  by (auto simp: direct_def)

lemma path_Split_abs:
  assumes "p \<noteq> []" "\<forall>c \<in> set p. plain c"
  shows "path_Split (abs_path p) = (slash # concat (map (\<lambda>c. c @ [slash]) (butlast p)), last p)"
proof -
  have j: "Join (d @ [c]) [slash] = concat (map (\<lambda>c. c @ [slash]) d) @ c" for d c
    by (induction d) (auto simp: Join_Cons)
  obtain d c where p: "p = d @ [c]" using assms(1) by (metis append_butlast_last_id)
  have nc: "slash \<notin> set c" using assms(2) p by (simp add: plain_def)
  let ?d = "slash # concat (map (\<lambda>c. c @ [slash]) d)"
  have a: "abs_path p = ?d @ c" by (simp add: abs_path_def p j)
  have l: "last ?d = slash" by (cases d rule: rev_cases) simp_all
  have t: "takeWhile (\<lambda>c. c \<noteq> slash) (rev c @ rev ?d) = rev c"
    using nc l by (subst takeWhile_append2) (auto simp: hd_rev [symmetric] neq_Nil_conv takeWhile_eq_Nil_iff simp del: rev.simps)
  have dw: "dropWhile (\<lambda>c. c \<noteq> slash) (rev c @ rev ?d) = rev ?d"
    using nc l by (subst dropWhile_append2) (auto simp: hd_rev dropWhile_eq_self_iff simp del: rev.simps)
  have r: "rev (abs_path p) = rev c @ rev ?d" by (simp add: a)
  have "path_Split (abs_path p) = (rev (rev ?d), rev (rev c))"
    unfolding path_Split_def TrimRight_def r t dw ..
  then show ?thesis by (simp add: p)
qed

lemma path_Join_temp:
  assumes "\<forall>c \<in> set d. plain c" "plain e"
  shows "path_Join [slash # concat (map (\<lambda>c. c @ [slash]) d), e] = abs_path (d @ [e])"
proof -
  let ?s = "slash # concat (map (\<lambda>c. c @ [slash]) d)"
  have sp: "Split (concat (map (\<lambda>c. c @ [slash]) d) @ slash # e) slash = d @ [[], e]"
    using assms by (induction d) (auto simp: plain_def Split_append_sep Split_no_sep)
  have ce: "clean_elems True acc (d @ [[], e]) = rev acc @ d @ [e]" for acc
    using assms by (induction d arbitrary: acc) (auto simp: plain_def)
  show ?thesis
    using sp ce [of "[]"] assms(2)
    by (simp add: path_Join_def path_Clean_def is_rooted_def abs_path_def)
qed

lemma clean_elems_ignore:
  "clean_elems r acc (filter (\<lambda>e. e \<noteq> []) cs) = clean_elems r acc cs"
  by (induction r acc cs rule: clean_elems.induct) auto

text \<open>A rooted name cleans to the name of its elements.\<close>

lemma path_Clean_elems:
  assumes "is_rooted s" "filter (\<lambda>e. e \<noteq> []) (Split s slash) = p" "\<forall>c \<in> set p. plain c"
  shows "path_Clean s = abs_path p"
proof -
  have "clean_elems True [] (Split s slash) = p"
    using clean_elems_ignore [of True "[]" "Split s slash"] assms(2,3)
    by (simp add: clean_elems_plain)
  then show ?thesis using assms(1) by (auto simp: path_Clean_def abs_path_def is_rooted_def)
qed

lemma Split_append: "Split (s @ c # t) c = Split s c @ Split t c"
  by (induction s) (auto split: list.splits)

lemma path_Join_abs:
  assumes "\<forall>c \<in> set d. plain c" "\<forall>c \<in> set e. plain c" "filter (\<lambda>e. e \<noteq> []) (Split s slash) = e"
  shows "path_Join [abs_path d, s] = abs_path (d @ e)"
proof -
  have "path_Join [abs_path d, s] = path_Clean (abs_path d @ slash # s)"
    by (simp add: path_Join_def abs_path_def)
  also have "\<dots> = abs_path (d @ e)"
  proof (rule path_Clean_elems)
    show "filter (\<lambda>e. e \<noteq> []) (Split (abs_path d @ slash # s) slash) = d @ e"
      using elems_abs_path [OF assms(1)] assms(3) by (simp add: Split_append)
  qed (use assms in \<open>auto simp: is_rooted_def abs_path_def\<close>)
  finally show ?thesis .
qed

lemma path_Join_elem:
  "\<forall>c \<in> set d. plain c \<Longrightarrow> plain e \<Longrightarrow> path_Join [abs_path d, e] = abs_path (d @ [e])"
  by (rule path_Join_abs) (auto simp: plain_def Split_no_sep)

lemma path_Dir_abs:
  assumes "p \<noteq> []" "\<forall>c \<in> set p. plain c"
  shows "path_Dir (abs_path p) = abs_path (butlast p)"
  unfolding path_Dir_def path_Split_abs [OF assms] fst_conv
proof (rule path_Clean_elems)
  have d: "\<forall>c \<in> set (butlast p). plain c" using assms(2) by (auto dest: in_set_butlastD)
  have "Split (concat (map (\<lambda>c. c @ [slash]) d)) slash = d @ [[]]" if "\<forall>c \<in> set d. plain c" for d
    using that by (induction d) (auto simp: plain_def Split_append_sep)
  from this [OF d] show "filter (\<lambda>e. e \<noteq> []) (Split (slash # concat (map (\<lambda>c. c @ [slash]) (butlast p))) slash)
      = butlast p"
    using d by (auto simp: plain_def intro: filter_True)
  show "\<forall>c \<in> set (butlast p). plain c" by (rule d)
qed (simp add: is_rooted_def)

section \<open>Changes below a directory\<close>

text \<open>No symbolic link below a directory: a plain walk from it stays below it.\<close>

definition no_links_below :: "path \<Rightarrow> fs \<Rightarrow> bool" where
  "no_links_below base f = (\<forall>q i t. prefix base q \<longrightarrow> fs_get f q = Some i \<longrightarrow> i_kind i \<noteq> KLink t)"

lemma namei_below:
  assumes "no_links_below base f"
  shows "\<forall>c \<in> set cs. plain c \<Longrightarrow> prefix base cur \<Longrightarrow> namei n f follow cur cs = Inr p \<Longrightarrow> prefix base p"
proof (induction cs arbitrary: cur)
  case (Cons c cs)
  have c: "c \<noteq> ''.''" "c \<noteq> ''..''" using Cons.prems(1) by (auto simp: plain_def)
  have pre: "prefix base (cur @ [c])" using Cons.prems(2) by (rule prefix_prefix)
  have nl: "fs_get f (cur @ [c]) = Some i \<Longrightarrow> i_kind i \<noteq> KLink t" for i t
    using assms pre unfolding no_links_below_def by blast
  show ?case
    using Cons.prems(1,3) c pre nl Cons.IH [OF _ pre]
    by (auto split: option.splits kind.splits if_splits)
qed simp

lemma namei_dirs_then:
  assumes "\<And>k. k < length bs \<Longrightarrow> is_dir f (cur @ take (Suc k) bs)" "\<forall>c \<in> set bs. plain c"
  shows "namei n f follow cur (bs @ cs) = namei n f follow (cur @ bs) cs"
  using assms
proof (induction bs arbitrary: cur)
  case (Cons b bs)
  have "is_dir f (cur @ [b])" using Cons.prems(1) [of 0] by simp
  then obtain i where i: "fs_get f (cur @ [b]) = Some i" "i_kind i = KDir"
    by (auto simp: is_dir_def split: option.splits)
  have "namei n f follow (cur @ [b]) (bs @ cs) = namei n f follow ((cur @ [b]) @ bs) cs"
  proof (rule Cons.IH)
    show "k < length bs \<Longrightarrow> is_dir f ((cur @ [b]) @ take (Suc k) bs)" for k
      using Cons.prems(1) [of "Suc k"] by simp
  qed (use Cons.prems in simp)
  then show ?case using i Cons.prems(2) by (simp add: plain_def)
qed simp

text \<open>Only files below a directory change.\<close>

definition only_below :: "path \<Rightarrow> fs \<Rightarrow> fs \<Rightarrow> bool" where
  "only_below base f g = (\<forall>q. \<not> prefix base q \<longrightarrow> fs_get g q = fs_get f q)"

lemma only_below_refl [simp]: "only_below base f f"
  by (simp add: only_below_def)

lemma only_below_trans: "only_below base f g \<Longrightarrow> only_below base g h \<Longrightarrow> only_below base f h"
  by (simp add: only_below_def)

lemma only_below_put: "prefix base p \<Longrightarrow> only_below base f (fs_put p j f)"
  by (auto simp: only_below_def)

text \<open>What lies outside, the directories on the way included, stays as it is.\<close>

lemma only_below_get: "only_below base f g \<Longrightarrow> \<not> prefix base q \<Longrightarrow> fs_get g q = fs_get f q"
  by (simp add: only_below_def)

lemma only_below_dir: "only_below base f g \<Longrightarrow> \<not> prefix base q \<Longrightarrow> is_dir g q = is_dir f q"
  by (simp add: only_below_def is_dir_def)

lemma only_below_mono: "only_below p f g \<Longrightarrow> prefix base p \<Longrightarrow> only_below base f g"
  unfolding only_below_def using prefix_order.trans by blast

lemma direct_below:
  assumes "direct f p" "only_below p f g"
  shows "direct g p"
proof -
  have "is_dir g (take k p)" if "k < length p" for k
  proof -
    have "\<not> prefix p (take k p)" using that by (auto dest: prefix_length_le)
    then show ?thesis using assms that by (simp add: only_below_dir direct_def)
  qed
  then show ?thesis using assms(1) by (simp add: direct_def)
qed

lemma rename_file:
  assumes "wf_fs f" "fs_get f t = Some i" "i_kind i \<noteq> KDir" "t \<noteq> p" "rename_inodes t p f = Inr g"
  shows "fs_get g q = (if q = p then Some i else if q = t then None else fs_get f q)"
  using assms(5,1)
proof (cases rule: rename_inodes_cases)
  case (2 j)
  have nd: "\<not> is_dir f t" "\<not> is_dir f p" using assms(2,3) 2 by (auto simp: is_dir_def)
  have below: "r \<noteq> [] \<Longrightarrow> fs_get f (t @ r) = None \<and> fs_get f (p @ r) = None" for r
    using nd wf_fs_above [OF assms(1)] by metis
  have get: "fs_get g q = (if prefix p q then fs_get f (t @ drop (length p) q)
      else if prefix t q then None else fs_get f q)"
    unfolding 2(6) by (rule fs_get_move) (use 2 assms in auto)
  show ?thesis
  proof (cases "prefix p q")
    case True
    then obtain r where "q = p @ r" by (auto simp: prefix_def)
    then show ?thesis using get assms(2) below [of r] by (cases "r = []") (auto simp: prefix_def)
  next
    case False
    show ?thesis
    proof (cases "prefix t q")
      case True
      then obtain r where "q = t @ r" by (auto simp: prefix_def)
      then show ?thesis using get False below [of r] by (cases "r = []") auto
    qed (use get False in auto)
  qed
qed (use assms in simp)

section \<open>Calls the schedule spares\<close>

lemma wp_fs_call_calm:
  "fault_free w \<Longrightarrow> wp (fs_call op) Q w =
     (case op w of Inl e \<Rightarrow> Q (Inl (Errno e)) (tick w) | Inr (a, f) \<Rightarrow> Q (Inr a) ((tick w)\<lparr>w_fs := f\<rparr>))"
  by (auto simp: wp_def run_fs_call split: sum.split)

lemma wp_os_Rename_calm:
  "fault_free w \<Longrightarrow> resolve w False s = Inr p \<Longrightarrow> resolve w False t = Inr q \<Longrightarrow> \<not> is_dir (w_fs w) q \<Longrightarrow>
   rename_inodes p q (w_fs w) = Inr g \<Longrightarrow> wp (os_Rename s t) Q w = Q (Inr ()) ((tick w)\<lparr>w_fs := g\<rparr>)"
  by (simp add: os_Rename_def wp_fs_call_calm with_path_def)

lemma wp_fd_Write_calm:
  "fault_free w \<Longrightarrow> wp (fd_Write p data) Q w =
     Q (Inr ()) ((tick w)\<lparr>w_fs := append_file p data (w_fs w)\<rparr>)"
  by (simp add: fd_Write_def fs_call_part_def fault_free_def)

lemma wp_fd_Close_calm: "fault_free w \<Longrightarrow> wp (fd_Close p) Q w = Q (Inr ()) (tick w)"
  by (simp add: fd_Close_def wp_fs_call_calm)

text \<open>A world without faults, where the programs that are run do nothing.\<close>

definition calm_world :: "fs \<Rightarrow> world" where
  "calm_world f =
     \<lparr>w_fs = f, w_cwd = [], w_umask = 18, w_sysno = 0, w_fault = \<lambda>_. None, w_rand = \<lambda>_. ''17'',
      w_randno = 0, w_exec = \<lambda>_ f. (None, f), w_mountfx = \<lambda>_ f. (None, f), w_modload = \<lambda>_ _. None,
      w_http = \<lambda>_ _. Inl (ErrMsg ''no route''), w_httpno = 0, w_env = [], w_uid = 0,
      w_hostname = [], w_stdin = [], w_trace = []\<rparr>"

definition mkdir_inode :: inode where
  "mkdir_inode = \<lparr>i_kind = KDir, i_mode = 493, i_uid = 0, i_gid = 0\<rparr>"

definition mkfile :: "string \<Rightarrow> inode" where
  "mkfile c = \<lparr>i_kind = KReg c, i_mode = 420, i_uid = 0, i_gid = 0\<rparr>"

lemma calm_world_simps [simp]:
  "w_fs (calm_world f) = f" "w_cwd (calm_world f) = []" "w_fault (calm_world f) n = None"
  "w_rand (calm_world f) n = ''17''" "w_uid (calm_world f) = 0" "w_umask (calm_world f) = 18"
  by (simp_all add: calm_world_def)

lemma calm_world_ok [simp]:
  "fault_free (calm_world f)" "good_rand (calm_world f)" "sane_outside (calm_world f)"
  "wf_world (calm_world f) = wf_fs f"
  by (simp_all add: fault_free_def good_rand_def is_digit_def sane_outside_def wf_world_def)
    (simp_all add: calm_world_def)

section \<open>A file with a known content\<close>

definition file_is :: "path \<Rightarrow> string \<Rightarrow> world \<Rightarrow> bool" where
  "file_is p b w = (direct (w_fs w) p \<and> (\<exists>i. fs_get (w_fs w) p = Some i \<and> i_kind i = KReg b))"

lemma file_is_cong: "w_fs v = w_fs w \<Longrightarrow> file_is p b v = file_is p b w"
  by (simp add: file_is_def)

lemma file_is_tick [simp]: "file_is p b (tick w) = file_is p b w"
  by (rule file_is_cong) simp

lemma file_is_put_same:
  assumes "file_is p b w" "fs_get (w_fs w) q = Some i" "i_kind j = i_kind i" "w_fs v = fs_put q j (w_fs w)"
  shows "file_is p b v"
proof -
  have "is_dir (w_fs w) r \<Longrightarrow> is_dir (w_fs v) r" for r using assms by (auto simp: is_dir_def)
  then have "direct (w_fs v) p" using assms(1) by (auto simp: file_is_def intro: direct_mono [of "w_fs w"])
  then show ?thesis using assms by (auto simp: file_is_def)
qed

lemma file_is_new:
  assumes "file_is p b w" "fs_get (w_fs w) q = None" "w_fs v = fs_put q j (w_fs w)"
  shows "file_is p b v"
proof -
  have "is_dir (w_fs w) r \<Longrightarrow> is_dir (w_fs v) r" for r using assms by (auto simp: is_dir_def)
  then have "direct (w_fs v) p" using assms(1) by (auto simp: file_is_def intro: direct_mono [of "w_fs w"])
  then show ?thesis using assms by (auto simp: file_is_def)
qed

lemma file_is_other:
  assumes "file_is p b w" "\<And>q. q \<noteq> t \<Longrightarrow> fs_get (w_fs v) q = fs_get (w_fs w) q" "p \<noteq> t" "\<not> is_dir (w_fs w) t"
  shows "file_is p b v"
proof -
  have "is_dir (w_fs w) r \<Longrightarrow> is_dir (w_fs v) r" for r
    using assms(2,4) by (cases "r = t") (auto simp: is_dir_def)
  then have "direct (w_fs v) p" using assms(1) by (auto simp: file_is_def intro: direct_mono [of "w_fs w"])
  then show ?thesis using assms by (auto simp: file_is_def)
qed

text \<open>The effect of a write that no failure disturbs: one file has the new content.\<close>

definition written :: "world \<Rightarrow> path \<Rightarrow> string \<Rightarrow> world \<Rightarrow> bool" where
  "written w p data v = (fault_free v \<and> file_is p data v
     \<and> (\<forall>q. q \<noteq> p \<longrightarrow> fs_get (w_fs v) q = fs_get (w_fs w) q)
     \<and> w_hostname v = w_hostname w \<and> w_trace v = w_trace w \<and> w_env v = w_env w)"

definition writable :: "fs \<Rightarrow> path \<Rightarrow> bool" where
  "writable f p = (direct f p \<and> (\<forall>i. fs_get f p = Some i \<longrightarrow> (\<exists>c. i_kind i = KReg c)))"

lemma os_OpenTrunc_calm:
  assumes ff: "fault_free w" and wr: "writable (w_fs w) p"
  obtains i where "run_state (os_OpenTrunc (abs_path p) perm) w
      = (Inr p, (tick w)\<lparr>w_fs := fs_put p (i\<lparr>i_kind := KReg []\<rparr>) (w_fs w)\<rparr>)"
proof -
  have d: "direct (w_fs w) p" and r: "resolve w True (abs_path p) = Inr p"
    using wr by (auto simp: writable_def intro!: resolve_abs)
  then have new: "p \<noteq> []" "is_dir (w_fs w) (butlast p)" using direct_butlast by (auto simp: direct_def)
  show ?thesis
  proof (cases "fs_get (w_fs w) p")
    case None
    let ?i = "\<lparr>i_kind = KReg [], i_mode = syscallMode perm AND NOT (w_umask w), i_uid = w_uid w, i_gid = w_uid w\<rparr>"
    show ?thesis
      by (rule that [of ?i]) (use ff r None new in \<open>simp add: os_OpenTrunc_def run_fs_call with_path_def new_inode_def\<close>)
  next
    case (Some i)
    then obtain c where "i_kind i = KReg c" using wr by (auto simp: writable_def)
    then show ?thesis
      by (intro that [of i]) (use ff r Some in \<open>simp add: os_OpenTrunc_def run_fs_call with_path_def\<close>)
  qed
qed

lemma written_append:
  assumes ff: "fault_free w" and wr: "writable (w_fs w) p"
  shows "written w p data (tick (tick ((tick w)\<lparr>w_fs := append_file p data (fs_put p (i\<lparr>i_kind := KReg []\<rparr>) (w_fs w))\<rparr>)))"
proof -
  let ?f = "append_file p data (fs_put p (i\<lparr>i_kind := KReg []\<rparr>) (w_fs w))"
  have f: "fs_get ?f q = (if q = p then Some (i\<lparr>i_kind := KReg data\<rparr>) else fs_get (w_fs w) q)" for q
    by (simp add: append_file_def)
  have nd: "\<not> is_dir (w_fs w) p" and d: "direct (w_fs w) p"
    using wr by (auto simp: writable_def is_dir_def split: option.split)
  have "direct ?f p"
    by (rule direct_mono [OF d]) (use f nd in \<open>auto simp: is_dir_def split: if_splits\<close>)
  then show ?thesis using ff f by (auto simp: written_def file_is_def)
qed

lemmas write_calls = fd_Write_def fs_call_part_def fd_Close_def run_fs_call fault_free_def tick_def

lemma wp_os_WriteFile_calm:
  assumes ff: "fault_free w" and wr: "writable (w_fs w) p" and Q: "\<And>v. written w p data v \<Longrightarrow> Q (Inr ()) v"
  shows "wp (os_WriteFile (abs_path p) data perm) Q w"
proof -
  obtain i where op: "run_state (os_OpenTrunc (abs_path p) perm) w
      = (Inr p, (tick w)\<lparr>w_fs := fs_put p (i\<lparr>i_kind := KReg []\<rparr>) (w_fs w)\<rparr>)"
    using os_OpenTrunc_calm [OF ff wr] by metis
  let ?v = "tick (tick ((tick w)\<lparr>w_fs := append_file p data (fs_put p (i\<lparr>i_kind := KReg []\<rparr>) (w_fs w))\<rparr>))"
  have "run_state (os_WriteFile (abs_path p) data perm) w = (Inr (), ?v)"
    using ff op by (simp add: os_WriteFile_def write_calls)
  then show ?thesis using Q [OF written_append [OF ff wr]] by (simp add: wp_def)
qed

lemma file_is_writable: "file_is p b w \<Longrightarrow> writable (w_fs w) p"
  by (auto simp: file_is_def writable_def)

text \<open>A file system with one file, for examples.\<close>

definition lone_file :: "path \<Rightarrow> string \<Rightarrow> fs" where
  "lone_file p b = (p, mkfile b) # map (\<lambda>k. (take k p, mkdir_inode)) [0..<length p]"

lemma lone_file_is:
  assumes "p \<noteq> []" "list_all plain p"
  shows "file_is p b (calm_world (lone_file p b))"
proof -
  have m: "map_of (map (\<lambda>k. (take k p, mkdir_inode)) ks) (take n p) = Some mkdir_inode" if "n \<in> set ks" for n ks
    using that by (induction ks) auto
  have "is_dir (lone_file p b) (take n p)" if "n < length p" for n
  proof -
    have "n \<in> set [0..<length p]" "take n p \<noteq> p" using that by auto
    then show ?thesis using m by (simp add: is_dir_def lone_file_def mkdir_inode_def)
  qed
  then show ?thesis using assms by (simp add: file_is_def direct_def list_all_iff lone_file_def mkfile_def)
qed

lemma file_is_resolve:
  assumes "file_is p b w"
  obtains i where "resolve w True (abs_path p) = Inr p" "fs_get (w_fs w) p = Some i" "i_kind i = KReg b"
proof -
  have "resolve w True (abs_path p) = Inr p"
    using assms by (intro resolve_abs) (auto simp: file_is_def)
  then show ?thesis using that assms by (auto simp: file_is_def)
qed

lemma fd_ReadAll_calm:
  "fault_free w \<Longrightarrow> file_is p b w \<Longrightarrow> run_state (fd_ReadAll p) w = ((b, None), tick w)"
  by (auto simp: fd_ReadAll_def fault_free_def file_is_def)

lemma os_Open_calm:
  "fault_free w \<Longrightarrow> file_is p b w \<Longrightarrow> run_state (os_Open (abs_path p)) w = (Inr p, tick w)"
proof -
  assume "fault_free w" "file_is p b w"
  moreover from this(2) have "resolve w True (abs_path p) = Inr p" by (auto elim: file_is_resolve)
  ultimately show ?thesis
    by (auto simp: os_Open_def run_fs_call path_cases file_is_def)
qed

lemma os_ReadFile_calm:
  "fault_free w \<Longrightarrow> file_is p b w \<Longrightarrow> run_state (os_ReadFile (abs_path p)) w = (Inr b, tick w)"
proof -
  assume "fault_free w" "file_is p b w"
  moreover from this(2) have "resolve w True (abs_path p) = Inr p" by (auto elim: file_is_resolve)
  ultimately show ?thesis
    by (auto simp: os_ReadFile_def run_fs_call path_cases file_is_def)
qed

end
