(* ===== verification/GoBase64.thy ===== *)
theory GoBase64
  imports GoStrings
begin

text \<open>Go's \<open>base64.StdEncoding\<close>: the padded standard alphabet; the decoder skips line breaks.\<close>

definition b64_char :: "nat \<Rightarrow> char" where
  "b64_char n =
     (if n < 26 then char_of (65 + n) else if n < 52 then char_of (71 + n)
      else if n < 62 then char_of (n - 4) else if n = 62 then CHR ''+'' else CHR ''/'')"

definition b64_val :: "char \<Rightarrow> nat option" where
  "b64_val c = (let n = of_char c in
     if 65 \<le> n \<and> n \<le> 90 then Some (n - 65)
     else if 97 \<le> n \<and> n \<le> 122 then Some (n - 71)
     else if 48 \<le> n \<and> n \<le> 57 then Some (n + 4)
     else if n = 43 then Some 62 else if n = 47 then Some 63 else None)"

fun EncodeToString :: "string \<Rightarrow> string" where
  "EncodeToString (a # b # c # s) =
     (let x = of_char a; y = of_char b; z = of_char c in
      b64_char (x div 4) # b64_char ((x mod 4) * 16 + y div 16)
      # b64_char ((y mod 16) * 4 + z div 64) # b64_char (z mod 64) # EncodeToString s)"
| "EncodeToString [a, b] =
     (let x = of_char a; y = of_char b in
      [b64_char (x div 4), b64_char ((x mod 4) * 16 + y div 16), b64_char ((y mod 16) * 4), CHR ''=''])"
| "EncodeToString [a] =
     (let x = of_char a in [b64_char (x div 4), b64_char ((x mod 4) * 16), CHR ''='', CHR ''=''])"
| "EncodeToString [] = []"

fun decode_quanta :: "string \<Rightarrow> string option" where
  "decode_quanta [] = Some []"
| "decode_quanta (a # b # c # d # s) =
     (case (b64_val a, b64_val b) of
        (Some w, Some x) \<Rightarrow>
          if c = CHR ''='' then
            (if d = CHR ''='' \<and> s = [] then Some [char_of (w * 4 + x div 16)] else None)
          else (case b64_val c of
              None \<Rightarrow> None
            | Some y \<Rightarrow>
               if d = CHR ''='' then
                 (if s = [] then Some [char_of (w * 4 + x div 16), char_of ((x mod 16) * 16 + y div 4)]
                  else None)
               else (case b64_val d of
                   None \<Rightarrow> None
                 | Some z \<Rightarrow>
                    (case decode_quanta s of
                       None \<Rightarrow> None
                     | Some t \<Rightarrow> Some (char_of (w * 4 + x div 16) # char_of ((x mod 16) * 16 + y div 4)
                                    # char_of ((y mod 4) * 64 + z) # t))))
      | _ \<Rightarrow> None)"
| "decode_quanta s = None"

definition DecodeString :: "string \<Rightarrow> string option" where
  "DecodeString s = decode_quanta (filter (\<lambda>c. c \<noteq> CHR 0x0A \<and> c \<noteq> CHR 0x0D) s)"

lemmas base64_defs [go_eval] = b64_char_def b64_val_def DecodeString_def

section \<open>Round trip\<close>

lemma of_char_lt: "(of_char c :: nat) < 256"
  by (cases c) simp

lemma b64_val_char: "n < 64 \<Longrightarrow> b64_val (b64_char n) = Some n"
  by (auto simp: b64_val_def b64_char_def of_char_of Let_def)

lemma b64_char_no_pad:
  assumes "n < 64"
  shows "b64_char n \<notin> {CHR ''='', CHR 0x0A, CHR 0x0D}"
proof
  assume "b64_char n \<in> {CHR ''='', CHR 0x0A, CHR 0x0D}"
  then have "b64_val (b64_char n) = None" by (auto simp: b64_val_def)
  then show False using b64_val_char [OF assms] by simp
qed

text \<open>The three bytes of a quantum, cut into six-bit digits and put together again.\<close>

lemma quot_rem:
  fixes m r d :: nat
  assumes "r < d"
  shows "(m * d + r) div d = m" "(m * d + r) mod d = r"
  using assms by simp_all

lemma digit_bounds:
  fixes x y z :: nat
  assumes "x < 256" "y < 256" "z < 256"
  shows "x div 4 < 64" "(x mod 4) * 16 + y div 16 < 64" "(y mod 16) * 4 + z div 64 < 64"
    "z mod 64 < 64" "(x mod 4) * 16 < 64" "(y mod 16) * 4 < 64"
proof -
  have "x mod 4 < 4" "y mod 16 < 16" by simp_all
  moreover have "y div 16 < 16" "z div 64 < 4" "x div 4 < 64"
    using assms by (simp_all add: less_mult_imp_div_less)
  ultimately show "x div 4 < 64" "(x mod 4) * 16 + y div 16 < 64" "(y mod 16) * 4 + z div 64 < 64"
    "z mod 64 < 64" "(x mod 4) * 16 < 64" "(y mod 16) * 4 < 64"
    by simp_all
qed

lemma digits_join:
  fixes x y z :: nat
  assumes "y < 256" "z < 256"
  shows "(x div 4) * 4 + ((x mod 4) * 16 + y div 16) div 16 = x"
    "(((x mod 4) * 16 + y div 16) mod 16) * 16 + ((y mod 16) * 4 + z div 64) div 4 = y"
    "(((y mod 16) * 4 + z div 64) mod 4) * 64 + z mod 64 = z"
    "(x div 4) * 4 + ((x mod 4) * 16) div 16 = x"
    "(((x mod 4) * 16 + y div 16) mod 16) * 16 + ((y mod 16) * 4) div 4 = y"
proof -
  have b: "y div 16 < 16" "z div 64 < 4" using assms by (simp_all add: less_mult_imp_div_less)
  show "(x div 4) * 4 + ((x mod 4) * 16 + y div 16) div 16 = x"
    "(((x mod 4) * 16 + y div 16) mod 16) * 16 + ((y mod 16) * 4 + z div 64) div 4 = y"
    "(((y mod 16) * 4 + z div 64) mod 4) * 64 + z mod 64 = z"
    "(x div 4) * 4 + ((x mod 4) * 16) div 16 = x"
    "(((x mod 4) * 16 + y div 16) mod 16) * 16 + ((y mod 16) * 4) div 4 = y"
    unfolding quot_rem [OF b(1)] quot_rem [OF b(2)] by simp_all
qed

lemma EncodeToString_clean: "c \<in> set (EncodeToString s) \<Longrightarrow> c \<noteq> CHR 0x0A \<and> c \<noteq> CHR 0x0D"
proof (induction s rule: EncodeToString.induct)
  case (1 a b c' s)
  note d = digit_bounds [OF of_char_lt [of a] of_char_lt [of b] of_char_lt [of c']]
  show ?case using 1 d [THEN b64_char_no_pad] by (auto simp: Let_def)
next
  case (2 a b)
  note d = digit_bounds [OF of_char_lt [of a] of_char_lt [of b] of_char_lt [of b]]
  show ?case using 2 d [THEN b64_char_no_pad] by (auto simp: Let_def)
next
  case (3 a)
  note d = digit_bounds [OF of_char_lt [of a] of_char_lt [of a] of_char_lt [of a]]
  show ?case using 3 d [THEN b64_char_no_pad] by (auto simp: Let_def)
qed simp

lemma decode_encode: "decode_quanta (EncodeToString s) = Some s"
proof (induction s rule: EncodeToString.induct)
  case (1 a b c s)
  note d = digit_bounds [OF of_char_lt [of a] of_char_lt [of b] of_char_lt [of c]]
  note j = digits_join [OF of_char_lt [of b] of_char_lt [of c]]
  show ?case
    using 1 d [THEN b64_char_no_pad] d [THEN b64_val_char] j by (simp add: Let_def)
next
  case (2 a b)
  note d = digit_bounds [OF of_char_lt [of a] of_char_lt [of b] of_char_lt [of b]]
  note j = digits_join [OF of_char_lt [of b] of_char_lt [of b]]
  show ?case
    using d [THEN b64_char_no_pad] d [THEN b64_val_char] j by (simp add: Let_def)
next
  case (3 a)
  note d = digit_bounds [OF of_char_lt [of a] of_char_lt [of a] of_char_lt [of a]]
  note j = digits_join [OF of_char_lt [of a] of_char_lt [of a]]
  show ?case
    using d [THEN b64_char_no_pad] d [THEN b64_val_char] j by (simp add: Let_def)
qed simp

theorem DecodeString_EncodeToString: "DecodeString (EncodeToString s) = Some s"
proof -
  have "filter (\<lambda>c. c \<noteq> CHR 0x0A \<and> c \<noteq> CHR 0x0D) (EncodeToString s) = EncodeToString s"
    using EncodeToString_clean by (auto intro: filter_True)
  then show ?thesis by (simp add: DecodeString_def decode_encode)
qed

end
