(* ===== verification/GoQuote.thy ===== *)
theory GoQuote
  imports GoStrings
begin

text \<open>
  Go's \<open>strconv.Quote\<close> and \<open>strconv.Unquote\<close>, and the round trip between them. Exact for ASCII; a
  byte above 127 is quoted as \<^verbatim>\<open>\xNN\<close>, as Go does outside valid UTF-8, and passes \<open>Unquote\<close> as is.
\<close>

abbreviation bslash :: char where "bslash \<equiv> CHR 0x5C"

section \<open>Hexadecimal digits\<close>

definition hex_char :: "nat \<Rightarrow> char" where
  "hex_char d = (if d < 10 then char_of (48 + d) else char_of (87 + d))"

definition hex_val :: "char \<Rightarrow> nat option" where
  "hex_val c = (let n = of_char c in
     if 48 \<le> n \<and> n \<le> 57 then Some (n - 48)
     else if 97 \<le> n \<and> n \<le> 102 then Some (n - 87)
     else if 65 \<le> n \<and> n \<le> 70 then Some (n - 55) else None)"

lemma hex_val_char: "d < 16 \<Longrightarrow> hex_val (hex_char d) = Some d"
  by (simp add: hex_val_def hex_char_def of_char_of Let_def)

fun hex_digits :: "nat \<Rightarrow> nat \<Rightarrow> string \<Rightarrow> (nat \<times> string) option" where
  "hex_digits 0 acc s = Some (acc, s)"
| "hex_digits (Suc n) acc [] = None"
| "hex_digits (Suc n) acc (c # s) =
     (case hex_val c of None \<Rightarrow> None | Some d \<Rightarrow> hex_digits n (acc * 16 + d) s)"

lemma hex_digits_numeral [simp]:
  "hex_digits (numeral k) acc (c # s) =
     (case hex_val c of None \<Rightarrow> None | Some d \<Rightarrow> hex_digits (pred_numeral k) (acc * 16 + d) s)"
  by (simp add: numeral_eq_Suc)

section \<open>Quote\<close>

definition esc_byte :: "char \<Rightarrow> string" where
  "esc_byte c = (let n = of_char c in
     if c = dquote \<or> c = bslash then [bslash, c]
     else if 32 \<le> n \<and> n \<le> 126 then [c]
     else if n = 7 then [bslash, CHR ''a'']
     else if n = 8 then [bslash, CHR ''b'']
     else if n = 12 then [bslash, CHR ''f'']
     else if n = 10 then [bslash, CHR ''n'']
     else if n = 13 then [bslash, CHR ''r'']
     else if n = 9 then [bslash, CHR ''t'']
     else if n = 11 then [bslash, CHR ''v'']
     else if n = 127 then bslash # ''u007f''
     else [bslash, CHR ''x'', hex_char (n div 16), hex_char (n mod 16)])"

definition Quote :: "string \<Rightarrow> string" where
  "Quote s = dquote # concat (map esc_byte s) @ [dquote]"

section \<open>Unquote\<close>

definition utf8 :: "nat \<Rightarrow> string" where
  "utf8 r =
     (if r < 128 then [char_of r]
      else if r < 2048 then [char_of (192 + r div 64), char_of (128 + r mod 64)]
      else if r < 65536 then
        [char_of (224 + r div 4096), char_of (128 + (r div 64) mod 64), char_of (128 + r mod 64)]
      else [char_of (240 + r div 262144), char_of (128 + (r div 4096) mod 64),
            char_of (128 + (r div 64) mod 64), char_of (128 + r mod 64)])"

definition oct_val :: "char \<Rightarrow> nat option" where
  "oct_val c = (let n = of_char c in if 48 \<le> n \<and> n \<le> 55 then Some (n - 48) else None)"

definition unq_octal :: "string \<Rightarrow> (string \<times> string) option" where
  "unq_octal s = (case s of
     a # b # c # t \<Rightarrow>
       (case (oct_val a, oct_val b, oct_val c) of
          (Some x, Some y, Some z) \<Rightarrow>
             if x * 64 + y * 8 + z > 255 then None else Some ([char_of (x * 64 + y * 8 + z)], t)
        | _ \<Rightarrow> None)
   | _ \<Rightarrow> None)"

definition unq_hex :: "nat \<Rightarrow> string \<Rightarrow> (string \<times> string) option" where
  "unq_hex k t = (case hex_digits k 0 t of
     None \<Rightarrow> None
   | Some (v, r) \<Rightarrow> if k = 2 then Some ([char_of v], r)
                   else if v > 1114111 then None else Some (utf8 v, r))"

text \<open>\<open>UnquoteChar\<close>: the bytes the first character stands for and the rest of the text.\<close>

definition unq_char :: "char \<Rightarrow> string \<Rightarrow> (string \<times> string) option" where
  "unq_char q s = (case s of
     [] \<Rightarrow> None
   | c # t \<Rightarrow>
      if c = q \<and> (q = dquote \<or> q = CHR 0x27) then None
      else if c \<noteq> bslash then Some ([c], t)
      else (case t of
        [] \<Rightarrow> None
      | e # r \<Rightarrow>
         if e = CHR ''a'' then Some ([CHR 0x07], r)
         else if e = CHR ''b'' then Some ([CHR 0x08], r)
         else if e = CHR ''f'' then Some ([CHR 0x0C], r)
         else if e = CHR ''n'' then Some ([CHR 0x0A], r)
         else if e = CHR ''r'' then Some ([CHR 0x0D], r)
         else if e = CHR ''t'' then Some ([CHR 0x09], r)
         else if e = CHR ''v'' then Some ([CHR 0x0B], r)
         else if e = CHR ''x'' then unq_hex 2 r
         else if e = CHR ''u'' then unq_hex 4 r
         else if e = CHR ''U'' then unq_hex 8 r
         else if oct_val e \<noteq> None then unq_octal t
         else if e = bslash then Some ([bslash], r)
         else if e = dquote \<or> e = CHR 0x27 then (if e = q then Some ([e], r) else None)
         else None))"

lemma hex_digits_shorter: "hex_digits k a s = Some (v, r) \<Longrightarrow> length r \<le> length s"
  by (induction k a s rule: hex_digits.induct) (auto split: option.splits)

lemma unq_char_shorter: "unq_char q s = Some (b, r) \<Longrightarrow> length r < length s"
  by (auto simp: unq_char_def unq_hex_def unq_octal_def
      split: list.splits if_splits option.splits prod.splits dest!: hex_digits_shorter)

function unq_loop :: "char \<Rightarrow> string \<Rightarrow> string option" where
  "unq_loop q s =
     (if s = [] then Some []
      else case unq_char q s of
        None \<Rightarrow> None
      | Some (b, r) \<Rightarrow>
          if q = CHR 0x27 \<and> r \<noteq> [] then None
          else (case unq_loop q r of None \<Rightarrow> None | Some t \<Rightarrow> Some (b @ t)))"
  by pat_completeness auto
termination
  by (relation "measure (\<lambda>(q, s). length s)") (auto dest: unq_char_shorter)

declare unq_loop.simps [simp del]

definition Unquote :: "string \<Rightarrow> string option" where
  "Unquote s =
     (if length s < 2 \<or> hd s \<noteq> last s then None
      else let q = hd s; body = butlast (tl s) in
        if q = CHR 0x60 then
          (if CHR 0x60 \<in> set body then None else Some (filter (\<lambda>c. c \<noteq> CHR 0x0D) body))
        else if q \<noteq> dquote \<and> q \<noteq> CHR 0x27 then None
        else if newline \<in> set body then None
        else unq_loop q body)"

lemmas quote_defs [go_eval] = hex_char_def hex_val_def esc_byte_def Quote_def Unquote_def
  unq_char_def unq_hex_def unq_octal_def oct_val_def utf8_def

section \<open>Round trip\<close>

lemma of_char_bound: "(of_char c :: nat) < 256"
  by (cases c) simp

lemma char_eqI: "(of_char c :: nat) = of_char d \<Longrightarrow> c = d"
  by simp

lemma char_of_127: "char_of (127 :: nat) = CHR 0x7F"
  by (rule char_eqI) (simp add: of_char_of)

lemma unq_esc_byte: "unq_char dquote (esc_byte c @ s) = Some ([c], s)"
proof -
  let ?n = "of_char c :: nat"
  consider "c = dquote \<or> c = bslash" | "c \<noteq> dquote" "c \<noteq> bslash" "32 \<le> ?n" "?n \<le> 126"
    | "?n \<in> {7, 8, 9, 10, 11, 12, 13, 127}"
    | "?n < 32 \<or> 127 < ?n" "?n \<notin> {7, 8, 9, 10, 11, 12, 13, 127}"
    by fastforce
  then show ?thesis
  proof cases
    case 1
    then show ?thesis by (auto simp: esc_byte_def unq_char_def oct_val_def)
  next
    case 2
    then show ?thesis by (simp add: esc_byte_def unq_char_def Let_def)
  next
    case 3
    then have "c \<in> {CHR 0x07, CHR 0x08, CHR 0x09, CHR 0x0A, CHR 0x0B, CHR 0x0C, CHR 0x0D, CHR 0x7F}"
    proof -
      have "?n = 7 \<Longrightarrow> c = CHR 0x07" "?n = 8 \<Longrightarrow> c = CHR 0x08" "?n = 9 \<Longrightarrow> c = CHR 0x09"
        "?n = 10 \<Longrightarrow> c = CHR 0x0A" "?n = 11 \<Longrightarrow> c = CHR 0x0B" "?n = 12 \<Longrightarrow> c = CHR 0x0C"
        "?n = 13 \<Longrightarrow> c = CHR 0x0D" "?n = 127 \<Longrightarrow> c = CHR 0x7F"
        by (rule char_eqI, simp)+
      with 3 show ?thesis unfolding insert_iff empty_iff by argo
    qed
    then show ?thesis
      by (elim insertE emptyE) (simp_all add: esc_byte_def unq_char_def unq_hex_def hex_val_def
          utf8_def Let_def char_of_127)
  next
    case 4
    have hi: "?n div 16 < 16" "?n mod 16 < 16"
      using of_char_bound [of c] by (simp_all add: less_mult_imp_div_less)
    have "esc_byte c = [bslash, CHR ''x'', hex_char (?n div 16), hex_char (?n mod 16)]"
      using 4 by (auto simp: esc_byte_def Let_def)
    moreover have "hex_digits 2 0 (hex_char (?n div 16) # hex_char (?n mod 16) # s) = Some (?n, s)"
      using hi by (simp add: hex_val_char)
    ultimately show ?thesis by (simp add: unq_char_def unq_hex_def)
  qed
qed

lemma esc_byte_not_Nil: "esc_byte c \<noteq> []"
  by (simp add: esc_byte_def Let_def)

lemma newline_esc_byte: "newline \<notin> set (esc_byte c)"
proof -
  have "newline \<noteq> hex_char d" if "d < 16" for d
    using that by (auto simp: hex_char_def dest!: arg_cong [where f = "of_char :: char \<Rightarrow> nat"])
  moreover have "(of_char c :: nat) div 16 < 16"
    using of_char_bound [of c] by (simp add: less_mult_imp_div_less)
  ultimately show ?thesis by (auto simp: esc_byte_def Let_def)
qed

lemma unq_loop_esc: "unq_loop dquote (concat (map esc_byte s)) = Some s"
proof (induction s)
  case (Cons c s)
  then show ?case
    by (subst unq_loop.simps) (simp add: unq_esc_byte esc_byte_not_Nil)
qed (simp add: unq_loop.simps)

theorem Unquote_Quote: "Unquote (Quote s) = Some s"
  using newline_esc_byte by (auto simp: Unquote_def Quote_def unq_loop_esc Let_def butlast_append)

lemma newline_Quote: "newline \<notin> set (Quote s)"
  using newline_esc_byte by (auto simp: Quote_def)

end
