(* ===== verification/Util.thy ===== *)
theory Util
  imports GoFiles GoBase64 GoQuote
begin

text \<open>
  \<^verbatim>\<open>pkg/util\<close>: the atomic file write, downloads, scripts and directories (\<^verbatim>\<open>util.go\<close>) and content
  decoding (\<^verbatim>\<open>decode.go\<close>).
\<close>

section \<open>util.go\<close>

definition WriteFileAtomic :: "string \<Rightarrow> string \<Rightarrow> filemode \<Rightarrow> unit os" where
  "WriteFileAtomic filename data perm = do {
     let (dir, file) = path_Split filename;
     t \<leftarrow> TempFile dir (CHR ''.'' # file);
     onok t (\<lambda>(name, h). deferred (os_Remove name) (do {
       r \<leftarrow> fd_Write h data;
       onok r (\<lambda>_. do {
       r \<leftarrow> fd_Close h;
       onok r (\<lambda>_. do {
       r \<leftarrow> os_Chmod name perm;
       onok r (\<lambda>_. os_Rename name filename) }) }) })) }"

definition HTTPDownloadToFile :: "string \<Rightarrow> string \<Rightarrow> unit os" where
  "HTTPDownloadToFile url dest = do {
     res \<leftarrow> http_Get url;
     onok res (\<lambda>res. onok (h_body res) (\<lambda>body. WriteFileAtomic dest body 420)) }"

definition HTTPLoadBytes :: "string \<Rightarrow> string os" where
  "HTTPLoadBytes url = do {
     resp \<leftarrow> http_Get url;
     onok resp (\<lambda>resp.
       if h_code resp \<noteq> 200
       then State_Monad.return (Inl (ErrMsg (''non-200 http response: '' @ Itoa (h_code resp))))
       else State_Monad.return (h_body resp)) }"

text \<open>Any permission bit makes the file count as executable: the mask is \<open>os.ModePerm\<close>.\<close>

definition ExistsAndExecutable :: "string \<Rightarrow> (world, bool) state" where
  "ExistsAndExecutable p = do {
     info \<leftarrow> os_Stat p;
     State_Monad.return (case info of
       Inl _ \<Rightarrow> False
     | Inr fi \<Rightarrow> Perm (goMode (fi_inode fi)) AND 511 \<noteq> 0) }"

text \<open>\<open>Read\<close> into a buffer of two bytes: at end of file (an empty script) it is \<open>io.EOF\<close>; a short
  read leaves zero bytes in the buffer.\<close>

definition RunScript :: "string \<Rightarrow> string list \<Rightarrow> unit os" where
  "RunScript p arg = do {
     ok \<leftarrow> ExistsAndExecutable p;
     if \<not> ok then State_Monad.return (Inr ())
     else do {
       script \<leftarrow> os_ReadFile p;
       onok script (\<lambda>content.
         if content = [] then State_Monad.return (Inl ErrEOF)
         else if take 2 content = ''#!'' then cmd_Run (Command p arg)
         else cmd_Run (Command ''/bin/sh'' [p])) } }"

definition EnsureDirectoryExists :: "string \<Rightarrow> unit os" where
  "EnsureDirectoryExists dir = do {
     info \<leftarrow> os_Stat dir;
     (case info of
        Inr fi \<Rightarrow>
          if \<not> IsDir fi then State_Monad.return (Inl (ErrMsg (dir @ '' is not a directory'')))
          else State_Monad.return (Inr ())
      | Inl _ \<Rightarrow> os_MkdirAll dir 493) }"

section \<open>decode.go\<close>

text \<open>
  \<open>gunzip\<close> stands for \<open>compress/gzip\<close>: the error of \<open>NewReader\<close> on the header, or what reading the
  whole stream gives. Closing the reader, which is deferred, can only repeat the error of reading in the log.
\<close>

definition DecodeBase64Content :: "string \<Rightarrow> goerror + string" where
  "DecodeBase64Content content =
     (case DecodeString content of
        None \<Rightarrow> Inl (ErrMsg ''unable to decode base64'')
      | Some output \<Rightarrow> Inr output)"

definition DecompressGzip :: "(string \<Rightarrow> goerror + (goerror + string)) \<Rightarrow> string \<Rightarrow> goerror + string" where
  "DecompressGzip gunzip content =
     (case gunzip content of
        Inl e \<Rightarrow> Inl (ErrWrap ''unable to decode gzip: '' e)
      | Inr (Inl e) \<Rightarrow> Inl (ErrWrap ''unable to read gzip: '' e)
      | Inr (Inr buf) \<Rightarrow> Inr buf)"

definition DecodeGzipContent :: "(string \<Rightarrow> goerror + (goerror + string)) \<Rightarrow> string \<Rightarrow> goerror + string" where
  "DecodeGzipContent gunzip content = DecompressGzip gunzip content"

definition DecodeContent :: "(string \<Rightarrow> goerror + (goerror + string)) \<Rightarrow> string \<Rightarrow> string \<Rightarrow> goerror + string" where
  "DecodeContent gunzip content encoding =
     (if encoding = [] then Inr content
      else if encoding \<in> {''b64'', ''base64''} then DecodeBase64Content content
      else if encoding \<in> {''gz'', ''gzip''} then DecodeGzipContent gunzip content
      else if encoding \<in> {''gz+base64'', ''gzip+base64'', ''gz+b64'', ''gzip+b64''} then
        (case DecodeBase64Content content of
           Inl e \<Rightarrow> Inl e
         | Inr gz \<Rightarrow> DecodeGzipContent gunzip gz)
      else Inl (ErrMsg (''unsupported encoding '' @ Quote encoding)))"

section \<open>Programs\<close>

lemma program_WriteFileAtomic [program_intros]: "program (WriteFileAtomic f d perm)"
  unfolding WriteFileAtomic_def Let_def by (intro program_intros)

lemma program_HTTPDownloadToFile [program_intros]: "program (HTTPDownloadToFile url dest)"
  unfolding HTTPDownloadToFile_def by (intro program_intros)

lemma program_HTTPLoadBytes [program_intros]: "program (HTTPLoadBytes url)"
  unfolding HTTPLoadBytes_def by (intro program_intros)

lemma program_ExistsAndExecutable [program_intros]: "program (ExistsAndExecutable p)"
  unfolding ExistsAndExecutable_def by (intro program_intros)

lemma program_RunScript [program_intros]: "program (RunScript p arg)"
  unfolding RunScript_def by (intro program_intros)

lemma program_EnsureDirectoryExists [program_intros]: "program (EnsureDirectoryExists d)"
  unfolding EnsureDirectoryExists_def by (intro program_intros)

section \<open>Atomicity of WriteFileAtomic\<close>

text \<open>
  The contract of an atomic writer, under every schedule of failures: the file is either as it was
  or new and complete, no other file changes but one that was not there before, and success means
  the new content is in place.
\<close>

definition replaced :: "fs \<Rightarrow> path \<Rightarrow> string \<Rightarrow> filemode \<Rightarrow> bool" where
  "replaced f p data perm =
     (\<exists>i. fs_get f p = Some i \<and> i_kind i = KReg data \<and> i_mode i = syscallMode perm)"

definition atomic_outcome :: "world \<Rightarrow> path \<Rightarrow> string \<Rightarrow> filemode \<Rightarrow> goerror + unit \<Rightarrow> world \<Rightarrow> bool" where
  "atomic_outcome w p data perm r w' =
     ((\<exists>t. t \<noteq> p \<and> fs_get (w_fs w) t = None \<and>
        (\<forall>q. q \<noteq> p \<longrightarrow> q \<noteq> t \<longrightarrow> fs_get (w_fs w') q = fs_get (w_fs w) q))
      \<and> (fs_get (w_fs w') p = fs_get (w_fs w) p \<or> replaced (w_fs w') p data perm)
      \<and> (is_ok r \<longrightarrow> replaced (w_fs w') p data perm))"

locale atomic_writer =
  fixes wr :: "string \<Rightarrow> string \<Rightarrow> filemode \<Rightarrow> unit os"
  assumes wr_program: "program (wr s data perm)"
    and wr_atomic: "wf_world w \<Longrightarrow> good_rand w \<Longrightarrow> direct (w_fs w) p \<Longrightarrow>
      wp (wr (abs_path p) data perm) (atomic_outcome w p data perm) w"
begin

text \<open>A reader that comes after finds the old content or the new, never a part.\<close>

lemma never_torn:
  assumes "wf_world w" "good_rand w" "direct (w_fs w) p"
    and "run_state (wr (abs_path p) data perm) w = (r, w')"
    and "fs_get (w_fs w') p = Some i" "i_kind i = KReg c"
  shows "c = data \<or> fs_get (w_fs w) p = Some i"
  using wpD [OF wr_atomic [OF assms(1-3)] assms(4)] assms(5,6)
  by (auto simp: atomic_outcome_def replaced_def)

lemma outcome:
  assumes "wf_world w" "good_rand w" "direct (w_fs w) p"
    and "run_state (wr (abs_path p) data perm) w = (r, w')"
  shows "(fs_get (w_fs w') p = fs_get (w_fs w) p \<or> replaced (w_fs w') p data perm)
    \<and> (is_ok r \<longrightarrow> replaced (w_fs w') p data perm)"
  using wpD [OF wr_atomic [OF assms(1-3)] assms(4)] unfolding atomic_outcome_def by blast

lemma others_untouched:
  assumes "wf_world w" "good_rand w" "direct (w_fs w) p"
    and "run_state (wr (abs_path p) data perm) w = (r, w')"
    and "q \<noteq> p" "fs_get (w_fs w) q = Some i"
  shows "fs_get (w_fs w') q = Some i"
proof -
  obtain t where t: "fs_get (w_fs w) t = None"
    "\<And>q. q \<noteq> p \<Longrightarrow> q \<noteq> t \<Longrightarrow> fs_get (w_fs w') q = fs_get (w_fs w) q"
    using wpD [OF wr_atomic [OF assms(1-3)] assms(4)] by (auto simp: atomic_outcome_def)
  show ?thesis using t(2) [OF assms(5)] t(1) assms(6) by (cases "q = t") auto
qed

end


text \<open>The state between the creation of the temporary file and its removal or renaming.\<close>

definition staged :: "fs \<Rightarrow> path \<Rightarrow> (inode \<Rightarrow> bool) \<Rightarrow> fs \<Rightarrow> bool" where
  "staged f t P g =
     (wf_fs g \<and> (\<forall>q. q \<noteq> t \<longrightarrow> fs_get g q = fs_get f q)
      \<and> (\<exists>i c. fs_get g t = Some i \<and> i_kind i = KReg c \<and> P i))"

lemma staged_mono: "staged f t P g \<Longrightarrow> (\<And>i. P i \<Longrightarrow> Q i) \<Longrightarrow> staged f t Q g"
  unfolding staged_def by blast

lemma staged_put:
  "staged f t P g \<Longrightarrow> fs_get g t = Some i \<Longrightarrow> (P i \<Longrightarrow> i_kind j = KReg c \<and> Q j) \<Longrightarrow> staged f t Q (fs_put t j g)"
  unfolding staged_def by (auto intro!: wf_fs_change)

lemma staged_append:
  assumes "staged f t (\<lambda>i. i_kind i = KReg d) g"
  shows "staged f t (\<lambda>i. i_kind i = KReg (d @ e)) (append_file t e g)"
proof -
  obtain i where i: "fs_get g t = Some i" "i_kind i = KReg d"
    using assms by (auto simp: staged_def)
  show ?thesis
    unfolding append_file_def using i by (auto intro: staged_put [OF assms])
qed

lemma staged_new:
  assumes "wf_fs f" "fs_get f t = None" "t \<noteq> []" "is_dir f (butlast t)" "i_kind i = KReg c" "P i"
  shows "staged f t P (fs_put t i f)"
  using wf_fs_new [OF assms(1,2), of i] assms by (auto simp: staged_def new_inode_def)

lemma staged_dirs: "staged f t P g \<Longrightarrow> fs_get f t = None \<Longrightarrow> direct f q \<Longrightarrow> direct g q"
proof (erule direct_mono)
  fix r
  assume "staged f t P g" "fs_get f t = None" "is_dir f r"
  then show "is_dir g r" by (cases "r = t") (auto simp: staged_def is_dir_def)
qed

lemma outcome_failed:
  assumes "t \<noteq> p" "fs_get (w_fs w) t = None" "\<And>q. q \<noteq> t \<Longrightarrow> fs_get (w_fs w') q = fs_get (w_fs w) q"
  shows "atomic_outcome w p data perm (Inl e) w'"
  using assms unfolding atomic_outcome_def by auto

text \<open>Removing what is left of the temporary file ends every branch.\<close>

lemma staged_remove:
  assumes "staged (w_fs w) t P (w_fs v)" "fs_get (w_fs w) t = None" "direct (w_fs w) t" "t \<noteq> p"
  shows "wp (os_Remove (abs_path t)) (\<lambda>_. atomic_outcome w p data perm (Inl e)) v"
proof (rule wp_os_Remove)
  fix e'
  show "atomic_outcome w p data perm (Inl e) (tick v)"
    using assms by (intro outcome_failed [of t]) (auto simp: staged_def)
next
  fix q
  have "resolve v False (abs_path t) = Inr t"
    using staged_dirs [OF assms(1,2,3)] by (intro resolve_abs) simp_all
  moreover assume "resolve v False (abs_path t) = Inr q"
  ultimately show "atomic_outcome w p data perm (Inl e) ((tick v)\<lparr>w_fs := fs_del q (w_fs v)\<rparr>)"
    using assms by (intro outcome_failed [of t]) (auto simp: staged_def delete_conv')
qed

lemma replaced_rename:
  assumes "staged f t (\<lambda>i. i_kind i = KReg data \<and> i_mode i = syscallMode perm) g" "t \<noteq> p"
    "rename_inodes t p g = Inr h"
  shows "replaced h p data perm" "\<And>q. q \<noteq> p \<Longrightarrow> q \<noteq> t \<Longrightarrow> fs_get h q = fs_get f q" "fs_get h t = None"
proof -
  obtain i where i: "fs_get g t = Some i" "i_kind i = KReg data" "i_mode i = syscallMode perm" "wf_fs g"
    using assms(1) by (auto simp: staged_def)
  have get: "fs_get h q = (if q = p then Some i else if q = t then None else fs_get g q)" for q
    by (rule rename_file [OF i(4,1) _ assms(2,3)]) (simp add: i)
  show "replaced h p data perm" using get i by (auto simp: replaced_def)
  show "fs_get h t = None" using get assms(2) by simp
  show "q \<noteq> p \<Longrightarrow> q \<noteq> t \<Longrightarrow> fs_get h q = fs_get f q" for q
    using get assms(1) by (simp add: staged_def)
qed

lemma direct_after_rename:
  assumes "direct f t" "direct f p" "butlast t = butlast p"
    and "\<And>q. q \<noteq> p \<Longrightarrow> q \<noteq> t \<Longrightarrow> fs_get h q = fs_get f q"
  shows "direct h t"
proof -
  have ne: "t \<noteq> []" "p \<noteq> []" using assms(1,2) by (simp_all add: direct_def)
  then have l: "length t = length p" using assms(3) by (metis One_nat_def Suc_pred length_butlast length_greater_0_conv)
  have "is_dir h (take k t)" if "k < length t" for k
  proof -
    have "take k t \<noteq> t" "take k t \<noteq> p" using that l by (metis length_take less_irrefl min.absorb4)+
    then show ?thesis using assms(1,4) that by (simp add: direct_def is_dir_def)
  qed
  then show ?thesis using assms(1) by (simp add: direct_def)
qed

lemma rename_staged_outcome:
  assumes s': "staged (w_fs w) t (\<lambda>i. i_kind i = KReg data \<and> i_mode i = syscallMode perm) (w_fs v')"
    and n: "fs_get (w_fs w) t = None" and d: "direct (w_fs w) t" "direct (w_fs w) p"
    and tp: "t \<noteq> p" "butlast t = butlast p"
  shows "wp (os_Rename (abs_path t) (abs_path p))
    (\<lambda>r. wp (os_Remove (abs_path t)) (\<lambda>_. atomic_outcome w p data perm r)) v'"
proof -
  note rm = staged_remove [OF _ n d(1) tp(1)]
  show ?thesis
  proof (rule wp_os_Rename)
    have r: "resolve v' False (abs_path t) = Inr t" "resolve v' False (abs_path p) = Inr p"
      using staged_dirs [OF s' n] d by (auto intro: resolve_abs)
    fix a b f
    assume "resolve v' False (abs_path t) = Inr a" "resolve v' False (abs_path p) = Inr b"
      "rename_inodes a b (w_fs v') = Inr f"
    then have "rename_inodes t p (w_fs v') = Inr f" using r by simp
    note h = replaced_rename [OF s' tp(1) this]
    let ?v = "(tick v')\<lparr>w_fs := f\<rparr>"
    have fin: "g = f \<Longrightarrow> atomic_outcome w p data perm (Inr ()) (u\<lparr>w_fs := g\<rparr>)" for g u
      using h n tp(1) by (auto simp: atomic_outcome_def intro!: exI [of _ t])
    have "resolve ?v False (abs_path t) = Inr t"
      using direct_after_rename [OF d tp(2) h(2)] by (intro resolve_abs) simp_all
    then show "wp (os_Remove (abs_path t)) (\<lambda>_. atomic_outcome w p data perm (Inr ())) ?v"
      using fin [of f "tick ?v"] h(3) by (intro wp_os_Remove) (simp_all add: tick_fs)
  next
    fix e
    show "wp (os_Remove (abs_path t)) (\<lambda>_. atomic_outcome w p data perm (Inl e)) (tick v')"
      by (rule rm) (simp, rule s')
  qed
qed

lemma chmod_staged_outcome:
  assumes s': "staged (w_fs w) t (\<lambda>i. i_kind i = KReg data) (w_fs v')"
    and n: "fs_get (w_fs w) t = None" and d: "direct (w_fs w) t" "direct (w_fs w) p"
    and tp: "t \<noteq> p" "butlast t = butlast p"
  shows "wp (os_Chmod (abs_path t) perm)
    (\<lambda>r. wp (onok r (\<lambda>_. os_Rename (abs_path t) (abs_path p)))
      (\<lambda>r. wp (os_Remove (abs_path t)) (\<lambda>_. atomic_outcome w p data perm r))) v'"
proof -
  note rm = staged_remove [OF _ n d(1) tp(1)]
  show ?thesis
  proof (rule wp_os_Chmod)
    fix a i
    have "resolve v' True (abs_path t) = Inr t"
      using staged_dirs [OF s' n] d s' by (intro resolve_abs) (auto simp: staged_def)
    moreover assume "resolve v' True (abs_path t) = Inr a" "fs_get (w_fs v') a = Some i"
    ultimately show "wp (onok (Inr ()) (\<lambda>_. os_Rename (abs_path t) (abs_path p)))
        (\<lambda>r. wp (os_Remove (abs_path t)) (\<lambda>_. atomic_outcome w p data perm r))
        ((tick v')\<lparr>w_fs := fs_put a (i\<lparr>i_mode := syscallMode perm\<rparr>) (w_fs v')\<rparr>)"
      using staged_put [OF s'] rename_staged_outcome [OF _ n d tp] by simp
  next
    fix e
    show "wp (onok (Inl e) (\<lambda>_. os_Rename (abs_path t) (abs_path p)))
        (\<lambda>r. wp (os_Remove (abs_path t)) (\<lambda>_. atomic_outcome w p data perm r)) (tick v')"
      unfolding onok_simps wp_return by (rule rm) (simp, rule s')
  qed
qed

lemma WriteFileAtomic_staged:
  assumes s: "staged (w_fs w) t (\<lambda>i. i_kind i = KReg []) (w_fs v)" and n: "fs_get (w_fs w) t = None"
    and d: "direct (w_fs w) t" "direct (w_fs w) p" and tp: "t \<noteq> p" "butlast t = butlast p"
  shows "wp (deferred (os_Remove (abs_path t)) (do {
       r \<leftarrow> fd_Write t data;
       onok r (\<lambda>_. do {
       r \<leftarrow> fd_Close t;
       onok r (\<lambda>_. do {
       r \<leftarrow> os_Chmod (abs_path t) perm;
       onok r (\<lambda>_. os_Rename (abs_path t) (abs_path p)) }) }) }))
    (atomic_outcome w p data perm) v"
proof -
  note rm = staged_remove [OF _ n d(1) \<open>t \<noteq> p\<close>]
  show ?thesis
    unfolding wp_deferred wp_bind
  proof (rule wp_fd_Write)
    fix e k
    show "wp (onok (Inl e) (\<lambda>_. fd_Close t \<bind> (\<lambda>r. onok r (\<lambda>_. os_Chmod (abs_path t) perm \<bind>
        (\<lambda>r. onok r (\<lambda>_. os_Rename (abs_path t) (abs_path p)))))))
      (\<lambda>r. wp (os_Remove (abs_path t)) (\<lambda>_. atomic_outcome w p data perm r))
      ((tick v)\<lparr>w_fs := append_file t (take k data) (w_fs v)\<rparr>)"
      unfolding onok_simps wp_return by (rule rm) (simp, rule staged_append [OF s])
  next
    have s': "staged (w_fs w) t (\<lambda>i. i_kind i = KReg data) (append_file t data (w_fs v))"
      using staged_append [OF s] by simp
    show "wp (onok (Inr ()) (\<lambda>_. fd_Close t \<bind> (\<lambda>r. onok r (\<lambda>_. os_Chmod (abs_path t) perm \<bind>
        (\<lambda>r. onok r (\<lambda>_. os_Rename (abs_path t) (abs_path p)))))))
      (\<lambda>r. wp (os_Remove (abs_path t)) (\<lambda>_. atomic_outcome w p data perm r))
      ((tick v)\<lparr>w_fs := append_file t data (w_fs v)\<rparr>)"
      unfolding onok_simps wp_bind
    proof (rule wp_fd_Close)
      fix r
      show "wp (onok r (\<lambda>_. os_Chmod (abs_path t) perm \<bind> (\<lambda>r. onok r (\<lambda>_. os_Rename (abs_path t) (abs_path p)))))
        (\<lambda>r. wp (os_Remove (abs_path t)) (\<lambda>_. atomic_outcome w p data perm r))
        (tick ((tick v)\<lparr>w_fs := append_file t data (w_fs v)\<rparr>))"
      proof (cases r)
        case (Inl e)
        show ?thesis unfolding Inl onok_simps wp_return by (rule rm) (simp, rule s')
      next
        case (Inr u)
        show ?thesis unfolding Inr onok_simps wp_bind by (rule chmod_staged_outcome [OF _ n d tp]) (simp, rule s')
      qed
    qed
  qed
qed

text \<open>A temporary file: a new, empty, regular file with a plain name in the directory asked for.\<close>

lemma wp_TempFile:
  assumes wf: "wf_fs (w_fs w)" and gr: "good_rand w" and d: "direct (w_fs w) (d @ [x])"
    and dir: "dir \<noteq> []" "\<And>e. plain e \<Longrightarrow> path_Join [dir, e] = abs_path (d @ [e])"
    and pat: "slash \<notin> set pat" "pattern_split pat = (a, b)"
    and bad: "\<And>e v. w_fs v = w_fs w \<Longrightarrow> Q (Inl e) v"
    and good: "\<And>rnd t v. t = d @ [a @ rnd @ b] \<Longrightarrow> rnd \<noteq> [] \<Longrightarrow> plain (a @ rnd @ b) \<Longrightarrow>
      fs_get (w_fs w) t = None \<Longrightarrow> direct (w_fs w) t \<Longrightarrow>
      staged (w_fs w) t (\<lambda>i. i_kind i = KReg []) (w_fs v) \<Longrightarrow> w_exec v = w_exec w \<Longrightarrow>
      Q (Inr (abs_path t, t)) v"
  shows "wp (TempFile dir pat) Q w"
proof -
  let ?I = "\<lambda>v :: world. w_fs v = w_fs w \<and> w_rand v = w_rand w \<and> w_exec v = w_exec w"
  let ?mk = "\<lambda>(v :: world) s t (v' :: world). resolve v False s = Inr t \<and> fs_get (w_fs v) t = None \<and>
      t \<noteq> [] \<and> is_dir (w_fs v) (butlast t) \<and>
      v' = (tick v)\<lparr>w_fs := fs_put t \<lparr>i_kind = KReg [], i_mode = 384 AND NOT (w_umask v),
                            i_uid = w_uid v, i_gid = w_uid v\<rparr> (w_fs v)\<rparr>"
  have "wp (temp_loop os_OpenExcl dir (a, b) 10000) Q w"
  proof (rule wp_temp_loop [where mkpost = ?mk and I = ?I])
    fix s and v :: world and R :: "goerror + path \<Rightarrow> world \<Rightarrow> bool"
    assume "\<And>e. R (Inl e) (tick v)" "\<And>a v'. ?mk v s a v' \<Longrightarrow> R (Inr a) v'"
    then show "wp (os_OpenExcl s) R v" by (intro wp_os_OpenExcl) auto
  next
    fix v :: world and rnd k t v'
    assume v: "?I v" and rnd: "rnd = w_rand v k" and mk: "?mk v (path_Join [dir, fst (a, b) @ rnd @ snd (a, b)]) t v'"
    let ?t = "d @ [a @ rnd @ b]"
    have r: "rnd \<noteq> []" "\<forall>c \<in> set rnd. is_digit c" using gr v rnd by (auto simp: good_rand_def)
    have plt: "plain (a @ rnd @ b)" by (rule temp_name_plain [OF pat(2,1) r])
    have nm: "path_Join [dir, fst (a, b) @ rnd @ snd (a, b)] = abs_path ?t" using dir(2) [OF plt] by simp
    have dt: "direct (w_fs w) ?t" using direct_sibling [OF d plt] by simp
    have "resolve v False (abs_path ?t) = Inr ?t" using dt v by (intro resolve_abs) simp_all
    then have t: "t = ?t" using mk nm by simp
    have st: "staged (w_fs w) t (\<lambda>i. i_kind i = KReg []) (w_fs v')"
      using mk v wf by (auto intro!: staged_new)
    show "Q (Inr (path_Join [dir, fst (a, b) @ rnd @ snd (a, b)], t)) v'"
      unfolding nm t by (rule good [OF refl r(1) plt]) (use st dt t mk v in auto)
  qed (auto intro: bad)
  then show ?thesis using dir(1) pat(2) by (simp add: TempFile_def temp_dir_def)
qed

lemma fresh_path: "\<exists>t. t \<noteq> p \<and> fs_get f t = None"
proof -
  have "\<exists>t. t \<notin> insert p (dom (fs_get f))"
    by (rule ex_new_if_finite) (simp_all add: infinite_UNIV_listI finite_dom_map_of)
  then show ?thesis by auto
qed

lemma outcome_same: "w_fs v = w_fs w \<Longrightarrow> atomic_outcome w p data perm (Inl e) v"
  using fresh_path [of p "w_fs w"] by (auto intro: outcome_failed)

lemma WriteFileAtomic_atomic:
  assumes "wf_world w" "good_rand w" "direct (w_fs w) p"
  shows "wp (WriteFileAtomic (abs_path p) data perm) (atomic_outcome w p data perm) w"
proof -
  let ?pat = "CHR ''.'' # last p"
  have pl: "p \<noteq> []" "\<forall>c \<in> set p. plain c" using assms(3) by (auto simp: direct_def)
  then have pd: "\<forall>c \<in> set (butlast p). plain c" and ns: "slash \<notin> set ?pat"
    by (auto dest: in_set_butlastD simp: plain_def)
  obtain a b where ab: "pattern_split ?pat = (a, b)" by fastforce
  show ?thesis
    unfolding WriteFileAtomic_def Let_def path_Split_abs [OF pl] prod.case wp_bind [of "TempFile _ _"]
  proof (rule wp_TempFile [OF _ assms(2) _ _ path_Join_temp [OF pd] ns ab])
    fix rnd t and v :: world
    assume t: "t = butlast p @ [a @ rnd @ b]" "rnd \<noteq> []" "fs_get (w_fs w) t = None" "direct (w_fs w) t"
      "staged (w_fs w) t (\<lambda>i. i_kind i = KReg []) (w_fs v)"
    have "length (last p) < length (a @ rnd @ b)"
      using pattern_split_length [OF ab] t(2) by (cases rnd) simp_all
    then have tp: "t \<noteq> p" "butlast t = butlast p" using pl(1) t(1) by (auto simp: snoc_eq_iff_butlast)
    show "wp (onok (Inr (abs_path t, t)) (\<lambda>(name, h). deferred (os_Remove name) (do {
       r \<leftarrow> fd_Write h data;
       onok r (\<lambda>_. do {
       r \<leftarrow> fd_Close h;
       onok r (\<lambda>_. do {
       r \<leftarrow> os_Chmod name perm;
       onok r (\<lambda>_. os_Rename name (abs_path p)) }) }) }))) (atomic_outcome w p data perm) v"
      unfolding onok_simps prod.case
      by (rule WriteFileAtomic_staged) (use t tp assms(3) in auto)
  next
    show "direct (w_fs w) (butlast p @ [last p])" using assms(3) pl(1) by simp
  qed (use assms(1) in \<open>auto simp: wf_world_def outcome_same\<close>)
qed

interpretation wfa: atomic_writer WriteFileAtomic
  by unfold_locales (auto intro: program_WriteFileAtomic WriteFileAtomic_atomic)

text \<open>Without faults and with the temporary name free, the write goes through.\<close>

lemma staged_body_ok:
  assumes s: "staged f t (\<lambda>i. i_kind i = KReg []) (w_fs v)" and n: "fs_get f t = None"
    and d: "direct f t" "direct f p" and tp: "t \<noteq> p" and ff: "fault_free v" and nd: "\<not> is_dir f p"
  shows "wp (do {
       r \<leftarrow> fd_Write t data;
       onok r (\<lambda>_. do {
       r \<leftarrow> fd_Close t;
       onok r (\<lambda>_. do {
       r \<leftarrow> os_Chmod (abs_path t) perm;
       onok r (\<lambda>_. os_Rename (abs_path t) (abs_path p)) }) }) }) (\<lambda>r _. is_ok r) v"
proof -
  let ?v1 = "tick ((tick v)\<lparr>w_fs := append_file t data (w_fs v)\<rparr>)"
  have s1: "staged f t (\<lambda>i. i_kind i = KReg data) (w_fs ?v1)" using staged_append [OF s] by simp
  then obtain i where i: "fs_get (w_fs ?v1) t = Some i" "i_kind i = KReg data"
    by (auto simp: staged_def)
  have r1: "resolve ?v1 True (abs_path t) = Inr t"
    using staged_dirs [OF s1 n d(1)] i by (intro resolve_abs) auto
  let ?v2 = "(tick ?v1)\<lparr>w_fs := fs_put t (i\<lparr>i_mode := syscallMode perm\<rparr>) (w_fs ?v1)\<rparr>"
  have s2: "staged f t (\<lambda>i. i_kind i = KReg data) (w_fs ?v2)" using staged_put [OF s1 i(1)] i by simp
  have r2: "resolve ?v2 False (abs_path t) = Inr t" "resolve ?v2 False (abs_path p) = Inr p"
    using staged_dirs [OF s2 n] d by (auto intro!: resolve_abs)
  have dp: "fs_get (w_fs ?v2) p = fs_get f p" and wf2: "wf_fs (w_fs ?v2)" 
    using s2 tp by (simp_all add: staged_def)
  have par: "is_dir (w_fs ?v2) (butlast p)" using direct_butlast [OF staged_dirs [OF s2 n d(2)]] .
  have "\<not> prefix t p"
  proof
    assume "prefix t p"
    then obtain z where "p = t @ z" "z \<noteq> []" using tp by (auto simp: prefix_def)
    then have "is_dir f t" using d(2) by (auto simp: direct_def dest!: spec [of _ "length t"])
    then show False using n by (simp add: is_dir_def)
  qed
  moreover have "\<not> is_dir (w_fs ?v2) p" using nd dp by (simp add: is_dir_def)
  moreover obtain j where j: "fs_get (w_fs ?v2) t = Some j" "i_kind j \<noteq> KDir"
    using s2 by (auto simp: staged_def)
  ultimately have "\<exists>g. rename_inodes t p (w_fs ?v2) = Inr g"
    using tp par d by (auto simp: rename_inodes_def direct_def is_dir_def split: option.splits)
  then obtain g where g: "rename_inodes t p (w_fs ?v2) = Inr g" by blast
  have "\<not> is_dir (w_fs ?v2) p" using nd dp by (simp add: is_dir_def)
  then have ren: "wp (os_Rename (abs_path t) (abs_path p)) (\<lambda>r _. is_ok r) ?v2"
    using wp_os_Rename_calm [OF _ r2 _ g] ff by simp
  have "wp (os_Chmod (abs_path t) perm)
      (\<lambda>r. wp (onok r (\<lambda>_. os_Rename (abs_path t) (abs_path p))) (\<lambda>r _. is_ok r)) ?v1"
    unfolding os_Chmod_def using ff r1 i ren
    by (simp add: wp_fs_call_calm path_cases)
  then show ?thesis using ff by (simp add: wp_fd_Write_calm wp_fd_Close_calm)
qed

lemma temp_loop_free:
  assumes "wp (mk (path_Join [dir, fst ps @ w_rand v (w_randno v) @ snd ps]))
      (\<lambda>r v'. \<exists>a. r = Inr a \<and> Q (Inr (path_Join [dir, fst ps @ w_rand v (w_randno v) @ snd ps], a)) v')
      (v\<lparr>w_randno := Suc (w_randno v)\<rparr>)"
  shows "wp (temp_loop mk dir ps (Suc n)) Q v"
  using assms
  by (auto simp: next_random_def Let_def wp_def split: prod.splits)

lemma wp_os_OpenExcl_free:
  assumes "fault_free w" "direct (w_fs w) t" "fs_get (w_fs w) t = None"
    and "Q (Inr t) ((tick w)\<lparr>w_fs := fs_put t \<lparr>i_kind = KReg [], i_mode = 384 AND NOT (w_umask w),
                            i_uid = w_uid w, i_gid = w_uid w\<rparr> (w_fs w)\<rparr>)"
  shows "wp (os_OpenExcl (abs_path t)) Q w"
proof -
  have "resolve w False (abs_path t) = Inr t" using assms(2) by (intro resolve_abs) simp_all
  moreover have "t \<noteq> []" "is_dir (w_fs w) (butlast t)"
    using assms(2) by (simp_all add: direct_butlast) (simp add: direct_def)
  ultimately show ?thesis
    using assms by (simp add: os_OpenExcl_def wp_fs_call_calm with_path_def new_inode_def)
qed

lemma wp_is_ok_deferred:
  "wp m (\<lambda>r _. is_ok r) v \<Longrightarrow> wp (deferred d m) (\<lambda>r _. is_ok r) v"
  by (auto simp: deferred_def wp_def split: prod.splits)

lemma WriteFileAtomic_calm:
  assumes ff: "fault_free w" and wf: "wf_world w" and gr: "good_rand w" and d: "direct (w_fs w) p"
    and nd: "\<not> is_dir (w_fs w) p" and star: "CHR ''*'' \<notin> set (last p)"
    and free: "\<And>c. fs_get (w_fs w) (butlast p @ [(CHR ''.'' # last p) @ c]) = None"
  shows "wp (WriteFileAtomic (abs_path p) data perm) (\<lambda>r _. is_ok r) w"
proof -
  let ?rnd = "w_rand w (w_randno w)"
  let ?t = "butlast p @ [(CHR ''.'' # last p) @ ?rnd]"
  let ?dir = "slash # concat (map (\<lambda>c. c @ [slash]) (butlast p))"
  have pl: "p \<noteq> []" "\<forall>c \<in> set p. plain c" using d by (auto simp: direct_def)
  then have pd: "\<forall>c \<in> set (butlast p). plain c" and ns: "slash \<notin> set (CHR ''.'' # last p)"
    by (auto dest: in_set_butlastD simp: plain_def)
  have ps: "pattern_split (CHR ''.'' # last p) = (CHR ''.'' # last p, [])"
    using star by (simp add: pattern_split_def)
  have r: "?rnd \<noteq> []" "\<forall>c \<in> set ?rnd. is_digit c" using gr by (auto simp: good_rand_def)
  then have plt: "plain ((CHR ''.'' # last p) @ ?rnd)" using temp_name_plain [OF ps ns] by simp
  have nm: "path_Join [?dir, (CHR ''.'' # last p) @ ?rnd] = abs_path ?t" by (rule path_Join_temp [OF pd plt])
  have dt: "direct (w_fs w) ?t" using direct_sibling [OF d plt] .
  have tp: "?t \<noteq> p" using pl(1) by (auto simp: snoc_eq_iff_butlast dest: arg_cong [of _ _ length])
  let ?v = "w\<lparr>w_randno := Suc (w_randno w)\<rparr>"
  let ?v' = "(tick ?v)\<lparr>w_fs := fs_put ?t \<lparr>i_kind = KReg [], i_mode = 384 AND NOT (w_umask w),
                            i_uid = w_uid w, i_gid = w_uid w\<rparr> (w_fs w)\<rparr>"
  have st: "staged (w_fs w) ?t (\<lambda>i. i_kind i = KReg []) (w_fs ?v')"
    using wf free direct_butlast [OF dt] by (auto simp: wf_world_def intro!: staged_new)
  have "fault_free ?v'" using ff by simp
  note body = staged_body_ok [OF st free dt d tp this nd, of data perm]
  have opn: "wp (os_OpenExcl (abs_path ?t)) Q ?v" if "Q (Inr ?t) ?v'" for Q
    by (rule wp_os_OpenExcl_free) (use ff dt free that in simp_all)
  have ten: "10000 = Suc 9999" by simp
  have td: "temp_dir ?dir = ?dir" by (simp add: temp_dir_def)
  show ?thesis
    unfolding WriteFileAtomic_def TempFile_def Let_def path_Split_abs [OF pl] prod.case ps wp_bind ten td
    apply (rule temp_loop_free)
    apply (unfold fst_conv snd_conv append_Nil2 nm)
    apply (rule opn, intro exI conjI, rule refl)
    apply (unfold onok_simps prod.case)
    apply (rule wp_is_ok_deferred [OF body])
    done
qed

section \<open>Properties\<close>

text \<open>
  C1. \<open>WriteFileAtomic\<close> is atomic under every schedule of failing system calls: the file it writes
  keeps its old inode or is the complete new file with its mode, success means the new file is in
  place, and no other existing file is touched.
\<close>

theorem WriteFileAtomic_all_or_nothing:
  assumes "wf_world w" "good_rand w" "direct (w_fs w) p"
    and "run_state (WriteFileAtomic (abs_path p) data perm) w = (r, w')"
  shows "(fs_get (w_fs w') p = fs_get (w_fs w) p \<or> replaced (w_fs w') p data perm)
    \<and> (is_ok r \<longrightarrow> replaced (w_fs w') p data perm)
    \<and> (\<forall>q i. q \<noteq> p \<longrightarrow> fs_get (w_fs w) q = Some i \<longrightarrow> fs_get (w_fs w') q = Some i)"
  using wfa.outcome [OF assms] wfa.others_untouched [OF assms] by blast

definition demo_fs :: fs where
  "demo_fs = [([], mkdir_inode), ([''etc''], mkdir_inode), ([''etc'', ''a''], mkfile ''old''),
     ([''etc'', ''b''], mkfile ''other'')]"

lemma demo_fs_ok [simp]: "wf_fs demo_fs" "direct demo_fs [''etc'', ''a'']" "\<not> is_dir demo_fs [''etc'', ''a'']"
  by (auto simp: demo_fs_def wf_fs_def is_dir_def direct_def plain_def mkdir_inode_def mkfile_def
      less_Suc_eq)

text \<open>A disk that fails in the write of the second system call, after three bytes.\<close>

definition failing_world :: world where
  "failing_world = (calm_world demo_fs)\<lparr>w_fault := \<lambda>n. if n = 1 then Some (EIO, 3) else None\<rparr>"

lemma failing_world_ok [simp]: "wf_world failing_world" "good_rand failing_world" "w_fs failing_world = demo_fs"
  using calm_world_ok [of demo_fs]
  by (simp_all add: failing_world_def wf_world_def good_rand_def sane_outside_def)

theorem WriteFileAtomic_all_or_nothing_witness:
  "\<exists>r w'. run_state (WriteFileAtomic (abs_path [''etc'', ''a'']) ''new content'' 420) failing_world = (r, w')
    \<and> (fs_get (w_fs w') [''etc'', ''a''] = Some (mkfile ''old'')
       \<or> replaced (w_fs w') [''etc'', ''a''] ''new content'' 420)
    \<and> fs_get (w_fs w') [''etc'', ''b''] = Some (mkfile ''other'')"
proof -
  obtain r w' where run:
    "run_state (WriteFileAtomic (abs_path [''etc'', ''a'']) ''new content'' 420) failing_world = (r, w')"
    by fastforce
  have g: "fs_get demo_fs [''etc'', ''a''] = Some (mkfile ''old'')"
    "fs_get demo_fs [''etc'', ''b''] = Some (mkfile ''other'')" "[''etc'', ''b''] \<noteq> [''etc'', ''a'']"
    by (simp_all add: demo_fs_def)
  show ?thesis
    using WriteFileAtomic_all_or_nothing [OF failing_world_ok(1,2) _ run] g run by auto
qed

text \<open>
  C2. \<open>WriteFileAtomic\<close> succeeds when no system call fails, the target is no directory and no
  file of its directory begins with the temporary prefix.
\<close>

theorem WriteFileAtomic_succeeds:
  assumes "fault_free w" "wf_world w" "good_rand w" "direct (w_fs w) p" "\<not> is_dir (w_fs w) p"
    and "CHR ''*'' \<notin> set (last p)"
    and "\<And>c. fs_get (w_fs w) (butlast p @ [(CHR ''.'' # last p) @ c]) = None"
  shows "\<exists>w'. run_state (WriteFileAtomic (abs_path p) data perm) w = (Inr (), w')
    \<and> replaced (w_fs w') p data perm"
proof -
  obtain r w' where run: "run_state (WriteFileAtomic (abs_path p) data perm) w = (r, w')" by fastforce
  have "is_ok r" using wpD [OF WriteFileAtomic_calm [OF assms] run] .
  moreover have "is_ok r \<longrightarrow> replaced (w_fs w') p data perm"
    using wfa.outcome [OF assms(2-4) run] by blast
  ultimately show ?thesis using run by (auto simp: is_ok_iff)
qed

theorem WriteFileAtomic_succeeds_witness:
  "\<exists>w'. run_state (WriteFileAtomic (abs_path [''etc'', ''a'']) ''new'' 420) (calm_world demo_fs) = (Inr (), w')
    \<and> replaced (w_fs w') [''etc'', ''a''] ''new'' 420"
  by (rule WriteFileAtomic_succeeds) (simp_all, simp add: demo_fs_def)

text \<open>\<open>ExistsAndExecutable\<close> does not look for the permission to execute: a file of mode \<open>0644\<close> passes.\<close>

lemma readable_counts_as_executable:
  "fst (run_state (ExistsAndExecutable ''/a'') (calm_world [([], mkdir_inode), ([''a''], mkfile ''x'')]))"
  by code_simp

end
