(* ===== verification/Config.thy ===== *)
theory Config
  imports GoOS GoQuote
begin

text \<open>
  The configuration types of \<^verbatim>\<open>pkg/config/config.go\<close>. A Go map is an association list, in the order
  a \<open>range\<close> over it happens to take.
\<close>

record wifi =
  Wifi_Name :: string
  Passphrase :: string

record install =
  ForceEFI :: bool
  Device :: string
  ConfigURL :: string
  Silent :: bool
  ISOURL :: string
  PowerOff :: bool
  NoFormat :: bool
  Debug :: bool
  TTY :: string

record k3os =
  DataSources :: "string list"
  Modules :: "string list"
  Sysctls :: "(string \<times> string) list"
  NTPServers :: "string list"
  DNSNameservers :: "string list"
  Wifi :: "wifi list"
  Password :: string
  ServerURL :: string
  Token :: string
  Labels :: "(string \<times> string) list"
  K3sArgs :: "string list"
  Environment :: "(string \<times> string) list"
  Taints :: "string list"
  Install :: "install option"

record cfile =
  Encoding :: string
  Content :: string
  Owner :: string
  Path :: string
  RawFilePermissions :: string

record CloudConfig =
  SSHAuthorizedKeys :: "string list"
  WriteFiles :: "cfile list"
  Hostname :: string
  K3OS :: k3os
  Runcmd :: "string list"
  Bootcmd :: "string list"
  Initcmd :: "string list"

definition emptyInstall :: install where
  "emptyInstall = \<lparr>ForceEFI = False, Device = [], ConfigURL = [], Silent = False, ISOURL = [],
     PowerOff = False, NoFormat = False, Debug = False, TTY = []\<rparr>"

definition emptyK3OS :: k3os where
  "emptyK3OS = \<lparr>DataSources = [], Modules = [], Sysctls = [], NTPServers = [], DNSNameservers = [],
     Wifi = [], Password = [], ServerURL = [], Token = [], Labels = [], K3sArgs = [],
     Environment = [], Taints = [], Install = None\<rparr>"

definition emptyConfig :: CloudConfig where
  "emptyConfig = \<lparr>SSHAuthorizedKeys = [], WriteFiles = [], Hostname = [], K3OS = emptyK3OS,
     Runcmd = [], Bootcmd = [], Initcmd = []\<rparr>"

section \<open>Permissions of a file\<close>

text \<open>
  The text is parsed as a signed 32-bit number in base 8 and converted to \<open>os.FileMode\<close>, an
  unsigned 32-bit number: a negative one wraps around.
\<close>

definition Permissions :: "cfile \<Rightarrow> goerror + filemode" where
  "Permissions f =
     (if RawFilePermissions f = [] then Inr 420
      else case ParseInt (RawFilePermissions f) 8 32 of
        None \<Rightarrow> Inl (ErrMsg (''unable to parse file permissions '' @ Quote (RawFilePermissions f)
                            @ '' as integer''))
      | Some perm \<Rightarrow> Inr (word_of_int perm))"

lemma ParseInt_range: "ParseInt s b 32 = Some n \<Longrightarrow> - (2 ^ 31) \<le> n \<and> n < 2 ^ 31"
  by (auto simp: ParseInt_def Let_def split: if_splits option.splits)

lemma not_bit_nat_if: "n < 2 ^ k \<Longrightarrow> \<not> bit (n :: nat) k"
  by (simp add: bit_iff_odd)

lemma syscallMode_word: "n < 4096 \<Longrightarrow> syscallMode (word_of_nat n) = word_of_nat n AND 511"
proof -
  assume n: "n < 4096"
  have "\<not> bit (word_of_nat n :: 32 word) k" if "k \<ge> 12" for k
  proof -
    have "(2 :: nat) ^ 12 \<le> 2 ^ k" using that by (intro power_increasing) simp_all
    then have "n < 2 ^ k" using n by simp
    then show ?thesis by (simp add: bit_of_nat_iff not_bit_nat_if)
  qed
  then show ?thesis by (simp add: syscallMode_def)
qed

end
