(* ===== verification/Writefile.thy ===== *)
theory Writefile
  imports Util Config
begin

text \<open>
  \<^verbatim>\<open>pkg/writefile/writefile.go\<close>: the files of the configuration. Each is written to a temporary file
  of its directory and renamed.
\<close>

section \<open>The code\<close>

definition WriteFile :: "cfile \<Rightarrow> string \<Rightarrow> string os" where
  "WriteFile f root =
     (if Encoding f \<noteq> []
      then State_Monad.return (Inl (ErrMsg (''unable to write file with encoding '' @ Encoding f)))
      else do {
        let p = path_Join [root, Path f];
        let d = path_Dir p;
        _ \<leftarrow> emit (EvLog (ErrMsg (''writing file to '' @ Quote d)));
        r \<leftarrow> EnsureDirectoryExists d;
        onok r (\<lambda>_. onok (Permissions f) (\<lambda>perm. do {
        r \<leftarrow> TempFile d ''wfs-temp'';
        onok r (\<lambda>(tmp, h). do {
        r \<leftarrow> os_WriteFile tmp (Content f) perm;
        onok r (\<lambda>_. do {
        r \<leftarrow> fd_Close h;
        onok r (\<lambda>_. do {
        r \<leftarrow> os_Chmod tmp perm;
        onok r (\<lambda>_. do {
        r \<leftarrow> (if Owner f \<noteq> [] then cmd_Run (Command ''chown'' [Owner f, tmp])
             else State_Monad.return (Inr ()));
        onok r (\<lambda>_. do {
        r \<leftarrow> os_Rename tmp p;
        onok r (\<lambda>_. State_Monad.return (Inr p)) }) }) }) }) }) })) })"

text \<open>An item that cannot be decoded or written is logged, and the next one is tried.\<close>

definition write_item :: "(string \<Rightarrow> goerror + (goerror + string)) \<Rightarrow> nat \<Rightarrow> cfile \<Rightarrow> (world, unit) state" where
  "write_item gunzip i f =
     (case DecodeContent gunzip (Content f) (Encoding f) of
        Inl e \<Rightarrow> emit (EvLog (ErrWrap (''failed to decode content from write_files item ['' @ Itoa (int i) @ '']'') e))
      | Inr c \<Rightarrow> do {
          p \<leftarrow> WriteFile (f\<lparr>Content := c, Encoding := []\<rparr>) ''/'';
          (case p of Inl e \<Rightarrow> emit (EvLog (ErrWrap ''failed to write file'' e))
                   | Inr p \<Rightarrow> emit (EvLog (ErrMsg (''wrote file '' @ p @ '' to filesystem'')))) })"

primrec write_items :: "(string \<Rightarrow> goerror + (goerror + string)) \<Rightarrow> nat \<Rightarrow> cfile list \<Rightarrow> (world, unit) state" where
  "write_items gunzip i [] = State_Monad.return ()"
| "write_items gunzip i (f # fs) = do { _ \<leftarrow> write_item gunzip i f; write_items gunzip (Suc i) fs }"

definition WriteFiles_all :: "(string \<Rightarrow> goerror + (goerror + string)) \<Rightarrow> CloudConfig \<Rightarrow> (world, unit) state" where
  "WriteFiles_all gunzip cfg = write_items gunzip 0 (WriteFiles cfg)"

lemma program_WriteFile [program_intros]: "program (WriteFile f root)"
  unfolding WriteFile_def Let_def by (intro program_intros)

lemma program_write_item [program_intros]: "program (write_item g i f)"
  unfolding write_item_def by (intro program_intros)

lemma program_write_items [program_intros]: "program (write_items g i fs)"
  by (induction fs arbitrary: i) (auto intro: program_intros)

lemma program_WriteFiles [program_intros]: "program (WriteFiles_all g cfg)"
  unfolding WriteFiles_all_def by (intro program_intros)

section \<open>Calls that only add files\<close>

definition grows :: "world \<Rightarrow> world \<Rightarrow> bool" where
  "grows w v = (\<forall>q i. fs_get (w_fs w) q = Some i \<longrightarrow> fs_get (w_fs v) q = Some i)"

lemma grows_refl [simp]: "grows w w" "grows w (tick w)"
  by (simp_all add: grows_def)

lemma grows_props: "reflp grows" "transp grows"
  by (auto simp: grows_def reflp_def transp_def)

lemma grows_dir: "grows w v \<Longrightarrow> is_dir (w_fs w) q \<Longrightarrow> is_dir (w_fs v) q"
  by (auto simp: grows_def is_dir_def split: option.splits)

lemma grows_direct: "grows w v \<Longrightarrow> direct (w_fs w) p \<Longrightarrow> direct (w_fs v) p"
  by (erule direct_mono) (rule grows_dir)

lemma keeps_wpI: "(\<And>w. wp m (\<lambda>_ v. R w v) w) \<Longrightarrow> keeps R m"
  by (simp add: keeps_def wp_def case_prod_beta)

lemma grows_os_Stat: "keeps grows (os_Stat s)"
  by (intro keeps_wpI wp_os_Stat) simp_all

lemma grows_mkdir_or_dir: "keeps grows (mkdir_or_dir s perm)"
  by (intro keeps_wpI wp_mkdir_or_dir) (auto simp: grows_def)

lemma grows_mkdir_chain: "keeps grows (mkdir_chain perm ps)"
proof (induction ps)
  case (Cons p anc)
  show ?case
    by (auto split: sum.split intro!: keeps_bind keeps_onok keeps_return grows_props grows_os_Stat
        grows_mkdir_or_dir Cons.IH)
qed (simp add: keeps_return grows_props)

lemma grows_EnsureDirectoryExists: "keeps grows (EnsureDirectoryExists d)"
  unfolding EnsureDirectoryExists_def os_MkdirAll_def
  by (auto split: sum.split intro!: keeps_bind keeps_return grows_props grows_os_Stat grows_mkdir_chain)

section \<open>The outcome of one file\<close>

text \<open>
  \<^verbatim>\<open>chown(1)\<close>: it changes the owner of the file it is given, and at most that file; content and
  permission bits stay.
\<close>

definition chown_contract :: "world \<Rightarrow> bool" where
  "chown_contract w = (\<forall>own t f. direct f t \<longrightarrow> wf_fs f \<longrightarrow>
     (let g = snd (w_exec w (Command ''chown'' [own, abs_path t]) f) in
      wf_fs g \<and> (\<forall>q. q \<noteq> t \<longrightarrow> fs_get g q = fs_get f q)
      \<and> (\<forall>i. fs_get f t = Some i \<longrightarrow>
           (\<exists>j. fs_get g t = Some j \<and> i_kind j = i_kind i \<and> i_mode j AND 511 = i_mode i AND 511))))"

definition installed :: "fs \<Rightarrow> path \<Rightarrow> string \<Rightarrow> filemode \<Rightarrow> bool" where
  "installed f p content perm =
     (\<exists>i. fs_get f p = Some i \<and> i_kind i = KReg content \<and> i_mode i AND 511 = perm AND 511)"

definition untouched :: "fs \<Rightarrow> path set \<Rightarrow> fs \<Rightarrow> bool" where
  "untouched f P g = (\<forall>q i. q \<notin> P \<longrightarrow> fs_get f q = Some i \<longrightarrow> fs_get g q = Some i)"

definition write_outcome :: "world \<Rightarrow> path \<Rightarrow> cfile \<Rightarrow> goerror + string \<Rightarrow> world \<Rightarrow> bool" where
  "write_outcome w p f r w' =
     (case r of
        Inl e \<Rightarrow> untouched (w_fs w) {} (w_fs w')
      | Inr s \<Rightarrow> s = abs_path p \<and> untouched (w_fs w) {p} (w_fs w') \<and>
          (\<exists>perm. Permissions f = Inr perm \<and> installed (w_fs w') p (Content f) perm))"

lemma syscallMode_perm: "syscallMode m AND 511 = m AND 511"
  by (simp add: syscallMode_def bit.conj_disj_distrib2 and.assoc)

lemma staged_untouched:
  "staged f t P g \<Longrightarrow> fs_get f t = None \<Longrightarrow> untouched f {} g"
  by (auto simp: staged_def untouched_def) (metis option.distinct(1))

lemma untouched_trans: "grows w v \<Longrightarrow> untouched (w_fs v) P g \<Longrightarrow> untouched (w_fs w) P g"
  by (auto simp: untouched_def grows_def)

text \<open>The steps after the creation of the temporary file, from the last to the first.\<close>

definition good_content :: "string \<Rightarrow> inode \<Rightarrow> bool" where
  "good_content c i = (i_kind i = KReg c)"

lemma good_content_eq: "good_content c = (\<lambda>i. i_kind i = KReg c)"
  by (simp add: fun_eq_iff good_content_def)

definition good_mode :: "string \<Rightarrow> filemode \<Rightarrow> inode \<Rightarrow> bool" where
  "good_mode c perm i = (i_kind i = KReg c \<and> i_mode i AND 511 = perm AND 511)"

definition body_outcome :: "fs \<Rightarrow> path \<Rightarrow> string \<Rightarrow> filemode \<Rightarrow> goerror + string \<Rightarrow> world \<Rightarrow> bool" where
  "body_outcome f p c perm r v =
     (case r of Inl e \<Rightarrow> untouched f {} (w_fs v)
      | Inr s \<Rightarrow> s = abs_path p \<and> untouched f {p} (w_fs v) \<and> installed (w_fs v) p c perm)"

lemma body_failed: "staged f t P (w_fs v) \<Longrightarrow> fs_get f t = None \<Longrightarrow> body_outcome f p c perm (Inl e) v"
  by (simp add: body_outcome_def staged_untouched)

lemma wp_install_rename:
  assumes s: "staged f t (good_mode c perm) (w_fs v)" and n: "fs_get f t = None"
    and d: "direct f t" "direct f p" "t \<noteq> p"
  shows "wp (do { r \<leftarrow> os_Rename (abs_path t) (abs_path p);
        onok r (\<lambda>_. State_Monad.return (Inr (abs_path p))) }) (body_outcome f p c perm) v"
  unfolding wp_bind
proof (rule wp_os_Rename)
  fix e
  show "wp (onok (Inl e) (\<lambda>_. State_Monad.return (Inr (abs_path p)))) (body_outcome f p c perm) (tick v)"
    using body_failed [of f t "good_mode c perm"] s n by simp
next
  have "resolve v False (abs_path t) = Inr t" "resolve v False (abs_path p) = Inr p"
    using staged_dirs [OF s n] d by (auto intro: resolve_abs)
  moreover fix a b g
  assume "resolve v False (abs_path t) = Inr a" "resolve v False (abs_path p) = Inr b"
    "rename_inodes a b (w_fs v) = Inr g"
  ultimately have g: "rename_inodes t p (w_fs v) = Inr g" by simp
  obtain i where i: "fs_get (w_fs v) t = Some i" "good_mode c perm i" "wf_fs (w_fs v)"
    using s by (auto simp: staged_def)
  have get: "fs_get g q = (if q = p then Some i else if q = t then None else fs_get (w_fs v) q)" for q
    by (rule rename_file [OF i(3,1) _ d(3) g]) (use i in \<open>auto simp: good_mode_def\<close>)
  have "untouched f {p} g"
    using get s n by (auto simp: untouched_def staged_def)
  moreover have "installed g p c perm" using get i by (auto simp: installed_def good_mode_def)
  ultimately show "wp (onok (Inr ()) (\<lambda>_. State_Monad.return (Inr (abs_path p)))) (body_outcome f p c perm)
      ((tick v)\<lparr>w_fs := g\<rparr>)"
    by (simp add: body_outcome_def)
qed

lemma staged_chown:
  assumes s: "staged f t (good_mode c perm) g" and n: "fs_get f t = None" and d: "direct f t"
    and c: "chown_contract v"
  shows "staged f t (good_mode c perm) (snd (w_exec v (Command ''chown'' [own, abs_path t]) g))"
proof -
  have "direct g t" "wf_fs g" using staged_dirs [OF s n d] s by (simp_all add: staged_def)
  with c have h: "wf_fs (snd (w_exec v (Command ''chown'' [own, abs_path t]) g))"
    "\<forall>q. q \<noteq> t \<longrightarrow> fs_get (snd (w_exec v (Command ''chown'' [own, abs_path t]) g)) q = fs_get g q"
    "\<forall>i. fs_get g t = Some i \<longrightarrow> (\<exists>j. fs_get (snd (w_exec v (Command ''chown'' [own, abs_path t]) g)) t = Some j
        \<and> i_kind j = i_kind i \<and> i_mode j AND 511 = i_mode i AND 511)"
    by (auto simp: chown_contract_def Let_def)
  then show ?thesis using s by (fastforce simp: staged_def good_mode_def)
qed

lemma wp_install_chown:
  assumes s: "staged f t (good_mode c perm) (w_fs v)" and n: "fs_get f t = None"
    and d: "direct f t" "direct f p" "t \<noteq> p" and c: "chown_contract v"
  shows "wp (do { r \<leftarrow> (if own \<noteq> [] then cmd_Run (Command ''chown'' [own, abs_path t])
             else State_Monad.return (Inr ()));
        onok r (\<lambda>_. do { r \<leftarrow> os_Rename (abs_path t) (abs_path p);
        onok r (\<lambda>_. State_Monad.return (Inr (abs_path p))) }) }) (body_outcome f p c perm) v"
proof (cases "own = []")
  case True
  then show ?thesis
    using wp_install_rename [OF s n d] by (simp only: wp_bind wp_return onok_simps simp_thms if_False)
next
  case False
  obtain r g where e: "w_exec v (Command ''chown'' [own, abs_path t]) (w_fs v) = (r, g)" by fastforce
  let ?v = "v\<lparr>w_fs := g, w_trace := w_trace v @ [EvRun (Command ''chown'' [own, abs_path t])]\<rparr>"
  have s': "staged f t (good_mode c perm) (w_fs ?v)" using staged_chown [OF s n d(1) c, of own] e by simp
  have run: "run_state (cmd_Run (Command ''chown'' [own, abs_path t])) v
      = (case r of None \<Rightarrow> Inr () | Some e \<Rightarrow> Inl e, ?v)"
    by (simp add: cmd_Run_def e)
  show ?thesis
  proof (cases r)
    case None
    then have "run_state (cmd_Run (Command ''chown'' [own, abs_path t])) v = (Inr (), ?v)" using run by simp
    then show ?thesis
      using False wp_install_rename [OF s' n d]
      unfolding wp_bind by (simp only: wp_def [of "cmd_Run _"] prod.case onok_simps wp_bind if_True simp_thms)
  next
    case (Some e)
    then have "run_state (cmd_Run (Command ''chown'' [own, abs_path t])) v = (Inl e, ?v)" using run by simp
    then show ?thesis
      using False body_failed [OF s' n]
      unfolding wp_bind by (simp only: wp_def [of "cmd_Run _"] prod.case onok_simps wp_return if_True simp_thms)
  qed
qed

lemma chown_contract_cong [simp]:
  "chown_contract (tick w) = chown_contract w" "chown_contract (w\<lparr>w_fs := f\<rparr>) = chown_contract w"
  "chown_contract (w\<lparr>w_randno := n\<rparr>) = chown_contract w"
  by (simp_all add: chown_contract_def)

lemma wp_install_chmod:
  assumes s: "staged f t (good_content c) (w_fs v)" and n: "fs_get f t = None"
    and d: "direct f t" "direct f p" "t \<noteq> p" and c: "chown_contract v"
  shows "wp (do { r \<leftarrow> fd_Close t;
        onok r (\<lambda>_. do { r \<leftarrow> os_Chmod (abs_path t) perm;
        onok r (\<lambda>_. do { r \<leftarrow> (if own \<noteq> [] then cmd_Run (Command ''chown'' [own, abs_path t])
             else State_Monad.return (Inr ()));
        onok r (\<lambda>_. do { r \<leftarrow> os_Rename (abs_path t) (abs_path p);
        onok r (\<lambda>_. State_Monad.return (Inr (abs_path p))) }) }) }) }) (body_outcome f p c perm) v"
  unfolding wp_bind [of "fd_Close t"]
proof (rule wp_fd_Close)
  fix r :: "goerror + unit"
  have s': "staged f t (good_content c) (w_fs (tick v))" using s by simp
  show "wp (onok r (\<lambda>_. do { r \<leftarrow> os_Chmod (abs_path t) perm;
        onok r (\<lambda>_. do { r \<leftarrow> (if own \<noteq> [] then cmd_Run (Command ''chown'' [own, abs_path t])
             else State_Monad.return (Inr ()));
        onok r (\<lambda>_. do { r \<leftarrow> os_Rename (abs_path t) (abs_path p);
        onok r (\<lambda>_. State_Monad.return (Inr (abs_path p))) }) }) })) (body_outcome f p c perm) (tick v)"
  proof (cases r)
    case (Inl e)
    show ?thesis unfolding Inl onok_simps wp_return by (rule body_failed [OF s' n])
  next
    case (Inr u)
    show ?thesis unfolding Inr onok_simps wp_bind [of "os_Chmod (abs_path t) perm"]
    proof (rule wp_os_Chmod)
      fix e
      show "wp (onok (Inl e) (\<lambda>_. do { r \<leftarrow> (if own \<noteq> [] then cmd_Run (Command ''chown'' [own, abs_path t])
             else State_Monad.return (Inr ()));
        onok r (\<lambda>_. do { r \<leftarrow> os_Rename (abs_path t) (abs_path p);
        onok r (\<lambda>_. State_Monad.return (Inr (abs_path p))) }) })) (body_outcome f p c perm) (tick (tick v))"
        unfolding onok_simps wp_return by (rule body_failed [OF _ n]) (use s in simp)
    next
      obtain j where j: "fs_get (w_fs v) t = Some j" "i_kind j = KReg c" using s by (auto simp: staged_def good_content_def)
      have "resolve (tick v) True (abs_path t) = Inr t"
        using staged_dirs [OF s n d(1)] j by (intro resolve_abs) auto
      moreover fix a i
      assume "resolve (tick v) True (abs_path t) = Inr a" "fs_get (w_fs (tick v)) a = Some i"
      ultimately have i: "a = t" "fs_get (w_fs v) t = Some i" "i_kind i = KReg c" using j by auto
      let ?v = "(tick (tick v))\<lparr>w_fs := fs_put t (i\<lparr>i_mode := syscallMode perm\<rparr>) (w_fs v)\<rparr>"
      have "staged f t (good_mode c perm) (w_fs ?v)"
        using staged_put [OF s i(2), of "i\<lparr>i_mode := syscallMode perm\<rparr>" c] i(3)
        by (simp add: good_mode_def syscallMode_perm)
      from wp_install_chown [OF this n d, of own] c
      show "wp (onok (Inr ()) (\<lambda>_. do { r \<leftarrow> (if own \<noteq> [] then cmd_Run (Command ''chown'' [own, abs_path t])
             else State_Monad.return (Inr ()));
        onok r (\<lambda>_. do { r \<leftarrow> os_Rename (abs_path t) (abs_path p);
        onok r (\<lambda>_. State_Monad.return (Inr (abs_path p))) }) })) (body_outcome f p c perm)
        ((tick (tick v))\<lparr>w_fs := fs_put a (i\<lparr>i_mode := syscallMode perm\<rparr>) (w_fs (tick v))\<rparr>)"
        unfolding onok_simps i(1) by simp
    qed
  qed
qed

lemma wp_staged_WriteFile:
  assumes s: "staged f t (good_content d) (w_fs v)" and n: "fs_get f t = None" and dt: "direct f t"
    and bad: "\<And>e v'. staged f t (\<lambda>_. True) (w_fs v') \<Longrightarrow> Q (Inl e) v'"
    and good: "\<And>v'. staged f t (good_content c) (w_fs v') \<Longrightarrow> w_exec v' = w_exec v \<Longrightarrow> Q (Inr ()) v'"
  shows "wp (os_WriteFile (abs_path t) c perm) Q v"
proof -
  obtain i where i: "fs_get (w_fs v) t = Some i" "i_kind i = KReg d"
    using s by (auto simp: staged_def good_content_def)
  have r: "resolve v True (abs_path t) = Inr t"
    using staged_dirs [OF s n dt] i by (intro resolve_abs) auto
  have weak: "staged f t (good_content x) g \<Longrightarrow> staged f t (\<lambda>_. True) g" for x g
    by (erule staged_mono) simp
  let ?v = "(tick v)\<lparr>w_fs := fs_put t (i\<lparr>i_kind := KReg []\<rparr>) (w_fs v)\<rparr>"
  have s1: "staged f t (good_content []) (w_fs ?v)"
    using staged_put [OF s i(1), of "i\<lparr>i_kind := KReg []\<rparr>" "[]"] by (simp add: good_content_def)
  have app: "staged f t (good_content e) (append_file t e (w_fs ?v))" for e
    using staged_append [of f t "[]" "w_fs ?v" e] s1 by (simp add: good_content_eq)
  show ?thesis
    unfolding os_WriteFile_def wp_bind [of "os_OpenTrunc _ _"]
    unfolding os_OpenTrunc_def
  proof (rule wp_fs_call)
    fix e
    show "wp (onok (Inl (Errno e)) (\<lambda>h. do { rw \<leftarrow> fd_Write h c; rc \<leftarrow> fd_Close h;
        State_Monad.return (case rw of Inl e \<Rightarrow> Inl e | Inr x \<Rightarrow> rc) })) Q (tick v)"
      using bad weak [OF s] by simp
  next
    fix a g
    assume "with_path v True (abs_path t)
        (\<lambda>p. case fs_get (w_fs v) p of
        None \<Rightarrow>
         (case new_inode p \<lparr>i_kind = KReg [], i_mode = syscallMode perm AND NOT (w_umask v),
                            i_uid = w_uid v, i_gid = w_uid v\<rparr> (w_fs v) of
            Inl e \<Rightarrow> Inl e | Inr f \<Rightarrow> Inr (p, f))
      | Some i \<Rightarrow>
         (case i_kind i of
            KDir \<Rightarrow> Inl EISDIR
          | KReg _ \<Rightarrow> Inr (p, fs_put p (i\<lparr>i_kind := KReg []\<rparr>) (w_fs v))
          | KLink _ \<Rightarrow> Inl ELOOP
          | _ \<Rightarrow> Inr (p, w_fs v))) = Inr (a, g)"
    then have a: "a = t" "g = w_fs ?v" using r i by (auto simp: with_path_def)
    have "wp (fd_Write t c) (\<lambda>rw. wp (fd_Close t) (\<lambda>rc.
        Q (case rw of Inl e \<Rightarrow> Inl e | Inr x \<Rightarrow> rc))) ?v"
    proof (rule wp_fd_Write; rule wp_fd_Close)
      fix e k and r :: "goerror + unit"
      show "Q (case Inl e of Inl e \<Rightarrow> Inl e | Inr x \<Rightarrow> r)
          (tick ((tick ?v)\<lparr>w_fs := append_file t (take k c) (w_fs ?v)\<rparr>))"
        using weak [OF app] by (auto intro: bad)
    next
      fix r :: "goerror + unit"
      show "Q (case Inr () of Inl e \<Rightarrow> Inl e | Inr x \<Rightarrow> r)
          (tick ((tick ?v)\<lparr>w_fs := append_file t c (w_fs ?v)\<rparr>))"
        using app weak [OF app] by (cases r) (auto intro: bad good)
    qed
    then show "wp (onok (Inr a) (\<lambda>h. do { rw \<leftarrow> fd_Write h c; rc \<leftarrow> fd_Close h;
        State_Monad.return (case rw of Inl e \<Rightarrow> Inl e | Inr x \<Rightarrow> rc) })) Q ((tick v)\<lparr>w_fs := g\<rparr>)"
      unfolding a onok_simps wp_fun by simp
  qed
qed

lemma wp_install:
  assumes wf: "wf_fs (w_fs v0)" and gr: "good_rand v0" and d: "direct (w_fs v0) p" and c: "chown_contract v0"
    and nt: "\<not> prefix ''wfs-temp'' (last p)"
  shows "wp (do {
        r \<leftarrow> TempFile (path_Dir (abs_path p)) ''wfs-temp'';
        onok r (\<lambda>(tmp, h). do {
        r \<leftarrow> os_WriteFile tmp content perm;
        onok r (\<lambda>_. do {
        r \<leftarrow> fd_Close h;
        onok r (\<lambda>_. do {
        r \<leftarrow> os_Chmod tmp perm;
        onok r (\<lambda>_. do {
        r \<leftarrow> (if own \<noteq> [] then cmd_Run (Command ''chown'' [own, tmp])
             else State_Monad.return (Inr ()));
        onok r (\<lambda>_. do {
        r \<leftarrow> os_Rename tmp (abs_path p);
        onok r (\<lambda>_. State_Monad.return (Inr (abs_path p))) }) }) }) }) }) })
     (body_outcome (w_fs v0) p content perm) v0"
proof -
  have pl: "p \<noteq> []" "\<forall>c \<in> set p. plain c" using d by (auto simp: direct_def)
  then have pd: "\<forall>c \<in> set (butlast p). plain c" by (auto dest: in_set_butlastD)
  have ps: "slash \<notin> set ''wfs-temp''" "pattern_split ''wfs-temp'' = (''wfs-temp'', [])"
    by (simp_all add: pattern_split_def)
  show ?thesis
    unfolding path_Dir_abs [OF pl] wp_bind [of "TempFile _ _"]
  proof (rule wp_TempFile [OF wf gr _ _ path_Join_elem [OF pd] ps])
    fix rnd t and v :: world
    assume t: "t = butlast p @ [''wfs-temp'' @ rnd @ []]" "fs_get (w_fs v0) t = None" "direct (w_fs v0) t"
      "staged (w_fs v0) t (\<lambda>i. i_kind i = KReg []) (w_fs v)" "w_exec v = w_exec v0"
    have tp: "t \<noteq> p"
    proof
      assume "t = p"
      then have "last p = ''wfs-temp'' @ rnd" using t(1) by (metis append_Nil2 last_snoc)
      then show False using nt by (simp add: prefix_def)
    qed
    have cv: "chown_contract v'" if "w_exec v' = w_exec v" for v'
      using c t(5) that by (simp add: chown_contract_def)
    note chm = wp_install_chmod [OF _ t(2,3) d tp cv]
    have s: "staged (w_fs v0) t (good_content []) (w_fs v)" using t(4) by (simp add: good_content_eq)
    show "wp (onok (Inr (abs_path t, t)) (\<lambda>(tmp, h). do {
        r \<leftarrow> os_WriteFile tmp content perm;
        onok r (\<lambda>_. do {
        r \<leftarrow> fd_Close h;
        onok r (\<lambda>_. do {
        r \<leftarrow> os_Chmod tmp perm;
        onok r (\<lambda>_. do {
        r \<leftarrow> (if own \<noteq> [] then cmd_Run (Command ''chown'' [own, tmp])
             else State_Monad.return (Inr ()));
        onok r (\<lambda>_. do {
        r \<leftarrow> os_Rename tmp (abs_path p);
        onok r (\<lambda>_. State_Monad.return (Inr (abs_path p))) }) }) }) }) }))
      (body_outcome (w_fs v0) p content perm) v"
      unfolding onok_simps prod.case wp_bind [of "os_WriteFile _ _ _"]
    proof (rule wp_staged_WriteFile [OF s t(2,3)])
      fix e and v' :: world
      assume "staged (w_fs v0) t (\<lambda>_. True) (w_fs v')"
      from body_failed [OF this t(2)]
      show "wp (onok (Inl e) (\<lambda>_. do {
        r \<leftarrow> fd_Close t;
        onok r (\<lambda>_. do {
        r \<leftarrow> os_Chmod (abs_path t) perm;
        onok r (\<lambda>_. do {
        r \<leftarrow> (if own \<noteq> [] then cmd_Run (Command ''chown'' [own, abs_path t])
             else State_Monad.return (Inr ()));
        onok r (\<lambda>_. do {
        r \<leftarrow> os_Rename (abs_path t) (abs_path p);
        onok r (\<lambda>_. State_Monad.return (Inr (abs_path p))) }) }) }) }))
      (body_outcome (w_fs v0) p content perm) v'"
        unfolding onok_simps wp_return .
    qed (unfold onok_simps, rule chm)
  next
    show "direct (w_fs v0) (butlast p @ [last p])" using d pl(1) by simp
  qed (simp_all add: body_outcome_def untouched_def, simp add: abs_path_def)
qed

lemma wp_WriteFile:
  assumes wf: "wf_world w" and gr: "good_rand w" and d: "direct (w_fs w) p" and c: "chown_contract w"
    and nt: "\<not> prefix ''wfs-temp'' (last p)" and nm: "path_Join [root, Path f] = abs_path p"
  shows "wp (WriteFile f root) (write_outcome w p f) w"
proof (cases "Encoding f = []")
  case False
  then show ?thesis by (simp add: WriteFile_def write_outcome_def untouched_def)
next
  case True
  let ?I = "\<lambda>(_ :: goerror + unit) v. grows w v \<and> wf_world v \<and> outside v = outside w"
  let ?w = "w\<lparr>w_trace := w_trace w @ [EvLog (ErrMsg (''writing file to '' @ Quote (path_Dir (abs_path p))))]\<rparr>"
  have w: "wf_world ?w" "outside ?w = outside w" "grows ?w = grows w"
    using wf by (simp_all add: wf_world_def sane_outside_def outside_def grows_def fun_eq_iff)
  have pd: "program (EnsureDirectoryExists s)" for s by (rule program_EnsureDirectoryExists)
  have I: "wp (EnsureDirectoryExists s) ?I ?w" for s
  proof (rule wpI)
    fix a v
    assume r: "run_state (EnsureDirectoryExists s) ?w = (a, v)"
    have "grows w v" using keeps_run [OF grows_EnsureDirectoryExists r] unfolding w(3) .
    moreover have "wf_world v" by (rule tree.run_keeps [OF pd r w(1)])
    moreover have "outside v = outside w" using outside.run_keeps [OF pd r w(2)] .
    ultimately show "?I a v" by blast
  qed
  show ?thesis
    unfolding WriteFile_def Let_def nm True simp_thms if_False wp_bind [of "emit _"]
    unfolding emit_def wp_State prod.case wp_bind [of "EnsureDirectoryExists _"]
  proof (rule wp_mono [OF I])
    fix r :: "goerror + unit" and v
    assume v: "?I r v"
    have grow: "untouched (w_fs w) {} (w_fs v)" using v by (auto simp: untouched_def grows_def)
    show "wp (onok r (\<lambda>_. onok (Permissions f) (\<lambda>perm. do {
        r \<leftarrow> TempFile (path_Dir (abs_path p)) ''wfs-temp'';
        onok r (\<lambda>(tmp, h). do {
        r \<leftarrow> os_WriteFile tmp (Content f) perm;
        onok r (\<lambda>_. do {
        r \<leftarrow> fd_Close h;
        onok r (\<lambda>_. do {
        r \<leftarrow> os_Chmod tmp perm;
        onok r (\<lambda>_. do {
        r \<leftarrow> (if Owner f \<noteq> [] then cmd_Run (Command ''chown'' [Owner f, tmp])
             else State_Monad.return (Inr ()));
        onok r (\<lambda>_. do {
        r \<leftarrow> os_Rename tmp (abs_path p);
        onok r (\<lambda>_. State_Monad.return (Inr (abs_path p))) }) }) }) }) }) }))) (write_outcome w p f) v"
    proof (cases "is_ok r \<and> is_ok (Permissions f)")
      case False
      then show ?thesis using grow
        by (cases r; cases "Permissions f") (simp_all add: write_outcome_def)
    next
      case True
      then obtain perm where p: "r = Inr ()" "Permissions f = Inr perm" by (auto simp: is_ok_iff)
      have v': "wf_fs (w_fs v)" "good_rand v" "direct (w_fs v) p" "chown_contract v"
        using v gr d c grows_direct
        by (auto simp: wf_world_def outside_def good_rand_def chown_contract_def)
      show ?thesis
        unfolding p onok_simps
      proof (rule wp_mono [OF wp_install [OF v' nt]])
        fix s :: "goerror + string" and u
        assume b: "body_outcome (w_fs v) p (Content f) perm s u"
        show "write_outcome w p f s u"
          using b untouched_trans [of w v] v p
          by (cases s) (auto simp: body_outcome_def write_outcome_def)
      qed
    qed
  qed
qed

section \<open>Properties\<close>

text \<open>
  C3. \<open>WriteFile\<close>, under every schedule of failures: when it returns a path, the file is there
  with exactly the content asked for and the permission bits of the configuration, and no other
  file changed; when it returns an error, no existing file changed at all.
\<close>

theorem WriteFile_all_or_nothing:
  assumes "wf_world w" "good_rand w" "direct (w_fs w) p" "chown_contract w"
    and "\<not> prefix ''wfs-temp'' (last p)" "path_Join [root, Path f] = abs_path p"
    and "run_state (WriteFile f root) w = (r, w')"
  shows "case r of
      Inl e \<Rightarrow> untouched (w_fs w) {} (w_fs w')
    | Inr s \<Rightarrow> s = abs_path p \<and> untouched (w_fs w) {p} (w_fs w') \<and>
        (\<exists>perm. Permissions f = Inr perm \<and> installed (w_fs w') p (Content f) perm)"
  using wpD [OF wp_WriteFile [OF assms(1-6)] assms(7)] unfolding write_outcome_def .

definition demo_file :: cfile where
  "demo_file = \<lparr>Encoding = [], Content = ''hi'', Owner = ''root'', Path = ''etc/a'', RawFilePermissions = ''0600''\<rparr>"

lemma calm_chown [simp]: "chown_contract (calm_world f)"
  by (auto simp: chown_contract_def calm_world_def Let_def)

theorem WriteFile_all_or_nothing_witness:
  "\<exists>r w'. run_state (WriteFile demo_file ''/'') failing_world = (r, w')
    \<and> (is_ok r \<longrightarrow> installed (w_fs w') [''etc'', ''a''] ''hi'' 384)
    \<and> fs_get (w_fs w') [''etc'', ''b''] = Some (mkfile ''other'')"
proof -
  obtain r w' where run: "run_state (WriteFile demo_file ''/'') failing_world = (r, w')" by fastforce
  have c: "chown_contract failing_world"
    using calm_chown [of demo_fs] by (simp add: failing_world_def chown_contract_def)
  have nm: "path_Join [''/'', Path demo_file] = abs_path [''etc'', ''a'']"
    by (simp add: demo_file_def abs_path_def) code_simp
  have d: "direct (w_fs failing_world) [''etc'', ''a'']" by simp
  have perm: "Permissions demo_file = Inr 384" by (simp add: Permissions_def demo_file_def go_eval of_char_of)
  have g: "fs_get demo_fs [''etc'', ''b''] = Some (mkfile ''other'')" by (simp add: demo_fs_def)
  from WriteFile_all_or_nothing [OF failing_world_ok(1,2) d c _ nm run]
  have "case r of
      Inl e \<Rightarrow> untouched demo_fs {} (w_fs w')
    | Inr s \<Rightarrow> s = abs_path [''etc'', ''a''] \<and> untouched demo_fs {[''etc'', ''a'']} (w_fs w') \<and>
        installed (w_fs w') [''etc'', ''a''] (Content demo_file) 384"
    by (simp add: perm split: sum.splits)
  then show ?thesis using run g by (cases r) (auto simp: untouched_def demo_file_def)
qed

end
