(* ===== verification/Hosts.thy ===== *)
theory Hosts
  imports GoFiles Config
begin

text \<open>
  \<^verbatim>\<open>pkg/hostname/hostname.go\<close>: the host name of the configuration is given to the kernel and written
  to \<^verbatim>\<open>/etc/hostname\<close> and \<^verbatim>\<open>/etc/hosts\<close>.
\<close>

section \<open>The code\<close>

text \<open>One line of \<^verbatim>\<open>/etc/hosts\<close>, and the whole text as far as the scanner delivers it: the loop does
  not look at the scanner's error.\<close>

definition hosts_line :: "string \<Rightarrow> string \<Rightarrow> string" where
  "hosts_line hostname text =
     (let line = TrimSpace text; fields = Fields line in
      if fields \<noteq> [] \<and> hd fields = ''127.0.1.1'' then ''127.0.1.1 '' @ hostname @ [newline]
      else line @ [newline])"

definition hosts_content :: "string \<Rightarrow> string \<Rightarrow> string" where
  "hosts_content hostname text = concat (map (hosts_line hostname) (fst (ScanLines text)))"

definition syncHostname :: "unit os" where
  "syncHostname = do {
     h \<leftarrow> os_Hostname;
     onok h (\<lambda>hostname.
       if hostname = [] then State_Monad.return (Inr ())
       else do {
         r \<leftarrow> os_WriteFile ''/etc/hostname'' (hostname @ [newline]) 420;
         onok r (\<lambda>_. do {
         hosts \<leftarrow> os_Open ''/etc/hosts'';
         onok hosts (\<lambda>hosts. deferred (fd_Close hosts) (do {
         (text, err) \<leftarrow> fd_ReadAll hosts;
         os_WriteFile ''/etc/hosts'' (hosts_content hostname text) 384 })) }) }) }"

definition SetHostname :: "CloudConfig \<Rightarrow> unit os" where
  "SetHostname c =
     (if Hostname c = [] then State_Monad.return (Inr ())
      else do {
        r \<leftarrow> sys_Sethostname (Hostname c);
        onok r (\<lambda>_. syncHostname) })"

lemma program_syncHostname [program_intros]: "program syncHostname"
  unfolding syncHostname_def by (intro program_intros)

lemma program_SetHostname [program_intros]: "program (SetHostname c)"
  unfolding SetHostname_def by (intro program_intros)

section \<open>The rewritten text\<close>

text \<open>A host name as the kernel takes it: no white space.\<close>

definition host_name :: "string \<Rightarrow> bool" where
  "host_name h = (h \<noteq> [] \<and> length h \<le> 64 \<and> (\<forall>c \<in> set h. \<not> is_space c))"

lemma newline_space: "is_space newline" "is_space (CHR 0x0D)" "is_space (CHR '' '')"
  by (simp_all add: is_space_def)

lemma Fields_word:
  "w \<noteq> [] \<Longrightarrow> \<forall>c \<in> set w. \<not> is_space c \<Longrightarrow> s = [] \<or> is_space (hd s) \<Longrightarrow> Fields (w @ s) = w # Fields s"
proof (induction w)
  case (Cons c w)
  have "takeWhile (\<lambda>c. \<not> is_space c) (w @ s) = w" "dropWhile (\<lambda>c. \<not> is_space c) (w @ s) = s"
    using Cons.prems by (auto simp: takeWhile_append dropWhile_append takeWhile_eq_Nil_iff dropWhile_eq_self_iff)
  then show ?case using Cons.prems by simp
qed simp

lemma localhost_no_space: "\<forall>c \<in> set ''127.0.1.1''. \<not> is_space c"
  by (simp add: is_space_def)

lemma Fields_localhost: "host_name h \<Longrightarrow> Fields (''127.0.1.1 '' @ h) = [''127.0.1.1'', h]"
proof -
  assume h: "host_name h"
  have "Fields (h @ []) = h # Fields []" using h by (intro Fields_word) (auto simp: host_name_def)
  moreover have "Fields (''127.0.1.1'' @ (CHR '' '' # h)) = ''127.0.1.1'' # Fields (CHR '' '' # h)"
    by (rule Fields_word) (use localhost_no_space in \<open>simp_all add: newline_space\<close>)
  ultimately show ?thesis by (simp add: newline_space)
qed

lemma TrimSpace_localhost: "host_name h \<Longrightarrow> TrimSpace (''127.0.1.1 '' @ h) = ''127.0.1.1 '' @ h"
  unfolding TrimSpace_def
  by (rule TrimFunc_id) (auto simp: host_name_def is_space_def)

text \<open>The part of a line before its newline.\<close>

definition hosts_body :: "string \<Rightarrow> string \<Rightarrow> string" where
  "hosts_body h l = (let line = TrimSpace l in
     if Fields line \<noteq> [] \<and> hd (Fields line) = ''127.0.1.1'' then ''127.0.1.1 '' @ h else line)"

lemma hosts_line_body: "hosts_line h l = hosts_body h l @ [newline]"
  by (simp add: hosts_line_def hosts_body_def Let_def)

lemma hosts_line_eq: "hosts_line h = (\<lambda>l. hosts_body h l @ [newline])"
  by (simp add: fun_eq_iff hosts_line_body)

lemma hosts_body_idem: "host_name h \<Longrightarrow> hosts_body h (hosts_body h l) = hosts_body h l"
  unfolding hosts_body_def Let_def
  by (simp add: TrimSpace_idem TrimSpace_localhost Fields_localhost del: append.simps(2))

lemma TrimSpace_last: "TrimSpace l = [] \<or> \<not> is_space (last (TrimSpace l))"
  unfolding TrimSpace_def TrimFunc_def by (rule TrimRight_cases)

lemma hosts_body_clean:
  assumes "host_name h" "newline \<notin> set l" "length l < 65536"
  shows "newline \<notin> set (hosts_body h l) \<and> length (hosts_body h l) < 65536
    \<and> (hosts_body h l = [] \<or> last (hosts_body h l) \<noteq> CHR 0x0D)"
proof -
  have "length (TrimSpace l) \<le> length l"
  proof -
    have "length (TrimSpace l) \<le> length (TrimLeft is_space l)"
      unfolding TrimSpace_def TrimFunc_def by (rule prefix_length_le [OF TrimRight_prefix])
    also have "\<dots> \<le> length l" by (simp add: TrimLeft_def length_dropWhile_le)
    finally show ?thesis .
  qed
  moreover have "set (TrimSpace l) \<subseteq> set l" unfolding TrimSpace_def by (rule TrimFunc_set)
  moreover have h: "h \<noteq> []" "length h \<le> 64" "\<forall>c \<in> set h. \<not> is_space c"
    using assms(1) by (simp_all add: host_name_def)
  moreover have nh: "newline \<notin> set h" using h(3) newline_space(1) by blast
  moreover have lh: "last h \<noteq> CHR 0x0D" using h(1,3) newline_space(2) last_in_set by metis
  moreover have "TrimSpace l = [] \<or> last (TrimSpace l) \<noteq> CHR 0x0D"
    using TrimSpace_last newline_space(2) by metis
  ultimately show ?thesis
    using assms(2,3) unfolding hosts_body_def Let_def
    by (cases "Fields (TrimSpace l) \<noteq> [] \<and> hd (Fields (TrimSpace l)) = ''127.0.1.1''") (simp, simp, blast)
qed

lemma ScanLines_parts: "l \<in> set (fst (ScanLines text)) \<Longrightarrow> newline \<notin> set l \<and> length l < 65536"
proof -
  assume "l \<in> set (fst (ScanLines text))"
  then obtain r where r: "r \<in> set (takeWhile (\<lambda>l. length l < 65536) (raw_lines text))" "l = drop_cr r"
    by (auto simp: ScanLines_def Let_def)
  have "r \<in> set (Split text newline)" "length r < 65536"
    using set_takeWhileD [OF r(1)] by (auto simp: raw_lines_def split: if_splits dest: in_set_butlastD)
  then show ?thesis using r(2) Split_part by (auto simp: drop_cr_def dest: in_set_butlastD)
qed

lemma hosts_content_lines:
  assumes "host_name h"
  shows "ScanLines (hosts_content h text) = (map (hosts_body h) (fst (ScanLines text)), False)"
proof -
  have "hosts_content h text = concat (map (\<lambda>l. l @ [newline]) (map (hosts_body h) (fst (ScanLines text))))"
    by (simp add: hosts_content_def hosts_line_eq comp_def)
  then show ?thesis
    using hosts_body_clean [OF assms] ScanLines_parts [of _ "text"] by (simp only:) (intro ScanLines_lines, auto)
qed

section \<open>Properties\<close>

text \<open>
  Rewriting \<^verbatim>\<open>/etc/hosts\<close> is idempotent: a second run with the same host name changes nothing, and
  the rewritten text has one line per line of the old text, every local host line naming the host.
\<close>

theorem hosts_content_idempotent:
  assumes "host_name h"
  shows "hosts_content h (hosts_content h text) = hosts_content h text
    \<and> fst (ScanLines (hosts_content h text)) = map (hosts_body h) (fst (ScanLines text))"
proof -
  have "hosts_content h (hosts_content h text)
      = concat (map (hosts_line h) (map (hosts_body h) (fst (ScanLines text))))"
    unfolding hosts_content_def [of h "hosts_content h text"] hosts_content_lines [OF assms] by simp
  also have "\<dots> = hosts_content h text"
    unfolding hosts_content_def [of h "text"] hosts_line_eq by (simp add: comp_def hosts_body_idem [OF assms])
  finally show ?thesis using hosts_content_lines [OF assms] by simp
qed

theorem hosts_content_idempotent_witness:
  "hosts_content ''k3os'' (hosts_content ''k3os'' (''127.0.1.1 old'' @ [newline])) = ''127.0.1.1 k3os'' @ [newline]"
proof -
  have h: "host_name ''k3os''" by (simp add: host_name_def is_space_def)
  have "hosts_content ''k3os'' (''127.0.1.1 old'' @ [newline]) = ''127.0.1.1 k3os'' @ [newline]"
    by (simp add: hosts_content_def hosts_line_def bufio_defs TrimSpace_def TrimFunc_def TrimRight_def
        TrimLeft_def is_space_def Let_def)
  then show ?thesis using hosts_content_idempotent [OF h, of "''127.0.1.1 old'' @ [newline]"] by simp
qed

lemma syncHostname_calm:
  assumes ff: "fault_free w" and h: "w_hostname w = h" "h \<noteq> []"
    and f: "writable (w_fs w) [''etc'', ''hostname'']" "file_is [''etc'', ''hosts''] content w"
  shows "wp syncHostname (\<lambda>r v. r = Inr () \<and> w_hostname v = h
    \<and> file_is [''etc'', ''hostname''] (h @ [newline]) v
    \<and> file_is [''etc'', ''hosts''] (hosts_content h content) v) w"
proof -
  let ?hn = "[''etc'', ''hostname'']" and ?ho = "[''etc'', ''hosts'']"
  have nm: "''/etc/hostname'' = abs_path ?hn" "''/etc/hosts'' = abs_path ?ho"
    by (simp_all add: abs_path_def)
  have hn: "run_state os_Hostname w = (Inr h, tick w)" using ff h by (simp add: os_Hostname_def fault_free_def)
  have nd: "\<not> is_dir (w_fs w) ?hn" using f(1) by (auto simp: writable_def is_dir_def split: option.split)
  have step2: "wp (do { hosts \<leftarrow> os_Open (abs_path ?ho);
         onok hosts (\<lambda>hosts. deferred (fd_Close hosts) (do {
         (text, err) \<leftarrow> fd_ReadAll hosts;
         os_WriteFile (abs_path ?ho) (hosts_content h text) 384 })) })
      (\<lambda>r v. r = Inr () \<and> w_hostname v = h \<and> file_is ?hn (h @ [newline]) v
         \<and> file_is ?ho (hosts_content h content) v) v"
    if v: "written (tick w) ?hn (h @ [newline]) v" for v
  proof -
    have v': "fault_free v" "file_is ?hn (h @ [newline]) v" "w_hostname v = h"
      using v h by (simp_all add: written_def)
    have "file_is ?ho content v" by (rule file_is_other [OF f(2), of ?hn]) (use v nd in \<open>auto simp: written_def\<close>)
    note o = os_Open_calm [OF v'(1) this] and ho = this
    have r: "run_state (fd_ReadAll ?ho) (tick v) = ((content, None), tick (tick v))"
      by (rule fd_ReadAll_calm) (use v' ho in simp_all)
    let ?u = "tick (tick v)"
    have "wp (os_WriteFile (abs_path ?ho) (hosts_content h content) 384)
      (\<lambda>r. wp (fd_Close ?ho) (\<lambda>_ v. r = Inr () \<and> w_hostname v = h \<and> file_is ?hn (h @ [newline]) v
         \<and> file_is ?ho (hosts_content h content) v)) ?u"
    proof (rule wp_os_WriteFile_calm)
      show "writable (w_fs ?u) ?ho" by (rule file_is_writable [of _ content]) (use ho in simp)
      fix x
      assume x: "written ?u ?ho (hosts_content h content) x"
      have "file_is ?hn (h @ [newline]) x"
        by (rule file_is_other [of ?hn _ ?u ?ho]) (use x v' ho in \<open>auto simp: written_def file_is_def is_dir_def\<close>)
      then show "wp (fd_Close ?ho) (\<lambda>_ v. Inr () = Inr () \<and> w_hostname v = h \<and> file_is ?hn (h @ [newline]) v
         \<and> file_is ?ho (hosts_content h content) v) x"
        using x v' by (simp add: wp_fd_Close_calm written_def)
    qed (use v' in simp)
    then show ?thesis
      unfolding wp_bind [of "os_Open _"] wp_def [of "os_Open _"] o prod.case onok_simps wp_deferred
        wp_bind [of "fd_ReadAll _"] wp_def [of "fd_ReadAll _"] r by simp
  qed
  have "wp (os_WriteFile (abs_path ?hn) (h @ [newline]) 420)
      (\<lambda>r. wp (onok r (\<lambda>_. do { hosts \<leftarrow> os_Open (abs_path ?ho);
         onok hosts (\<lambda>hosts. deferred (fd_Close hosts) (do {
         (text, err) \<leftarrow> fd_ReadAll hosts;
         os_WriteFile (abs_path ?ho) (hosts_content h text) 384 })) }))
      (\<lambda>r v. r = Inr () \<and> w_hostname v = h \<and> file_is ?hn (h @ [newline]) v
         \<and> file_is ?ho (hosts_content h content) v)) (tick w)"
    by (rule wp_os_WriteFile_calm) (simp add: ff, simp add: f(1), unfold onok_simps, rule step2)
  then show ?thesis
    unfolding syncHostname_def nm wp_bind [of os_Hostname] wp_def [of os_Hostname] hn prod.case onok_simps
      if_not_P [OF h(2)] wp_bind [of "os_WriteFile _ _ _"] .
qed


definition hosts_fs :: fs where
  "hosts_fs = [([], mkdir_inode), ([''etc''], mkdir_inode),
     ([''etc'', ''hosts''], mkfile (''127.0.1.1 old'' @ [newline]))]"


text \<open>A line that does not fit the scanner's buffer ends the rewriting: it and all lines after it are
  lost, and no error is reported.\<close>

lemma hosts_content_drops_rest:
  assumes "newline \<notin> set l" "length l \<ge> 65536" "newline \<notin> set rest"
  shows "hosts_content h (l @ newline # rest) = []"
  using assms by (simp add: hosts_content_def ScanLines_def raw_lines_def Split_append_sep Split_no_sep Let_def)

end
