(* ===== verification/Modprobe.thy ===== *)
theory Modprobe
  imports GoFiles Config
begin

text \<open>
  \<^verbatim>\<open>pkg/module/module.go\<close>: the kernel modules of the configuration that are not loaded yet.
\<close>

section \<open>The code\<close>

definition loaded_modules :: "string \<Rightarrow> string set" where
  "loaded_modules content = set (map (\<lambda>l. hd (SplitN2 l (CHR '' ''))) (fst (ScanLines content)))"

text \<open>The error of the scanner: that of the read, or a line that does not fit its buffer.\<close>

definition scan_err :: "string \<Rightarrow> goerror option \<Rightarrow> goerror + unit" where
  "scan_err content err =
     (if snd (ScanLines content) then Inl (ErrMsg ''bufio.Scanner: token too long'')
      else case err of Some e \<Rightarrow> Inl e | None \<Rightarrow> Inr ())"

primrec load_loop :: "string set \<Rightarrow> string list \<Rightarrow> goerror + unit \<Rightarrow> unit os" where
  "load_loop loaded [] res = State_Monad.return res"
| "load_loop loaded (m # ms) res =
     (if m \<in> loaded then load_loop loaded ms res
      else do {
        let params = Split m (CHR '' '');
        r \<leftarrow> modprobe_Load (hd params) (Join (tl params) '' '');
        (case r of
           Inl e \<Rightarrow> State_Monad.return (Inl (ErrWrap (''could not load module '' @ m @ '' with parameters [['' @
               Join params '' '' @ '']], err '') e))
         | Inr _ \<Rightarrow> load_loop loaded ms res) })"

definition LoadModules :: "CloudConfig \<Rightarrow> unit os" where
  "LoadModules cfg = do {
     f \<leftarrow> os_Open ''/proc/modules'';
     onok f (\<lambda>f. deferred (fd_Close f) (do {
       (content, err) \<leftarrow> fd_ReadAll f;
       load_loop (loaded_modules content) (Modules (K3OS cfg)) (scan_err content err) })) }"

lemma program_load_loop [program_intros]: "program (load_loop loaded ms res)"
  by (induction ms) (auto simp: Let_def intro!: program_intros)

lemma program_LoadModules [program_intros]: "program (LoadModules cfg)"
  unfolding LoadModules_def by (intro program_intros)

section \<open>What is loaded\<close>

definition load_event :: "string \<Rightarrow> event" where
  "load_event m = (let params = Split m (CHR '' '') in EvModule (hd params) (Join (tl params) '' ''))"

text \<open>The loads of a run are those of the first modules that are missing; all of them when it
  succeeds, and when a load fails it was the last.\<close>

lemma load_loop_trace:
  "run_state (load_loop loaded ms res) w = (r, w') \<Longrightarrow>
   \<exists>k. w_trace w' = w_trace w @ map load_event (take k (filter (\<lambda>m. m \<notin> loaded) ms))
     \<and> (is_ok r \<longrightarrow> k = length (filter (\<lambda>m. m \<notin> loaded) ms) \<and> is_ok res)"
proof (induction ms arbitrary: w)
  case (Cons m ms)
  show ?case
  proof (cases "m \<in> loaded")
    case False
    let ?p = "Split m (CHR '' '')"
    let ?v = "w\<lparr>w_trace := w_trace w @ [load_event m]\<rparr>"
    show ?thesis
    proof (cases "w_modload w (hd ?p) (Join (tl ?p) '' '')")
      case None
      then have "run_state (load_loop loaded ms res) ?v = (r, w')"
        using Cons.prems False by (simp add: modprobe_Load_def Let_def load_event_def)
      then obtain k where "w_trace w' = w_trace ?v @ map load_event (take k (filter (\<lambda>m. m \<notin> loaded) ms))"
        "is_ok r \<longrightarrow> k = length (filter (\<lambda>m. m \<notin> loaded) ms) \<and> is_ok res"
        using Cons.IH by blast
      then show ?thesis using False by (intro exI [of _ "Suc k"]) simp
    next
      case (Some e)
      then show ?thesis
        using Cons.prems False by (intro exI [of _ 1]) (auto simp: modprobe_Load_def Let_def load_event_def)
    qed
  qed (use Cons in simp)
qed auto

section \<open>Properties\<close>

text \<open>What is loaded for an entry: the name before the first space, with the rest as the parameters.\<close>

lemma load_event_parts:
  "load_event m = EvModule (takeWhile (\<lambda>c. c \<noteq> CHR '' '') m) (drop 1 (dropWhile (\<lambda>c. c \<noteq> CHR '' '') m))"
proof -
  have "hd (Split m (CHR '' '')) = takeWhile (\<lambda>c. c \<noteq> CHR '' '') m
      \<and> Join (tl (Split m (CHR '' ''))) '' '' = drop 1 (dropWhile (\<lambda>c. c \<noteq> CHR '' '') m)"
  proof (induction m)
    case (Cons c m)
    then show ?case using Join_Split [of m "CHR '' ''"] by (cases "Split m (CHR '' '')") auto
  qed simp
  then show ?thesis by (simp add: load_event_def Let_def)
qed

text \<open>A table of the loaded modules: a name in each row, a space and more.\<close>

definition module_row :: "string \<times> string \<Rightarrow> string" where
  "module_row row = fst row @ '' '' @ snd row"

lemma loaded_modules_table:
  assumes "\<forall>row \<in> set rows. CHR '' '' \<notin> set (fst row) \<and> newline \<notin> set (module_row row) \<and> CHR 0x0D \<notin> set (snd row)
    \<and> length (module_row row) < 65536"
  shows "loaded_modules (concat (map (\<lambda>row. module_row row @ [newline]) rows)) = fst ` set rows"
proof -
  have "ScanLines (concat (map (\<lambda>l. l @ [newline]) (map module_row rows))) = (map module_row rows, False)"
  proof (rule ScanLines_lines, intro ballI)
    fix l
    assume "l \<in> set (map module_row rows)"
    then obtain row where row: "row \<in> set rows" "l = module_row row" by auto
    then have "CHR 0x0D \<notin> set (snd row)" using assms by blast
    then have "snd row \<noteq> [] \<Longrightarrow> last (snd row) \<noteq> CHR 0x0D" by (metis last_in_set)
    then have "last l \<noteq> CHR 0x0D" using row(2) by (auto simp: module_row_def)
    then show "newline \<notin> set l \<and> length l < 65536 \<and> (l = [] \<or> last l \<noteq> CHR 0x0D)" using assms row by blast
  qed
  then have "loaded_modules (concat (map (\<lambda>row. module_row row @ [newline]) rows))
      = (\<lambda>row. hd (SplitN2 (module_row row) (CHR '' ''))) ` set rows"
    by (simp add: loaded_modules_def comp_def image_image)
  also have "\<dots> = fst ` set rows"
  proof (rule image_cong)
    show "hd (SplitN2 (module_row row) (CHR '' '')) = fst row" if "row \<in> set rows" for row
    proof -
      have n: "\<forall>c \<in> set (fst row). c \<noteq> CHR '' ''" using assms that by blast
      have "takeWhile (\<lambda>c. c \<noteq> CHR '' '') (module_row row) = fst row"
        "dropWhile (\<lambda>c. c \<noteq> CHR '' '') (module_row row) = CHR '' '' # snd row"
        using n by (simp_all add: module_row_def)
      then show ?thesis by (simp only: SplitN2_def list.case list.sel)
    qed
  qed simp
  finally show ?thesis .
qed


definition modules_fs :: fs where
  "modules_fs = [([], mkdir_inode), ([''proc''], mkdir_inode),
     ([''proc'', ''modules''], mkfile (''kvm 123 0 - Live'' @ [newline]))]"


text \<open>A module that is given with parameters is loaded again even when it is listed.\<close>

lemma params_never_loaded: "''kvm nested=1'' \<notin> loaded_modules (''kvm 123 0 - Live'' @ [newline])"
  by (simp add: loaded_modules_def bufio_defs SplitN2_def Let_def)

end
