(* ===== verification/Commands.thy ===== *)
theory Commands
  imports GoFiles Config
begin

text \<open>
  \<^verbatim>\<open>pkg/command/command.go\<close>: the shell commands of the configuration and the password.
\<close>

section \<open>The code\<close>

definition shell :: "string \<Rightarrow> cmd" where
  "shell c = Command ''sh'' [''-c'', c]"

primrec ExecuteCommand :: "string list \<Rightarrow> unit os" where
  "ExecuteCommand [] = State_Monad.return (Inr ())"
| "ExecuteCommand (c # cs) = do {
     r \<leftarrow> cmd_Run (shell c);
     (case r of
        Inl e \<Rightarrow> State_Monad.return (Inl (ErrWrap (''failed to run '' @ c @ '': '') e))
      | Inr _ \<Rightarrow> ExecuteCommand cs) }"

definition chpasswd :: "string \<Rightarrow> cmd" where
  "chpasswd password = (Command ''chpasswd'' (if HasPrefix password ''$'' then [''-e''] else []))
     \<lparr>c_stdin := StdinBytes (''rancher:'' @ password)\<rparr>"

definition SetPassword :: "string \<Rightarrow> unit os" where
  "SetPassword password =
     (if password = [] then State_Monad.return (Inr ()) else cmd_Run (chpasswd password))"

lemma program_ExecuteCommand [program_intros]: "program (ExecuteCommand cs)"
  by (induction cs) (auto intro!: program_intros)

lemma program_SetPassword [program_intros]: "program (SetPassword p)"
  unfolding SetPassword_def by (intro program_intros)

section \<open>Properties\<close>

text \<open>Every command that is run is recorded.\<close>

lemma cmd_Run_trace: "run_state (cmd_Run c) w = (r, v) \<Longrightarrow> w_trace v = w_trace w @ [EvRun c]"
  by (auto simp: cmd_Run_def split: prod.splits)

text \<open>
  \<open>ExecuteCommand\<close> runs the commands in order, one shell each, and stops after the first that
  fails; it succeeds exactly when it has run them all and none failed.
\<close>

theorem ExecuteCommand_runs_in_order:
  "\<exists>k \<le> length cs. w_trace (snd (run_state (ExecuteCommand cs) w)) = w_trace w @ map (\<lambda>c. EvRun (shell c)) (take k cs)
     \<and> (is_ok (fst (run_state (ExecuteCommand cs) w)) \<longrightarrow> k = length cs)
     \<and> (\<not> is_ok (fst (run_state (ExecuteCommand cs) w)) \<longrightarrow> k > 0)"
proof (induction cs arbitrary: w)
  case (Cons c cs)
  obtain r v where r: "run_state (cmd_Run (shell c)) w = (r, v)" by fastforce
  note t = cmd_Run_trace [OF r]
  show ?case
  proof (cases r)
    case (Inl e)
    then show ?thesis using r t by (intro exI [of _ 1]) simp
  next
    case (Inr u)
    obtain k where "k \<le> length cs"
      "w_trace (snd (run_state (ExecuteCommand cs) v)) = w_trace v @ map (\<lambda>c. EvRun (shell c)) (take k cs)"
      "is_ok (fst (run_state (ExecuteCommand cs) v)) \<longrightarrow> k = length cs"
      using Cons.IH by blast
    then show ?thesis using r t Inr by (intro exI [of _ "Suc k"]) simp
  qed
qed simp

theorem ExecuteCommand_runs_in_order_witness:
  "\<exists>k. w_trace (snd (run_state (ExecuteCommand [''a'', ''b'']) (calm_world []))) = map (\<lambda>c. EvRun (shell c)) (take k [''a'', ''b''])"
proof -
  have "w_trace (calm_world []) = []" by (simp add: calm_world_def)
  then show ?thesis using ExecuteCommand_runs_in_order [of "[''a'', ''b'']" "calm_world []"] by auto
qed

text \<open>
  \<open>SetPassword\<close> runs \<^verbatim>\<open>chpasswd\<close> once with the line for the user, as already encrypted exactly when
  the password begins with a dollar sign; an empty password runs nothing.
\<close>

theorem SetPassword_runs_chpasswd:
  "w_trace (snd (run_state (SetPassword p) w)) =
     w_trace w @ (if p = [] then [] else [EvRun \<lparr>c_name = ''chpasswd'', c_argv0 = None,
        c_args = (case p of c # _ \<Rightarrow> if c = CHR ''$'' then [''-e''] else [] | [] \<Rightarrow> []), c_env = None,
        c_stdin = StdinBytes (''rancher:'' @ p), c_attr = None\<rparr>])"
proof (cases p)
  case (Cons c s)
  obtain r v where "run_state (cmd_Run (chpasswd p)) w = (r, v)" by fastforce
  from this cmd_Run_trace [OF this] Cons show ?thesis
    by (simp add: SetPassword_def chpasswd_def Command_def HasPrefix_def)
qed (simp add: SetPassword_def)

end
