(* ===== verification/Sysctl.thy ===== *)
theory Sysctl
  imports GoFiles Config
begin

text \<open>
  \<^verbatim>\<open>pkg/sysctl/sysctl.go\<close>: the kernel parameters of the configuration, written below \<^verbatim>\<open>/proc/sys\<close>.
\<close>

section \<open>The code\<close>

definition sysctl_path :: "string \<Rightarrow> string" where
  "sysctl_path k = path_Join ([''/proc'', ''sys''] @ Split k (CHR ''.''))"

text \<open>The loop over the map, in the order of the list.\<close>

primrec write_sysctls :: "(string \<times> string) list \<Rightarrow> unit os" where
  "write_sysctls [] = State_Monad.return (Inr ())"
| "write_sysctls (kv # kvs) = do {
     r \<leftarrow> os_WriteFile (sysctl_path (fst kv)) (snd kv) 420;
     onok r (\<lambda>_. write_sysctls kvs) }"

definition ConfigureSysctl :: "CloudConfig \<Rightarrow> unit os" where
  "ConfigureSysctl cfg = write_sysctls (Sysctls (K3OS cfg))"

lemma program_write_sysctls [program_intros]: "program (write_sysctls kvs)"
  by (induction kvs) (auto intro!: program_intros)

lemma program_ConfigureSysctl [program_intros]: "program (ConfigureSysctl cfg)"
  unfolding ConfigureSysctl_def by (intro program_intros)

section \<open>Where the paths lead\<close>

abbreviation proc_sys :: path where "proc_sys \<equiv> [''proc'', ''sys'']"

lemma sysctl_path_below:
  "\<exists>cs. sysctl_path k = abs_path (proc_sys @ cs) \<and> (\<forall>c \<in> set cs. plain c)"
proof -
  have p: "path_Join ([''/proc'', ''sys''] @ es) = path_Join (abs_path proc_sys # es)" for es
    by (simp add: path_Join_def abs_path_def) (cases es, simp_all)
  have "\<forall>e \<in> set (Split k (CHR ''.'')). CHR ''.'' \<notin> set e" using Split_part by blast
  then have "\<exists>cs. path_Join ((slash # Join proc_sys [slash]) # Split k (CHR ''.'')) =
      slash # Join (proc_sys @ cs) [slash] \<and> (\<forall>c \<in> set cs. plain c)"
    by (intro path_Join_below) (auto simp: plain_def)
  then show ?thesis unfolding sysctl_path_def p abs_path_def by simp
qed

text \<open>What a run of \<open>ConfigureSysctl\<close> keeps: the directories and the absence of links.\<close>

definition sysctl_tree :: "fs \<Rightarrow> bool" where
  "sysctl_tree f = (is_dir f [''proc''] \<and> is_dir f proc_sys \<and> no_links_below proc_sys f)"

lemma resolve_sysctl:
  assumes "sysctl_tree (w_fs w)" "resolve w follow (sysctl_path k) = Inr p"
  shows "prefix proc_sys p"
proof -
  obtain cs where cs: "sysctl_path k = abs_path (proc_sys @ cs)" "\<forall>c \<in> set cs. plain c"
    using sysctl_path_below by blast
  have pl: "\<forall>c \<in> set (proc_sys @ cs). plain c" using cs(2) by (auto simp: plain_def)
  have "namei 40 (w_fs w) follow [] (proc_sys @ cs) = Inr p"
    using assms(2) elems_abs_path [OF pl]
    by (simp only: cs(1) resolve_def) (simp add: abs_path_def is_rooted_def)
  moreover have "namei 40 (w_fs w) follow [] (proc_sys @ cs) = namei 40 (w_fs w) follow ([] @ proc_sys) cs"
    by (rule namei_dirs_then) (use assms(1) in \<open>auto simp: sysctl_tree_def less_Suc_eq plain_def\<close>)
  ultimately show ?thesis
    using namei_below [of proc_sys "w_fs w" cs proc_sys] assms(1) cs(2) by (simp add: sysctl_tree_def)
qed

lemma sysctl_tree_put:
  "sysctl_tree f \<Longrightarrow> \<not> is_dir f p \<Longrightarrow> i_kind j = KReg c \<Longrightarrow> sysctl_tree (fs_put p j f)"
  by (auto simp: sysctl_tree_def no_links_below_def is_dir_def)

lemma write_sysctls_below:
  "sysctl_tree (w_fs w) \<Longrightarrow>
   wp (write_sysctls kvs) (\<lambda>_ v. sysctl_tree (w_fs v) \<and> only_below proc_sys (w_fs w) (w_fs v)) w"
proof (induction kvs arbitrary: w)
  case (Cons kv kvs)
  let ?J = "\<lambda>f. sysctl_tree f \<and> only_below proc_sys (w_fs w) f"
  have one: "wp (os_WriteFile (sysctl_path (fst kv)) (snd kv) 420) (\<lambda>_ v. ?J (w_fs v)) w"
    by (rule wp_os_WriteFile_files [where P = "prefix proc_sys"])
      (use Cons.prems resolve_sysctl in \<open>auto intro: sysctl_tree_put only_below_trans only_below_put\<close>)
  show ?case
    unfolding write_sysctls.simps wp_bind
  proof (rule wp_mono [OF one])
    fix r :: "goerror + unit" and v :: world
    assume v: "?J (w_fs v)"
    then show "wp (onok r (\<lambda>_. write_sysctls kvs)) (\<lambda>_ u. ?J (w_fs u)) v"
      using wp_mono [OF Cons.IH [of v]] only_below_trans by (cases r) (simp, fastforce)
  qed
qed simp

section \<open>Properties\<close>

text \<open>
  C31. Whatever keys the configuration gives, \<open>ConfigureSysctl\<close> changes no file outside
  \<^verbatim>\<open>/proc/sys\<close>: dots separate, so no \<open>..\<close> can lead out of it.
\<close>

theorem ConfigureSysctl_stays_below:
  assumes "sysctl_tree (w_fs w)" "run_state (ConfigureSysctl cfg) w = (r, w')" "\<not> prefix proc_sys q"
  shows "fs_get (w_fs w') q = fs_get (w_fs w) q"
  using wpD [OF write_sysctls_below [OF assms(1)] assms(2) [unfolded ConfigureSysctl_def]] assms(3)
  by (simp add: only_below_def)

definition sysctl_fs :: fs where
  "sysctl_fs = [([], mkdir_inode), ([''proc''], mkdir_inode), (proc_sys, mkdir_inode),
     ([''etc''], mkdir_inode), ([''etc'', ''a''], mkfile ''x'')]"

theorem ConfigureSysctl_stays_below_witness:
  "fs_get (w_fs (snd (run_state (ConfigureSysctl (emptyConfig\<lparr>K3OS := emptyK3OS\<lparr>Sysctls :=
      [(''../../etc/a'', ''y''), (''/../../etc.a'', ''y'')]\<rparr>\<rparr>)) (calm_world sysctl_fs)))) [''etc'', ''a'']
    = Some (mkfile ''x'')"
proof -
  let ?cfg = "emptyConfig\<lparr>K3OS := emptyK3OS\<lparr>Sysctls := [(''../../etc/a'', ''y''), (''/../../etc.a'', ''y'')]\<rparr>\<rparr>"
  obtain r w' where run: "run_state (ConfigureSysctl ?cfg) (calm_world sysctl_fs) = (r, w')" by fastforce
  have "sysctl_tree (w_fs (calm_world sysctl_fs))"
    by (auto simp: sysctl_tree_def sysctl_fs_def is_dir_def no_links_below_def mkdir_inode_def mkfile_def)
  from ConfigureSysctl_stays_below [OF this run, of "[''etc'', ''a'']"] run
  show ?thesis by (simp add: sysctl_fs_def)
qed

end
