(* ===== verification/System.thy ===== *)
theory System
  imports GoFiles
begin

text \<open>
  \<^verbatim>\<open>pkg/system/system.go\<close>: the directories of the system, and \<^verbatim>\<open>pkg/mode/mode.go\<close>: the boot mode.
  On Unix \<^verbatim>\<open>filepath.Join\<close> is \<^verbatim>\<open>path.Join\<close>.
\<close>

definition rootDirectory :: string where "rootDirectory = ''/k3os/system''"
definition dataDirectory :: string where "dataDirectory = ''/k3os/data''"
definition localDirectory :: string where "localDirectory = ''/var/lib/rancher/k3os''"
definition stateDirectory :: string where "stateDirectory = ''/run/k3os''"

definition RootPath :: "string list \<Rightarrow> string" where
  "RootPath elem = path_Join [rootDirectory, path_Join elem]"

definition DataPath :: "string list \<Rightarrow> string" where
  "DataPath elem = path_Join [dataDirectory, path_Join elem]"

definition LocalPath :: "string list \<Rightarrow> string" where
  "LocalPath elem = path_Join [localDirectory, path_Join elem]"

definition StatePath :: "string list \<Rightarrow> string" where
  "StatePath elem = path_Join [stateDirectory, path_Join elem]"

lemmas directories = rootDirectory_def dataDirectory_def localDirectory_def stateDirectory_def

definition mode_Get :: "string list \<Rightarrow> string os" where
  "mode_Get pre = do {
     bytes \<leftarrow> os_ReadFile (path_Join [path_Join pre, StatePath [''mode'']]);
     State_Monad.return (case bytes of
       Inl e \<Rightarrow> if IsNotExist e then Inr [] else Inl e
     | Inr b \<Rightarrow> Inr (TrimSpace b)) }"

lemma program_mode_Get [program_intros]: "program (mode_Get pre)"
  unfolding mode_Get_def by (intro program_intros)

text \<open>A list of plain elements is joined below the directory, one after the other.\<close>

lemma path_Join_plain:
  assumes "es \<noteq> []" "\<forall>e \<in> set es. plain e"
  shows "filter (\<lambda>e. e \<noteq> []) (Split (path_Join es) slash) = es"
proof -
  obtain x xs where es: "es = x # xs" using assms(1) by (cases es) auto
  have px: "x \<noteq> []" "slash \<notin> set x" using assms(2) es by (simp_all add: plain_def)
  let ?j = "Join es [slash]"
  have sp: "Split ?j slash = es" using assms by (intro Split_Join) (auto simp: plain_def)
  have "\<exists>r. ?j = x @ r" unfolding es by (cases xs) auto
  then have nr: "\<not> is_rooted ?j" "?j \<noteq> []"
    using px by (cases x; auto simp: is_rooted_def)+
  have dw: "dropWhile (\<lambda>e. e = []) es = es" using px by (simp add: es)
  have "path_Join es = path_Clean ?j" using dw es by (simp add: path_Join_def)
  also have "\<dots> = ?j"
    using nr sp clean_elems_plain [OF assms(2), of False "[]"] by (simp add: path_Clean_def Let_def)
  finally have "Split (path_Join es) slash = es" using sp by simp
  then show ?thesis using assms(2) by (auto simp: plain_def intro: filter_True)
qed

lemma path_Join_under:
  assumes "\<forall>c \<in> set d. plain c" "\<forall>e \<in> set es. plain e"
  shows "path_Join [abs_path d, path_Join es] = abs_path (d @ es)"
proof (cases "es = []")
  case True
  have "path_Join [abs_path d, path_Join []] = path_Join [abs_path d, []]" by (simp add: path_Join_def)
  then show ?thesis using path_Join_abs [OF assms(1), of "[]" "[]"] True by simp
next
  case False
  show ?thesis by (rule path_Join_abs [OF assms]) (rule path_Join_plain [OF False assms(2)])
qed

lemma RootPath_plain: "\<forall>e \<in> set es. plain e \<Longrightarrow> RootPath es = abs_path ([''k3os'', ''system''] @ es)"
  using path_Join_under [of "[''k3os'', ''system'']" es] by (simp add: RootPath_def directories abs_path_def plain_def)

lemma LocalPath_plain: "\<forall>e \<in> set es. plain e \<Longrightarrow> LocalPath es = abs_path ([''var'', ''lib'', ''rancher'', ''k3os''] @ es)"
  using path_Join_under [of "[''var'', ''lib'', ''rancher'', ''k3os'']" es]
  by (simp add: LocalPath_def directories abs_path_def plain_def)

lemma StatePath_plain: "\<forall>e \<in> set es. plain e \<Longrightarrow> StatePath es = abs_path ([''run'', ''k3os''] @ es)"
  using path_Join_under [of "[''run'', ''k3os'']" es]
  by (simp add: StatePath_def directories abs_path_def plain_def)

end
