(* ===== verification/GoURL.thy ===== *)
theory GoURL
  imports GoOS GoQuote
begin

text \<open>
  \<^verbatim>\<open>url.Parse\<close> of Go's \<^verbatim>\<open>net/url\<close>, as far as the program looks at its result: the scheme, the opaque
  part, and whether there is an error. A text without a scheme gives the empty scheme here even
  where Go reports an error in its path: the program treats the two alike.
\<close>

definition is_alpha :: "char \<Rightarrow> bool" where
  "is_alpha c = (is_upper c \<or> is_lower c)"

definition is_ctl :: "char \<Rightarrow> bool" where
  "is_ctl c = (of_char c < (32 :: nat) \<or> of_char c = (127 :: nat))"

text \<open>\<open>getscheme\<close>: \<open>None\<close> is an error, otherwise the scheme and the rest.\<close>

fun getscheme :: "string \<Rightarrow> string \<Rightarrow> (string \<times> string) option" where
  "getscheme acc [] = Some ([], acc)"
| "getscheme acc (c # s) =
     (if is_alpha c then getscheme (acc @ [c]) s
      else if is_digit c \<or> c \<in> {CHR ''+'', CHR ''-'', CHR ''.''} then
        (if acc = [] then Some ([], c # s) else getscheme (acc @ [c]) s)
      else if c = CHR '':'' then (if acc = [] then None else Some (acc, s))
      else Some ([], acc @ c # s))"

datatype escmode = EncPath | EncFragment | EncUser | EncHost | EncZone

definition host_char :: "char \<Rightarrow> bool" where
  "host_char c = (is_alpha c \<or> is_digit c
     \<or> c \<in> set ''!$&()*+,;=:[]<>-_.~'' \<or> c = CHR 0x27 \<or> c = CHR 0x22)"

definition hex_pair :: "char \<Rightarrow> char \<Rightarrow> nat option" where
  "hex_pair a b = (case (hex_val a, hex_val b) of (Some x, Some y) \<Rightarrow> Some (x * 16 + y) | _ \<Rightarrow> None)"

text \<open>Whether \<open>unescape\<close> accepts the text: two hex digits after a percent sign, and in a host only
  the bytes a host may have.\<close>

fun unescape_ok :: "escmode \<Rightarrow> string \<Rightarrow> bool" where
  "unescape_ok m [] = True"
| "unescape_ok m (c # s) =
     (if c = CHR ''%'' then
        (case s of
           a # b # t \<Rightarrow>
             (case hex_pair a b of
                None \<Rightarrow> False
              | Some v \<Rightarrow>
                  (m = EncHost \<longrightarrow> v \<ge> 128 \<or> v = 37) \<and>
                  (m = EncZone \<longrightarrow> v = 37 \<or> v = 32 \<or> host_char (char_of v)) \<and>
                  unescape_ok m t)
         | _ \<Rightarrow> False)
      else (m = EncHost \<or> m = EncZone \<longrightarrow> of_char c \<ge> (128 :: nat) \<or> host_char c) \<and> unescape_ok m s)"

definition validOptionalPort :: "string \<Rightarrow> bool" where
  "validOptionalPort p = (p = [] \<or> (hd p = CHR '':'' \<and> list_all is_digit (tl p)))"

text \<open>The text before and from the last occurrence of a byte.\<close>

definition cut_last :: "char \<Rightarrow> string \<Rightarrow> (string \<times> string) option" where
  "cut_last c s =
     (if c \<in> set s
      then Some (butlast (TrimRight (\<lambda>d. d \<noteq> c) s), c # rev (takeWhile (\<lambda>d. d \<noteq> c) (rev s)))
      else None)"

fun cut_zone :: "string \<Rightarrow> (string \<times> string) option" where
  "cut_zone [] = None"
| "cut_zone (c # s) =
     (if take 3 (c # s) = ''%25'' then Some ([], c # s)
      else map_option (\<lambda>(a, b). (c # a, b)) (cut_zone s))"

definition parseHost_ok :: "string \<Rightarrow> bool" where
  "parseHost_ok host =
     (if HasPrefix host ''['' then
        (case cut_last (CHR '']'') host of
           None \<Rightarrow> False
         | Some (addr, rest) \<Rightarrow>
             validOptionalPort (tl rest) \<and>
             (case cut_zone addr of
                Some (h, z) \<Rightarrow> unescape_ok EncHost h \<and> unescape_ok EncZone z \<and> unescape_ok EncHost rest
              | None \<Rightarrow> unescape_ok EncHost host))
      else (case cut_last (CHR '':'') host of Some (_, port) \<Rightarrow> validOptionalPort port | None \<Rightarrow> True)
           \<and> unescape_ok EncHost host)"

definition validUserinfo :: "string \<Rightarrow> bool" where
  "validUserinfo = list_all (\<lambda>c. is_alpha c \<or> is_digit c \<or> c \<in> set ''-._:~!$&()*+,;=%@'' \<or> c = CHR 0x27)"

definition parseAuthority_ok :: "string \<Rightarrow> bool" where
  "parseAuthority_ok authority =
     (case cut_last (CHR ''@'') authority of
        None \<Rightarrow> parseHost_ok authority
      | Some (userinfo, host) \<Rightarrow>
          parseHost_ok (tl host) \<and> validUserinfo userinfo \<and> unescape_ok EncUser userinfo)"

definition url_Parse :: "string \<Rightarrow> (string \<times> string) option" where
  "url_Parse rawurl =
     (let u = takeWhile (\<lambda>c. c \<noteq> CHR ''#'') rawurl;
          frag = tl (dropWhile (\<lambda>c. c \<noteq> CHR ''#'') rawurl)
      in if list_ex is_ctl u then None
         else case getscheme [] u of
           None \<Rightarrow> None
         | Some (scheme, rest) \<Rightarrow>
             if scheme = [] then Some ([], [])
             else
               let rest = takeWhile (\<lambda>c. c \<noteq> CHR ''?'') rest;
                   hier = HasPrefix rest ''/'';
                   auth = takeWhile (\<lambda>c. c \<noteq> slash) (drop 2 rest);
                   p = (if HasPrefix rest ''//'' then drop (2 + length auth) rest else rest)
               in if (hier \<longrightarrow> (HasPrefix rest ''//'' \<longrightarrow> parseAuthority_ok auth) \<and> unescape_ok EncPath p)
                     \<and> unescape_ok EncFragment frag
                  then Some (ToLower scheme, if hier then [] else rest)
                  else None)"

lemmas url_defs [go_eval] = is_alpha_def is_ctl_def hex_pair_def host_char_def validOptionalPort_def cut_last_def
  parseHost_ok_def validUserinfo_def parseAuthority_ok_def url_Parse_def

text \<open>A text whose scheme scan meets a blank first is no URL with a scheme: an SSH key.\<close>

lemma getscheme_blank:
  assumes "\<forall>c \<in> set t. is_alpha c \<or> is_digit c \<or> c \<in> {CHR ''+'', CHR ''-'', CHR ''.''}"
    and "c \<notin> {CHR ''+'', CHR ''-'', CHR ''.'', CHR '':''}" "\<not> is_alpha c" "\<not> is_digit c"
  shows "\<exists>r. getscheme acc (t @ c # s) = Some ([], r)"
  using assms
proof (induction t arbitrary: acc)
  case (Cons d t)
  have nc: "d \<noteq> CHR '':''"
    using Cons.prems(1) by (auto simp: is_alpha_def is_digit_def is_upper_def is_lower_def)
  have "getscheme acc (d # t @ c # s) = getscheme (acc @ [d]) (t @ c # s)
      \<or> (\<exists>r. getscheme acc (d # t @ c # s) = Some ([], r))"
    using Cons.prems(1) nc by simp
  then show ?case using Cons by auto
qed simp

lemma url_Parse_key:
  assumes "\<forall>c \<in> set t. is_alpha c \<or> is_digit c \<or> c \<in> {CHR ''+'', CHR ''-'', CHR ''.''}"
  shows "url_Parse (t @ CHR '' '' # s) \<in> {None, Some ([], [])}"
proof -
  have nh: "CHR ''#'' \<notin> set t" using assms by (auto simp: is_alpha_def is_digit_def is_upper_def is_lower_def)
  let ?s = "takeWhile (\<lambda>c. c \<noteq> CHR ''#'') s"
  have u: "takeWhile (\<lambda>c. c \<noteq> CHR ''#'') (t @ CHR '' '' # s) = t @ CHR '' '' # ?s"
    using nh by (subst takeWhile_append2) auto
  obtain r where "getscheme [] (t @ CHR '' '' # ?s) = Some ([], r)"
    using getscheme_blank [OF assms, of "CHR '' ''" "[]" ?s]
    by (auto simp: is_alpha_def is_digit_def is_upper_def is_lower_def)
  then show ?thesis unfolding url_Parse_def u Let_def by simp
qed

end
