(* ===== verification/SSH.thy ===== *)
theory SSH
  imports Util Config GoURL
begin

text \<open>
  \<^verbatim>\<open>pkg/ssh/ssh.go\<close>: the authorized keys of the user \<open>rancher\<close>: finding the home directory in the
  password file, fetching a key, and appending it to the file atomically.
\<close>

section \<open>The code\<close>

text \<open>The loop over the lines of the password file; what was found so far is kept when a line is
  too short, and a later matching line overwrites an earlier one.\<close>

primrec find_user :: "string \<Rightarrow> string list \<Rightarrow> int \<times> int \<times> string \<Rightarrow> goerror + int \<times> int \<times> string" where
  "find_user username [] found = Inr found"
| "find_user username (line # ls) found =
     (if HasPrefix line username then
        (let split = Split line (CHR '':'') in
         if length split < 6 then Inr found
         else case Atoi (split ! 2) of
           None \<Rightarrow> Inl (ErrMsg ''strconv.Atoi: invalid syntax'')
         | Some uid \<Rightarrow>
            (case Atoi (split ! 3) of
               None \<Rightarrow> Inl (ErrMsg ''strconv.Atoi: invalid syntax'')
             | Some gid \<Rightarrow> find_user username ls (uid, gid, split ! 5)))
      else find_user username ls found)"

definition findUserHomeDir :: "string \<Rightarrow> string \<Rightarrow> goerror + int \<times> int \<times> string" where
  "findUserHomeDir bytes username = find_user username (Split bytes newline) (0, 0, [])"

text \<open>The text of an error, for the test \<open>getKey\<close> makes on it.\<close>

fun err_text :: "goerror \<Rightarrow> string" where
  "err_text (ErrMsg s) = s"
| "err_text (ErrWrap s e) = s @ err_text e"
| "err_text (GoPanic s) = s"
| "err_text ErrEOF = ''EOF''"
| "err_text _ = ''system call failed''"

definition providers :: "(string \<times> (string \<Rightarrow> string)) list" where
  "providers = [(''github'', \<lambda>u. ''https://github.com/'' @ u @ ''.keys''),
                (''gitlab'', \<lambda>u. ''https://gitlab.com/'' @ u @ ''.keys'')]"

text \<open>At most \<open>n\<close> requests, a second apart; a protocol Go does not speak ends them at once.\<close>

primrec get_tries :: "nat \<Rightarrow> string \<Rightarrow> goerror + http_resp \<Rightarrow> http_resp os" where
  "get_tries 0 key last_resp = State_Monad.return last_resp"
| "get_tries (Suc n) key last_resp = do {
     resp \<leftarrow> http_Get key;
     (case resp of
        Inr _ \<Rightarrow> State_Monad.return resp
      | Inl e \<Rightarrow> if Contains (err_text e) ''unsupported protocol scheme''
                then State_Monad.return resp else get_tries n key resp) }"

definition getKey :: "string \<Rightarrow> bool \<Rightarrow> string os" where
  "getKey key withNet =
     (case url_Parse key of
        None \<Rightarrow> State_Monad.return (Inr key)
      | Some (Scheme, Opaque) \<Rightarrow>
          if Scheme = [] then State_Monad.return (Inr key)
          else if \<not> withNet then State_Monad.return (Inr [])
          else do {
            let key = (case map_of providers Scheme of Some providerURL \<Rightarrow> providerURL Opaque | None \<Rightarrow> key);
            resp \<leftarrow> get_tries 10 key (Inl (ErrMsg []));
            onok resp (\<lambda>resp.
              if h_code resp div 100 > 2
              then State_Monad.return (Inl (ErrMsg (h_proto resp @ '' '' @ h_status resp)))
              else State_Monad.return (h_body resp)) })"

text \<open>\<open>f.Chmod\<close> on an open file.\<close>

definition fd_Chmod :: "path \<Rightarrow> filemode \<Rightarrow> unit os" where
  "fd_Chmod p m = fs_call (\<lambda>w. case fs_get (w_fs w) p of
     None \<Rightarrow> Inr ((), w_fs w)
   | Some i \<Rightarrow> Inr ((), fs_put p (i\<lparr>i_mode := syscallMode m\<rparr>) (w_fs w)))"

definition create_keys :: "string \<Rightarrow> fileinfo os" where
  "create_keys file = do {
     f \<leftarrow> os_Create file;
     onok f (\<lambda>f. do {
     r \<leftarrow> fd_Chmod f 384;
     onok r (\<lambda>_. do {
     r \<leftarrow> fd_Close f;
     onok r (\<lambda>_. os_Stat file) }) }) }"

definition append_key :: "string \<Rightarrow> string \<Rightarrow> string" where
  "append_key bytes key = (if \<not> Contains bytes key then bytes @ key @ [newline] else bytes)"

definition authorizeSSHKey :: "string \<Rightarrow> string \<Rightarrow> int \<Rightarrow> int \<Rightarrow> bool \<Rightarrow> unit os" where
  "authorizeSSHKey key file uid gid withNet = do {
     k \<leftarrow> getKey key withNet;
     onok k (\<lambda>key.
       if key = [] then State_Monad.return (Inr ())
       else do {
         info \<leftarrow> os_Stat file;
         info \<leftarrow> (case info of
                   Inr fi \<Rightarrow> State_Monad.return (Inr fi)
                 | Inl e \<Rightarrow> if IsNotExist e then create_keys file else State_Monad.return (Inl e));
         onok info (\<lambda>info. do {
         bytes \<leftarrow> os_ReadFile file;
         onok bytes (\<lambda>bytes. do {
         r \<leftarrow> WriteFileAtomic file (append_key bytes key) (Perm (goMode (fi_inode info)));
         onok r (\<lambda>_. os_Chown file uid gid) }) }) }) }"

primrec authorize_all :: "string list \<Rightarrow> string \<Rightarrow> int \<Rightarrow> int \<Rightarrow> bool \<Rightarrow> (world, unit) state" where
  "authorize_all [] file uid gid withNet = State_Monad.return ()"
| "authorize_all (key # ks) file uid gid withNet = do {
     r \<leftarrow> authorizeSSHKey key file uid gid withNet;
     _ \<leftarrow> (case r of Inl e \<Rightarrow> emit (EvLog (ErrWrap (''failed to authorize SSH key '' @ key @ '': '') e))
                   | Inr _ \<Rightarrow> State_Monad.return ());
     authorize_all ks file uid gid withNet }"

text \<open>The user's \<^verbatim>\<open>.ssh\<close> directory: made if it is missing, and given to the user.\<close>

definition prepare_ssh_dir :: "string \<Rightarrow> int \<Rightarrow> int \<Rightarrow> unit os" where
  "prepare_ssh_dir dir uid gid = do {
     st \<leftarrow> os_Stat dir;
     r \<leftarrow> (case st of
            Inl e \<Rightarrow> if IsNotExist e then os_Mkdir dir 448 else State_Monad.return (Inl e)
          | Inr _ \<Rightarrow> State_Monad.return (Inr ()));
     onok r (\<lambda>_. os_Chown dir uid gid) }"

definition SetAuthorizedKeys :: "CloudConfig \<Rightarrow> bool \<Rightarrow> unit os" where
  "SetAuthorizedKeys cfg withNet = do {
     bytes \<leftarrow> os_ReadFile ''/etc/passwd'';
     onok bytes (\<lambda>bytes. onok (findUserHomeDir bytes ''rancher'') (\<lambda>(uid, gid, homeDir). do {
     let userSSHDir = path_Join [homeDir, ''.ssh''];
     r \<leftarrow> prepare_ssh_dir userSSHDir uid gid;
     onok r (\<lambda>_. do {
     let userAuthorizedFile = path_Join [userSSHDir, ''authorized_keys''];
     _ \<leftarrow> authorize_all (SSHAuthorizedKeys cfg) userAuthorizedFile uid gid withNet;
     State_Monad.return (Inr ()) }) })) }"

lemma program_get_tries [program_intros]: "program (get_tries n key l)"
  by (induction n arbitrary: l) (auto intro!: program_intros)

lemma program_getKey [program_intros]: "program (getKey key withNet)"
  unfolding getKey_def Let_def by (intro program_intros)

lemma program_fd_Chmod [program_intros]: "program (fd_Chmod p m)"
  unfolding fd_Chmod_def
  by (rule program_fs_call) (auto split: option.splits intro!: k_change)

lemma program_create_keys [program_intros]: "program (create_keys file)"
  unfolding create_keys_def by (intro program_intros)

lemma program_authorizeSSHKey [program_intros]: "program (authorizeSSHKey key file uid gid n)"
  unfolding authorizeSSHKey_def by (intro program_intros)

lemma program_authorize_all [program_intros]: "program (authorize_all ks file uid gid n)"
  by (induction ks) (auto intro!: program_intros)

lemma program_prepare_ssh_dir [program_intros]: "program (prepare_ssh_dir d u g)"
  unfolding prepare_ssh_dir_def by (intro program_intros)

lemma program_SetAuthorizedKeys [program_intros]: "program (SetAuthorizedKeys cfg n)"
  unfolding SetAuthorizedKeys_def Let_def by (intro program_intros)

section \<open>Fetching a key\<close>

lemma get_tries_fs: "w_fs (snd (run_state (get_tries n key l) w)) = w_fs w"
  by (induction n arbitrary: l w) (auto simp: http_Get_def split: sum.splits)

lemma getKey_fs: "wp (getKey key withNet) (\<lambda>_ v. w_fs v = w_fs w) w"
proof -
  have "wp (get_tries n k l) (\<lambda>r v. w_fs v = w_fs w) w" for n k l
    using get_tries_fs [of n k l w] by (simp add: wp_def case_prod_beta)
  then have "wp (get_tries n k l) (\<lambda>r. wp (onok r (\<lambda>resp.
              if h_code resp div 100 > 2
              then State_Monad.return (Inl (ErrMsg (h_proto resp @ '' '' @ h_status resp)))
              else State_Monad.return (h_body resp))) (\<lambda>_ v. w_fs v = w_fs w)) w" for n k l
    by (rule wp_mono) (auto simp: onok_def split: sum.split)
  then show ?thesis unfolding getKey_def Let_def
    by (auto split: option.split simp del: get_tries.simps)
qed

lemma get_tries_requests:
  "\<exists>k \<le> n. w_trace (snd (run_state (get_tries n key l) w)) = w_trace w @ replicate k (EvGet key)"
proof (induction n arbitrary: l w)
  case (Suc n)
  obtain r v where g: "run_state (http_Get key) w = (r, v)" "w_trace v = w_trace w @ [EvGet key]"
    by (simp add: http_Get_def)
  show ?case
  proof (cases "\<exists>e. r = Inl e \<and> \<not> Contains (err_text e) ''unsupported protocol scheme''")
    case True
    then obtain e where e: "r = Inl e" "\<not> Contains (err_text e) ''unsupported protocol scheme''" by blast
    obtain k where "k \<le> n" "w_trace (snd (run_state (get_tries n key r) v)) = w_trace v @ replicate k (EvGet key)"
      using Suc.IH by blast
    then show ?thesis using g e by (intro exI [of _ "Suc k"]) (simp add: replicate_append_same [symmetric])
  next
    case False
    then show ?thesis using g by (intro exI [of _ 1]) (auto split: sum.splits)
  qed
qed simp

section \<open>Keeping the keys\<close>

text \<open>No failure of the schedule claims that an existing file is missing.\<close>

definition honest_faults :: "world \<Rightarrow> bool" where
  "honest_faults w = (\<forall>n e k. w_fault w n = Some (e, k) \<longrightarrow> e \<noteq> ENOENT)"

lemma wp_os_Stat_there:
  assumes "honest_faults w" "direct (w_fs w) p" "fs_get (w_fs w) p = Some i" "i_kind i = KReg c"
    and "\<And>e. e \<noteq> ENOENT \<Longrightarrow> Q (Inl (Errno e)) (tick w)"
    and "Q (Inr \<lparr>fi_name = path_Base (abs_path p), fi_inode = i\<rparr>) (tick w)"
  shows "wp (os_Stat (abs_path p)) Q w"
proof -
  have "resolve w True (abs_path p) = Inr p" using assms(2-4) by (intro resolve_abs) auto
  then show ?thesis
    using assms by (auto simp: os_Stat_def fs_call_def fs_call_part_def with_inode_def with_path_def
        honest_faults_def split: option.split)
qed

lemma append_key_keeps: "prefix b (append_key b key)"
  by (simp add: append_key_def)

lemma append_key_has: "Contains (append_key b key) key"
  by (auto simp: append_key_def Contains_def sublist_def)

lemma outcome_direct:
  assumes a: "atomic_outcome w p b' perm r v" and d: "direct (w_fs w) p"
    and i: "fs_get (w_fs w) p = Some i" "i_kind i \<noteq> KDir"
  shows "direct (w_fs v) p"
proof -
  obtain t where t: "t \<noteq> p" "fs_get (w_fs w) t = None"
      "\<And>q. q \<noteq> p \<Longrightarrow> q \<noteq> t \<Longrightarrow> fs_get (w_fs v) q = fs_get (w_fs w) q"
    using a by (auto simp: atomic_outcome_def)
  show ?thesis
  proof (rule direct_mono [OF d])
    fix q assume q: "is_dir (w_fs w) q"
    then have "q \<noteq> p" "q \<noteq> t" using i t(2) by (auto simp: is_dir_def)
    then show "is_dir (w_fs v) q" using q t(3) by (simp add: is_dir_def)
  qed
qed

text \<open>The write and the change of owner: the file ends with a new content or with the old one.\<close>

lemma wp_write_chown:
  assumes wf: "wf_world w" and gr: "good_rand w" and d: "direct (w_fs w) p"
    and i: "fs_get (w_fs w) p = Some i" "i_kind i = KReg b"
  shows "wp (do { r \<leftarrow> WriteFileAtomic (abs_path p) b' perm; onok r (\<lambda>_. os_Chown (abs_path p) uid gid) })
    (\<lambda>r v. direct (w_fs v) p \<and> (\<exists>j c. fs_get (w_fs v) p = Some j \<and> i_kind j = KReg c \<and> (c = b \<or> c = b')
        \<and> (is_ok r \<longrightarrow> c = b'))) w"
  unfolding wp_bind
proof (rule wp_mono [OF wfa.wr_atomic [OF wf gr d]])
  fix r :: "goerror + unit" and v
  assume a: "atomic_outcome w p b' perm r v"
  have dv: "direct (w_fs v) p" using outcome_direct [OF a d i(1)] i(2) by simp
  obtain j c where j: "fs_get (w_fs v) p = Some j" "i_kind j = KReg c" "c = b \<or> c = b'" "is_ok r \<longrightarrow> c = b'"
    using a i by (auto simp: atomic_outcome_def replaced_def)
  show "wp (onok r (\<lambda>_. os_Chown (abs_path p) uid gid)) (\<lambda>r v. direct (w_fs v) p \<and>
      (\<exists>j c. fs_get (w_fs v) p = Some j \<and> i_kind j = KReg c \<and> (c = b \<or> c = b')
        \<and> (is_ok r \<longrightarrow> c = b'))) v"
  proof (cases r)
    case (Inl e)
    then show ?thesis using dv j by simp
  next
    case (Inr u)
    have r: "resolve v True (abs_path p) = Inr p" using dv j by (intro resolve_abs) auto
    have dj: "direct (fs_put p (j\<lparr>i_uid := uid, i_gid := gid\<rparr>) (w_fs v)) p"
      by (rule direct_mono [OF dv]) (use j in \<open>auto simp: is_dir_def\<close>)
    show ?thesis unfolding Inr onok_simps
      by (rule wp_os_Chown) (use r dv dj j Inr in auto)
  qed
qed

lemma honest_outside: "outside v = outside w \<Longrightarrow> honest_faults v = honest_faults w"
  by (simp add: outside_def honest_faults_def)

lemma good_rand_outside: "outside v = outside w \<Longrightarrow> good_rand v = good_rand w"
  by (simp add: outside_def good_rand_def)

text \<open>One key: the file is left alone or gets the key appended, and success means it has it.\<close>

definition key_outcome :: "path \<Rightarrow> string \<Rightarrow> goerror + string \<Rightarrow> goerror + unit \<Rightarrow> world \<Rightarrow> bool" where
  "key_outcome p b k r v =
     (\<exists>c. file_is p c v \<and> (c = b \<or> (\<exists>key. k = Inr key \<and> c = append_key b key))
        \<and> (is_ok r \<longrightarrow> (\<exists>key. k = Inr key \<and> (key = [] \<or> c = append_key b key))))"

lemma key_outcome_failed: "file_is p b v \<Longrightarrow> key_outcome p b k (Inl e) v"
  by (auto simp: key_outcome_def)

lemma wp_install_key:
  assumes wf: "wf_world w" and gr: "good_rand w" and h: "honest_faults w" and f: "file_is p b w"
  shows "wp (do {
         info \<leftarrow> os_Stat (abs_path p);
         info \<leftarrow> (case info of
                   Inr fi \<Rightarrow> State_Monad.return (Inr fi)
                 | Inl e \<Rightarrow> if IsNotExist e then create_keys (abs_path p) else State_Monad.return (Inl e));
         onok info (\<lambda>info. do {
         bytes \<leftarrow> os_ReadFile (abs_path p);
         onok bytes (\<lambda>bytes. do {
         r \<leftarrow> WriteFileAtomic (abs_path p) (append_key bytes key) (Perm (goMode (fi_inode info)));
         onok r (\<lambda>_. os_Chown (abs_path p) uid gid) }) }) }) (key_outcome p b (Inr key)) w"
proof -
  obtain i where i: "fs_get (w_fs w) p = Some i" "i_kind i = KReg b" and d: "direct (w_fs w) p"
    using f by (auto simp: file_is_def)
  let ?v = "tick (tick w)"
  have fv: "file_is p b ?v" using f by simp
  have wfv: "wf_world ?v" using wf by (simp add: wf_world_def sane_outside_def)
  have grv: "good_rand ?v" using gr by (simp add: good_rand_def)
  have res: "resolve (tick w) True (abs_path p) = Inr p" using d i by (intro resolve_abs) auto
  show ?thesis
    unfolding wp_bind [of "os_Stat _"]
  proof (rule wp_os_Stat_there [OF h d i])
    fix e
    assume "e \<noteq> ENOENT"
    then show "wp (do { info \<leftarrow> (case Inl (Errno e) of
                   Inr fi \<Rightarrow> State_Monad.return (Inr fi)
                 | Inl e \<Rightarrow> if IsNotExist e then create_keys (abs_path p) else State_Monad.return (Inl e));
         onok info (\<lambda>info. do {
         bytes \<leftarrow> os_ReadFile (abs_path p);
         onok bytes (\<lambda>bytes. do {
         r \<leftarrow> WriteFileAtomic (abs_path p) (append_key bytes key) (Perm (goMode (fi_inode info)));
         onok r (\<lambda>_. os_Chown (abs_path p) uid gid) }) }) }) (key_outcome p b (Inr key)) (tick w)"
      using f by (simp add: IsNotExist_def key_outcome_failed)
  next
    let ?fi = "\<lparr>fi_name = path_Base (abs_path p), fi_inode = i\<rparr>"
    have "wp (os_ReadFile (abs_path p)) (\<lambda>bytes. wp (onok bytes (\<lambda>bytes. do {
         r \<leftarrow> WriteFileAtomic (abs_path p) (append_key bytes key) (Perm (goMode i));
         onok r (\<lambda>_. os_Chown (abs_path p) uid gid) })) (key_outcome p b (Inr key))) (tick w)"
    proof (rule wp_os_ReadFile)
      fix e
      show "wp (onok (Inl e) (\<lambda>bytes. do {
         r \<leftarrow> WriteFileAtomic (abs_path p) (append_key bytes key) (Perm (goMode i));
         onok r (\<lambda>_. os_Chown (abs_path p) uid gid) })) (key_outcome p b (Inr key)) ?v"
        unfolding onok_simps wp_return using fv by (rule key_outcome_failed)
    next
      fix q j c
      assume "resolve (tick w) True (abs_path p) = Inr q" "fs_get (w_fs (tick w)) q = Some j" "i_kind j = KReg c"
      then have "c = b" using res i by simp
      moreover have "wp (do {
         r \<leftarrow> WriteFileAtomic (abs_path p) (append_key b key) (Perm (goMode i));
         onok r (\<lambda>_. os_Chown (abs_path p) uid gid) }) (key_outcome p b (Inr key)) ?v"
        by (rule wp_mono [OF wp_write_chown [OF wfv grv]])
          (use d i in \<open>auto simp: key_outcome_def file_is_def\<close>)
      ultimately show "wp (onok (Inr c) (\<lambda>bytes. do {
         r \<leftarrow> WriteFileAtomic (abs_path p) (append_key bytes key) (Perm (goMode i));
         onok r (\<lambda>_. os_Chown (abs_path p) uid gid) })) (key_outcome p b (Inr key)) ?v"
        unfolding onok_simps by simp
    qed
    then show "wp (do { info \<leftarrow> (case Inr ?fi of
                   Inr fi \<Rightarrow> State_Monad.return (Inr fi)
                 | Inl e \<Rightarrow> if IsNotExist e then create_keys (abs_path p) else State_Monad.return (Inl e));
         onok info (\<lambda>info. do {
         bytes \<leftarrow> os_ReadFile (abs_path p);
         onok bytes (\<lambda>bytes. do {
         r \<leftarrow> WriteFileAtomic (abs_path p) (append_key bytes key) (Perm (goMode (fi_inode info)));
         onok r (\<lambda>_. os_Chown (abs_path p) uid gid) }) }) }) (key_outcome p b (Inr key)) (tick w)"
      by (simp only: sum.case wp_bind wp_return onok_simps fileinfo.select_convs)
  qed
qed

lemma wp_authorizeSSHKey:
  assumes wf: "wf_world w" and gr: "good_rand w" and h: "honest_faults w" and f: "file_is p b w"
  shows "wp (authorizeSSHKey key (abs_path p) uid gid withNet)
    (key_outcome p b (fst (run_state (getKey key withNet) w))) w"
proof -
  obtain k v where g: "run_state (getKey key withNet) w = (k, v)" by fastforce
  have v: "w_fs v = w_fs w" using wpD [OF getKey_fs g] .
  have ov: "outside v = outside w" using outside.run_keeps [OF program_getKey g] by simp
  have wfv: "wf_world v" using tree.run_keeps [OF program_getKey g wf] .
  have fv: "file_is p b v" using f file_is_cong [OF v] by simp
  note wi = wp_install_key [OF wfv good_rand_outside [OF ov, THEN iffD2, OF gr]
      honest_outside [OF ov, THEN iffD2, OF h] fv]
  show ?thesis
    unfolding authorizeSSHKey_def wp_bind [of "getKey _ _"]
    unfolding wp_def [of "getKey _ _"] g prod.case fst_conv
  proof (cases k)
    case (Inl e)
    show "wp (onok k (\<lambda>key. if key = [] then State_Monad.return (Inr ()) else do {
         info \<leftarrow> os_Stat (abs_path p);
         info \<leftarrow> (case info of
                   Inr fi \<Rightarrow> State_Monad.return (Inr fi)
                 | Inl e \<Rightarrow> if IsNotExist e then create_keys (abs_path p) else State_Monad.return (Inl e));
         onok info (\<lambda>info. do {
         bytes \<leftarrow> os_ReadFile (abs_path p);
         onok bytes (\<lambda>bytes. do {
         r \<leftarrow> WriteFileAtomic (abs_path p) (append_key bytes key) (Perm (goMode (fi_inode info)));
         onok r (\<lambda>_. os_Chown (abs_path p) uid gid) }) }) })) (key_outcome p b k) v"
      unfolding Inl onok_simps wp_return using fv by (rule key_outcome_failed)
  next
    case (Inr key')
    show "wp (onok k (\<lambda>key. if key = [] then State_Monad.return (Inr ()) else do {
         info \<leftarrow> os_Stat (abs_path p);
         info \<leftarrow> (case info of
                   Inr fi \<Rightarrow> State_Monad.return (Inr fi)
                 | Inl e \<Rightarrow> if IsNotExist e then create_keys (abs_path p) else State_Monad.return (Inl e));
         onok info (\<lambda>info. do {
         bytes \<leftarrow> os_ReadFile (abs_path p);
         onok bytes (\<lambda>bytes. do {
         r \<leftarrow> WriteFileAtomic (abs_path p) (append_key bytes key) (Perm (goMode (fi_inode info)));
         onok r (\<lambda>_. os_Chown (abs_path p) uid gid) }) }) })) (key_outcome p b k) v"
    proof (cases "key' = []")
      case True
      then show ?thesis unfolding Inr onok_simps using fv by (auto simp: key_outcome_def)
    next
      case False
      then show ?thesis unfolding Inr onok_simps if_not_P [OF False] by (intro wi)
    qed
  qed
qed

lemma wp_authorize_calm:
  assumes ff: "fault_free w" and wf: "wf_world w" and gr: "good_rand w" and f: "file_is p b w"
    and star: "CHR ''*'' \<notin> set (last p)"
    and free: "\<And>c. fs_get (w_fs w) (butlast p @ [(CHR ''.'' # last p) @ c]) = None"
    and gk: "run_state (getKey key withNet) w = (Inr key, w)" and key: "key \<noteq> []"
  shows "wp (authorizeSSHKey key (abs_path p) uid gid withNet) (\<lambda>r _. is_ok r) w"
proof -
  obtain i where i: "fs_get (w_fs w) p = Some i" "i_kind i = KReg b" and d: "direct (w_fs w) p"
    using f by (auto simp: file_is_def)
  have res: "resolve w True (abs_path p) = Inr p" "resolve (tick w) True (abs_path p) = Inr p"
    using d i by (auto intro!: resolve_abs)
  let ?v = "tick (tick w)"
  have v: "fault_free ?v" "wf_world ?v" "good_rand ?v" "direct (w_fs ?v) p" "file_is p b ?v"
    using ff wf gr d f by (simp_all add: wf_world_def sane_outside_def good_rand_def)
  have same_fs: "?v\<lparr>w_fs := w_fs w\<rparr> = ?v" by (simp add: tick_def)
  let ?W = "WriteFileAtomic (abs_path p) (append_key b key) (Perm (goMode i))"
  have W: "wp ?W (\<lambda>r u. is_ok r \<and> fault_free u \<and> (\<exists>c. file_is p c u)) ?v"
  proof (rule wpI)
    fix r u
    assume run: "run_state ?W ?v = (r, u)"
    have ok: "is_ok r"
      by (rule wpD [OF WriteFileAtomic_calm [OF v(1-4)] run]) (use i star free in \<open>auto simp: is_dir_def\<close>)
    moreover have "fault_free u" by (rule run_fault_free [OF program_WriteFileAtomic run v(1)])
    moreover have "\<exists>c. file_is p c u"
    proof -
      let ?M = "do { r \<leftarrow> ?W; onok r (\<lambda>_. os_Chown (abs_path p) uid gid) }"
      have out: "atomic_outcome ?v p (append_key b key) (Perm (goMode i)) r u"
        using wpD [OF wfa.wr_atomic [OF v(2-4)] run] .
      have "direct (w_fs u) p" using outcome_direct [OF out v(4)] i by simp
      then show ?thesis using out ok by (auto simp: atomic_outcome_def replaced_def file_is_def)
    qed
    ultimately show "is_ok r \<and> fault_free u \<and> (\<exists>c. file_is p c u)" by blast
  qed
  have C: "wp (os_Chown (abs_path p) uid gid) (\<lambda>r _. is_ok r) u" if u: "fault_free u" "file_is p c u" for u c
  proof -
    have "resolve u True (abs_path p) = Inr p" using u(2) by (intro resolve_abs) (auto simp: file_is_def)
    then show ?thesis using u by (auto simp: os_Chown_def wp_fs_call_calm path_cases file_is_def)
  qed
  have WC: "wp (do { r \<leftarrow> ?W; onok r (\<lambda>_. os_Chown (abs_path p) uid gid) }) (\<lambda>r _. is_ok r) ?v"
    unfolding wp_bind
  proof (rule wp_mono [OF W])
    fix r :: "goerror + unit" and u
    assume "is_ok r \<and> fault_free u \<and> (\<exists>c. file_is p c u)"
    then show "wp (onok r (\<lambda>_. os_Chown (abs_path p) uid gid)) (\<lambda>r _. is_ok r) u"
      using C by (cases r) auto
  qed
  have "wp (os_Stat (abs_path p)) (\<lambda>info. wp (do {
         info \<leftarrow> (case info of
                   Inr fi \<Rightarrow> State_Monad.return (Inr fi)
                 | Inl e \<Rightarrow> if IsNotExist e then create_keys (abs_path p) else State_Monad.return (Inl e));
         onok info (\<lambda>info. do {
         bytes \<leftarrow> os_ReadFile (abs_path p);
         onok bytes (\<lambda>bytes. do {
         r \<leftarrow> WriteFileAtomic (abs_path p) (append_key bytes key) (Perm (goMode (fi_inode info)));
         onok r (\<lambda>_. os_Chown (abs_path p) uid gid) }) }) }) (\<lambda>r _. is_ok r)) w"
    using ff res i WC by (simp add: os_Stat_def os_ReadFile_def wp_fs_call_calm path_cases same_fs)
  then show ?thesis
    unfolding authorizeSSHKey_def wp_bind [of "getKey _ _"] wp_def [of "getKey _ _"] gk prod.case onok_simps
      if_not_P [OF key] wp_bind [of "os_Stat _"] .
qed

text \<open>A whole list of keys: what was in the file stays at its beginning.\<close>

lemma authorize_all_keeps:
  assumes "wf_world w" "good_rand w" "honest_faults w" "file_is p b w"
    and "run_state (authorize_all ks (abs_path p) uid gid withNet) w = (u, w')"
  shows "\<exists>c. file_is p c w' \<and> prefix b c"
  using assms
proof (induction ks arbitrary: w b)
  case (Cons key ks)
  obtain r v where r: "run_state (authorizeSSHKey key (abs_path p) uid gid withNet) w = (r, v)" by fastforce
  let ?log = "(case r of Inl e \<Rightarrow> emit (EvLog (ErrWrap (''failed to authorize SSH key '' @ key @ '': '') e))
                   | Inr _ \<Rightarrow> State_Monad.return ()) :: (world, unit) state"
  obtain v1 where l: "run_state ?log v = ((), v1)" and v1: "w_fs v1 = w_fs v"
    by (cases r) (simp_all add: emit_def)
  have run: "run_state (authorize_all ks (abs_path p) uid gid withNet) v1 = (u, w')"
    using Cons.prems(5) r l by simp
  have p1: "program (do { r \<leftarrow> authorizeSSHKey key (abs_path p) uid gid withNet; (case r of Inl e \<Rightarrow> emit (EvLog (ErrWrap (''failed to authorize SSH key '' @ key @ '': '') e))
                   | Inr _ \<Rightarrow> State_Monad.return ()) })" by (intro program_intros)
  have run1: "run_state (do { r \<leftarrow> authorizeSSHKey key (abs_path p) uid gid withNet; (case r of Inl e \<Rightarrow> emit (EvLog (ErrWrap (''failed to authorize SSH key '' @ key @ '': '') e))
                   | Inr _ \<Rightarrow> State_Monad.return ()) }) w = ((), v1)"
    using r l by simp
  have o: "outside v1 = outside w" using outside.run_keeps [OF p1 run1] by simp
  obtain c where c: "file_is p c v" "prefix b c"
    using wpD [OF wp_authorizeSSHKey [OF Cons.prems(1-4)] r] append_key_keeps
    by (auto simp: key_outcome_def)
  have "file_is p c v1" using c(1) file_is_cong [OF v1] by simp
  then obtain c' where "file_is p c' w'" "prefix c c'"
    using Cons.IH [OF tree.run_keeps [OF p1 run1 Cons.prems(1)] _ _ _ run, of c]
      good_rand_outside [OF o] honest_outside [OF o] Cons.prems(2,3) by blast
  then show ?case using c(2) prefix_order.trans by blast
qed auto

section \<open>The whole operation\<close>

lemma file_is_Chown: "file_is p b w \<Longrightarrow> wp (os_Chown s u g) (\<lambda>_. file_is p b) w"
  by (rule wp_os_Chown) (simp, erule (1) file_is_put_same, simp_all)

lemma file_is_Mkdir: "file_is p b w \<Longrightarrow> wp (os_Mkdir s m) (\<lambda>_. file_is p b) w"
  by (rule wp_os_Mkdir) (simp, erule (1) file_is_new, simp)

lemma file_is_Stat: "file_is p b w \<Longrightarrow> wp (os_Stat s) (\<lambda>_. file_is p b) w"
  by (rule wp_os_Stat) auto

lemma file_is_ReadFile:
  "file_is p b w \<Longrightarrow> file_is q bytes w \<Longrightarrow>
   wp (os_ReadFile (abs_path q)) (\<lambda>r v. file_is p b v \<and> (\<forall>x. r = Inr x \<longrightarrow> x = bytes)) w"
proof (rule wp_os_ReadFile)
  fix a i c
  assume f: "file_is p b w" "file_is q bytes w"
    and "resolve w True (abs_path q) = Inr a" "fs_get (w_fs w) a = Some i" "i_kind i = KReg c"
  moreover have "resolve w True (abs_path q) = Inr q"
    using f(2) by (intro resolve_abs) (auto simp: file_is_def)
  ultimately show "file_is p b (tick w) \<and> (\<forall>x. Inr c = Inr x \<longrightarrow> x = bytes)"
    by (auto simp: file_is_def)
qed auto

lemma file_is_prepare: "file_is p b w \<Longrightarrow> wp (prepare_ssh_dir d u g) (\<lambda>_. file_is p b) w"
  unfolding prepare_ssh_dir_def wp_bind [of "os_Stat _"]
proof (rule wp_mono [OF file_is_Stat], assumption)
  fix st :: "goerror + fileinfo" and v
  assume v: "file_is p b v"
  have m: "wp (case st of
            Inl e \<Rightarrow> if IsNotExist e then os_Mkdir d 448 else State_Monad.return (Inl e)
          | Inr _ \<Rightarrow> State_Monad.return (Inr ())) (\<lambda>_. file_is p b) v"
    using v file_is_Mkdir by (cases st) simp_all
  show "wp (do { r \<leftarrow> (case st of
            Inl e \<Rightarrow> if IsNotExist e then os_Mkdir d 448 else State_Monad.return (Inl e)
          | Inr _ \<Rightarrow> State_Monad.return (Inr ()));
     onok r (\<lambda>_. os_Chown d u g) }) (\<lambda>_. file_is p b) v"
    unfolding wp_bind by (rule wp_mono [OF m]) (auto simp: onok_def file_is_Chown split: sum.split)
qed

lemma SetAuthorizedKeys_keeps:
  assumes wf: "wf_world w" and gr: "good_rand w" and h: "honest_faults w" and f: "file_is p b w"
    and pw: "file_is [''etc'', ''passwd''] bytes w"
    and home: "\<And>u g hd. findUserHomeDir bytes ''rancher'' = Inr (u, g, hd) \<Longrightarrow>
      path_Join [path_Join [hd, ''.ssh''], ''authorized_keys''] = abs_path p"
    and run: "run_state (SetAuthorizedKeys cfg withNet) w = (r, w')"
  shows "\<exists>c. file_is p c w' \<and> prefix b c"
proof -
  obtain rb v where rd: "run_state (os_ReadFile ''/etc/passwd'') w = (rb, v)" by fastforce
  have nm: "''/etc/passwd'' = abs_path [''etc'', ''passwd'']" by (simp add: abs_path_def)
  have v: "file_is p b v" and rb: "\<And>x. rb = Inr x \<Longrightarrow> x = bytes"
    using wpD [OF file_is_ReadFile [OF f pw] rd [unfolded nm]] by auto
  show ?thesis
  proof (cases "is_ok rb \<and> is_ok (findUserHomeDir bytes ''rancher'')")
    case False
    have "w' = v"
    proof (cases rb)
      case (Inl e)
      then show ?thesis using run rd by (simp add: SetAuthorizedKeys_def)
    next
      case (Inr x)
      then obtain e where "findUserHomeDir bytes ''rancher'' = Inl e"
        using False Inr by (cases "findUserHomeDir bytes ''rancher''") auto
      then show ?thesis using run rd rb [OF Inr] Inr by (simp add: SetAuthorizedKeys_def)
    qed
    then show ?thesis using v by blast
  next
    case True
    then obtain x u g hd where ok': "rb = Inr x" "findUserHomeDir bytes ''rancher'' = Inr (u, g, hd)"
      by (auto simp: is_ok_iff)
    then have ok: "rb = Inr bytes" "findUserHomeDir bytes ''rancher'' = Inr (u, g, hd)"
      using rb [OF ok'(1)] by simp_all
    let ?d = "path_Join [hd, ''.ssh'']"
    obtain rp v1 where prep: "run_state (prepare_ssh_dir ?d u g) v = (rp, v1)" by fastforce
    have v1: "file_is p b v1" using wpD [OF file_is_prepare [OF v] prep] .
    show ?thesis
    proof (cases rp)
      case (Inl e)
      then have "w' = v1" using run rd ok prep by (simp add: SetAuthorizedKeys_def Let_def)
      then show ?thesis using v1 by blast
    next
      case (Inr x)
      have P: "program (do { _ \<leftarrow> os_ReadFile ''/etc/passwd''; prepare_ssh_dir ?d u g })"
        by (intro program_intros)
      have R: "run_state (do { _ \<leftarrow> os_ReadFile ''/etc/passwd''; prepare_ssh_dir ?d u g }) w = (rp, v1)"
        using rd prep by simp
      have o: "outside v1 = outside w" using outside.run_keeps [OF P R] by simp
      have "\<exists>x. run_state (authorize_all (SSHAuthorizedKeys cfg) (abs_path p) u g withNet) v1 = (x, w')"
        using run rd ok prep Inr home [OF ok(2)]
        by (auto simp: SetAuthorizedKeys_def Let_def split: prod.splits)
      then show ?thesis
        using authorize_all_keeps [OF tree.run_keeps [OF P R wf] _ _ v1]
          good_rand_outside [OF o] honest_outside [OF o] gr h by blast
    qed
  qed
qed

section \<open>The password file\<close>

lemma find_user_skip:
  "\<forall>l \<in> set ls. \<not> HasPrefix l username \<Longrightarrow> find_user username (ls @ rest) found = find_user username rest found"
  by (induction ls) auto

lemma passwd_entry:
  assumes "\<forall>f \<in> set [name, pw, gecos, home, sh]. CHR '':'' \<notin> set f"
    and u: "- (2 ^ 63) \<le> u" "u < 2 ^ 63" and g: "- (2 ^ 63) \<le> g" "g < 2 ^ 63"
  shows "find_user name (Join [name, pw, Itoa u, Itoa g, gecos, home, sh] '':'' # ls) found
    = find_user name ls (u, g, home)"
proof -
  have "CHR '':'' \<notin> set (Itoa i)" for i
  proof -
    have "CHR '':'' \<notin> set (Itoa_nat n)" for n
    proof
      assume "CHR '':'' \<in> set (Itoa_nat n)"
      then have "is_digit (CHR '':'')" using Itoa_nat_digits by blast
      then show False by (simp add: is_digit_def)
    qed
    then show ?thesis by (simp add: Itoa_def)
  qed
  then have sp: "Split (Join [name, pw, Itoa u, Itoa g, gecos, home, sh] '':'') (CHR '':'')
      = [name, pw, Itoa u, Itoa g, gecos, home, sh]"
    using assms(1) by (intro Split_Join) auto
  have "HasPrefix (Join [name, pw, Itoa u, Itoa g, gecos, home, sh] '':'') name"
    by (simp add: HasPrefix_def)
  then show ?thesis
    by (simp add: Let_def sp Atoi_Itoa [OF u] Atoi_Itoa [OF g] del: Join.simps)
qed

section \<open>Properties\<close>

text \<open>
  C4. \<open>SetAuthorizedKeys\<close> never loses a key: under every schedule of failures (none of which
  reports an existing file as missing) the authorized keys file still begins with the bytes it had.
\<close>

theorem SetAuthorizedKeys_never_loses_keys:
  assumes "wf_world w" "good_rand w" "honest_faults w" "file_is p b w"
    and "file_is [''etc'', ''passwd''] bytes w"
    and "\<And>u g hd. findUserHomeDir bytes ''rancher'' = Inr (u, g, hd) \<Longrightarrow>
      path_Join [path_Join [hd, ''.ssh''], ''authorized_keys''] = abs_path p"
    and "run_state (SetAuthorizedKeys cfg withNet) w = (r, w')"
  shows "\<exists>c. file_is p c w' \<and> prefix b c"
  by (rule SetAuthorizedKeys_keeps [OF assms])

definition ssh_passwd :: string where
  "ssh_passwd = ''root:x:0:0:root:/root:/bin/sh'' @ [newline] @ ''rancher:x:1000:1000::/home:/bin/sh'' @ [newline]"

definition ssh_fs :: fs where
  "ssh_fs = [([], mkdir_inode), ([''etc''], mkdir_inode), ([''etc'', ''passwd''], mkfile ssh_passwd),
     ([''home''], mkdir_inode), ([''home'', ''.ssh''], mkdir_inode),
     ([''home'', ''.ssh'', ''authorized_keys''], mkfile ''ssh-rsa AAAA me'')]"

lemma ssh_world_ok:
  "wf_world (calm_world ssh_fs)" "honest_faults (calm_world ssh_fs)"
  "file_is [''home'', ''.ssh'', ''authorized_keys''] ''ssh-rsa AAAA me'' (calm_world ssh_fs)"
  "file_is [''etc'', ''passwd''] ssh_passwd (calm_world ssh_fs)"
  by (auto simp: ssh_fs_def wf_fs_def is_dir_def file_is_def direct_def plain_def mkdir_inode_def mkfile_def
      honest_faults_def less_Suc_eq take_Cons')

lemma ssh_passwd_home: "findUserHomeDir ssh_passwd ''rancher'' = Inr (1000, 1000, ''/home'')"
  by (simp add: ssh_passwd_def findUserHomeDir_def Let_def go_eval of_char_of)

theorem SetAuthorizedKeys_never_loses_keys_witness:
  "\<exists>r w' c. run_state (SetAuthorizedKeys (emptyConfig\<lparr>SSHAuthorizedKeys := [''ssh-rsa BBBB you'']\<rparr>) False)
       (calm_world ssh_fs) = (r, w')
     \<and> file_is [''home'', ''.ssh'', ''authorized_keys''] c w' \<and> prefix ''ssh-rsa AAAA me'' c"
proof -
  let ?cfg = "emptyConfig\<lparr>SSHAuthorizedKeys := [''ssh-rsa BBBB you'']\<rparr>"
  obtain r w' where run: "run_state (SetAuthorizedKeys ?cfg False) (calm_world ssh_fs) = (r, w')" by fastforce
  have "\<exists>c. file_is [''home'', ''.ssh'', ''authorized_keys''] c w' \<and> prefix ''ssh-rsa AAAA me'' c"
    by (rule SetAuthorizedKeys_never_loses_keys [OF ssh_world_ok(1) _ ssh_world_ok(2,3,4) _ run])
      (auto simp: ssh_passwd_home abs_path_def path_defs)
  then show ?thesis using run by blast
qed

text \<open>
  C26. One key that is given literally: when \<open>authorizeSSHKey\<close> succeeds the file holds its old bytes
  followed by the key and a newline, or its old bytes alone if the key is somewhere in them already; and it does
  succeed when no call fails and the temporary name is free.
\<close>

theorem authorizeSSHKey_appends:
  assumes "wf_world w" "good_rand w" "honest_faults w" "file_is p b w"
    and "url_Parse key \<in> {None, Some ([], [])}" "key \<noteq> []"
    and "run_state (authorizeSSHKey key (abs_path p) uid gid withNet) w = (r, w')"
  shows "(is_ok r \<longrightarrow> file_is p (if sublist key b then b else b @ key @ [newline]) w')
    \<and> (fault_free w \<and> CHR ''*'' \<notin> set (last p)
         \<and> (\<forall>c. fs_get (w_fs w) (butlast p @ [(CHR ''.'' # last p) @ c]) = None) \<longrightarrow> is_ok r)"
proof -
  have gk: "run_state (getKey key withNet) w = (Inr key, w)" using assms(5) by (auto simp: getKey_def)
  then have "key_outcome p b (Inr key) r w'"
    using wpD [OF wp_authorizeSSHKey [OF assms(1-4)] assms(7)] by simp
  moreover have "is_ok r" if "fault_free w" "CHR ''*'' \<notin> set (last p)"
      "\<And>c. fs_get (w_fs w) (butlast p @ [(CHR ''.'' # last p) @ c]) = None"
    using wpD [OF wp_authorize_calm [OF that(1) assms(1,2,4) that(2,3) gk assms(6)] assms(7)] .
  moreover have "append_key b key = (if sublist key b then b else b @ key @ [newline])"
    by (simp add: append_key_def Contains_def)
  ultimately show ?thesis using assms(6) by (auto simp: key_outcome_def)
qed

theorem authorizeSSHKey_appends_witness:
  "\<exists>w'. run_state (authorizeSSHKey ''ssh-rsa BBBB you'' (abs_path [''home'', ''.ssh'', ''authorized_keys'']) 1000 1000 True)
       (calm_world ssh_fs) = (Inr (), w')
     \<and> file_is [''home'', ''.ssh'', ''authorized_keys'']
         (''ssh-rsa AAAA messh-rsa BBBB you'' @ [newline]) w'"
proof -
  let ?p = "[''home'', ''.ssh'', ''authorized_keys'']"
  let ?key = "''ssh-rsa BBBB you''"
  obtain r w' where run: "run_state (authorizeSSHKey ?key (abs_path ?p) 1000 1000 True) (calm_world ssh_fs) = (r, w')"
    by fastforce
  have k: "url_Parse ?key \<in> {None, Some ([], [])}"
    using url_Parse_key [of "''ssh-rsa''" "''BBBB you''"]
    by (simp add: is_alpha_def is_digit_def is_upper_def is_lower_def)
  have a: "\<not> sublist ?key ''ssh-rsa AAAA me''" by (simp add: sublist_Cons_right)
  have f: "\<forall>c. fs_get (w_fs (calm_world ssh_fs)) (butlast ?p @ [(CHR ''.'' # last ?p) @ c]) = None"
    by (simp add: ssh_fs_def)
  have "(is_ok r \<longrightarrow> file_is ?p (''ssh-rsa AAAA me'' @ ?key @ [newline]) w') \<and> is_ok r"
    using authorizeSSHKey_appends [OF ssh_world_ok(1) _ ssh_world_ok(2,3) k _ run] f by (simp only: a) simp
  then show ?thesis using run by (auto simp: is_ok_iff)
qed

text \<open>
  A key becomes a line of the file when the file was empty or ended in a newline.
\<close>

theorem append_key_line:
  assumes "b = [] \<or> last b = newline" "newline \<notin> set key"
  shows "key \<in> set (Split (append_key b key) newline) \<or> (append_key b key = b \<and> Contains b key)"
proof (cases "Contains b key")
  case False
  have "Split (key @ [newline]) newline = [key, []]" using Split_append_sep [OF assms(2), of "[]"] by simp
  moreover have "key \<in> set (Split (butlast b @ newline # key @ [newline]) newline)"
    using calculation by (simp add: Split_append)
  moreover have "b \<noteq> [] \<Longrightarrow> b @ key @ [newline] = butlast b @ newline # key @ [newline]"
    using assms(1) by (metis append_Cons append_Nil append_assoc append_butlast_last_id)
  ultimately have "key \<in> set (Split (b @ key @ [newline]) newline)" by (cases "b = []") (simp, metis)
  then show ?thesis using False by (simp add: append_key_def)
qed (simp add: append_key_def)

theorem append_key_line_witness:
  "''k2'' \<in> set (Split (append_key (''k1'' @ [newline]) ''k2'') newline)"
  using append_key_line [of "''k1'' @ [newline]" "''k2''"] by (simp add: append_key_def Contains_def sublist_Cons_right)

text \<open>Without that newline the new key runs into the last line, and a key that is part of another
  one is taken for present.\<close>

lemma append_key_merges_lines:
  "Split (append_key ''ssh-rsa AAAA'' ''ssh-rsa BBBB'') newline = [''ssh-rsa AAAAssh-rsa BBBB'', []]"
  by (simp add: append_key_def Contains_def sublist_Cons_right)

lemma append_key_substring:
  "append_key (''ssh-rsa AAAABB'' @ [newline]) ''ssh-rsa AAAA'' = ''ssh-rsa AAAABB'' @ [newline]"
  by (simp add: append_key_def Contains_def sublist_Cons_right)

text \<open>
  \<open>findUserHomeDir\<close> gives the ids and the home of the user's entry of the password file, when no
  other line begins with the user's name.
\<close>

theorem findUserHomeDir_finds_entry:
  assumes "\<forall>l \<in> set (before @ after). \<not> HasPrefix l name \<and> newline \<notin> set l"
    and "\<forall>f \<in> set [name, pw, gecos, home, sh]. CHR '':'' \<notin> set f \<and> newline \<notin> set f"
    and "- (2 ^ 63) \<le> u" "u < 2 ^ 63" "- (2 ^ 63) \<le> g" "g < 2 ^ 63"
  shows "findUserHomeDir (Join (before @ [Join [name, pw, Itoa u, Itoa g, gecos, home, sh] '':''] @ after) [newline]) name
    = Inr (u, g, home)"
proof -
  let ?line = "Join [name, pw, Itoa u, Itoa g, gecos, home, sh] '':''"
  have ni: "newline \<notin> set (Itoa i)" for i
  proof -
    have "newline \<notin> set (Itoa_nat n)" for n
    proof
      assume "newline \<in> set (Itoa_nat n)"
      then have "is_digit newline" using Itoa_nat_digits by blast
      then show False by (simp add: is_digit_def)
    qed
    then show ?thesis by (simp add: Itoa_def)
  qed
  then have nl: "newline \<notin> set ?line" using assms(2) by simp
  have "Split (Join (before @ [?line] @ after) [newline]) newline = before @ [?line] @ after"
    using assms(1) nl by (intro Split_Join) (auto simp del: Join.simps)
  moreover have "find_user name (before @ [?line] @ after) f = Inr (u, g, home)" for f
    using find_user_skip [of before name] find_user_skip [of after name "[]"] assms(1)
      passwd_entry [OF _ assms(3-6), of name pw gecos home sh after] assms(2)
    by (simp del: Join.simps)
  ultimately show ?thesis unfolding findUserHomeDir_def by simp
qed

theorem findUserHomeDir_finds_entry_witness:
  "findUserHomeDir (''root:x:0:0:r:/root:/bin/sh'' @ [newline] @ ''rancher:x:1000:1000:x:/home:/bin/sh'') ''rancher''
    = Inr (1000, 1000, ''/home'')"
proof -
  have i: "Itoa 1000 = ''1000''" by code_simp
  show ?thesis
    using findUserHomeDir_finds_entry [of "[''root:x:0:0:r:/root:/bin/sh'']" "[]" "''rancher''" "''x''" "''x''" "''/home''" "''/bin/sh''" 1000 1000]
    by (simp add: i HasPrefix_def)
qed

text \<open>A later user whose name merely begins like the one asked for wins; a missing user is no error
  but the empty home directory.\<close>

lemma findUserHomeDir_prefix_user:
  "findUserHomeDir (''rancher:x:1000:1000::/home/rancher:/bin/sh'' @ [newline]
     @ ''rancher2:x:1001:1001::/home/other:/bin/sh'') ''rancher'' = Inr (1001, 1001, ''/home/other'')"
  by (simp add: findUserHomeDir_def Let_def go_eval of_char_of)

lemma findUserHomeDir_missing_user:
  "findUserHomeDir ''root:x:0:0:root:/root:/bin/sh'' ''rancher'' = Inr (0, 0, [])"
  by (simp add: findUserHomeDir_def Let_def go_eval)

end
