(* ===== verification/CC.thy ===== *)
theory CC
  imports Hosts Modprobe Commands Sysctl System SSH Writefile
begin

text \<open>
  \<^verbatim>\<open>pkg/cc\<close>: the appliers that bring the system into the state of the configuration (\<^verbatim>\<open>funcs.go\<close>) and
  the lists of appliers of the four boot phases (\<^verbatim>\<open>apply.go\<close>).
\<close>

section \<open>What the appliers take from outside\<close>

text \<open>Decompression, the version the linker sets, and the order in which \<open>range\<close> visits a map.\<close>

record deps =
  d_gunzip :: "string \<Rightarrow> goerror + (goerror + string)"
  d_version :: string
  d_order :: "(string \<times> string) list \<Rightarrow> (string \<times> string) list"

section \<open>funcs.go\<close>

type_synonym applier = "CloudConfig \<Rightarrow> unit os"

definition ApplyModules :: applier where "ApplyModules cfg = LoadModules cfg"
definition ApplySysctls :: applier where "ApplySysctls cfg = ConfigureSysctl cfg"
definition ApplyHostname :: applier where "ApplyHostname cfg = SetHostname cfg"
definition ApplyPassword :: applier where "ApplyPassword cfg = SetPassword (Password (K3OS cfg))"
definition ApplyRuncmd :: applier where "ApplyRuncmd cfg = ExecuteCommand (Runcmd cfg)"
definition ApplyBootcmd :: applier where "ApplyBootcmd cfg = ExecuteCommand (Bootcmd cfg)"
definition ApplyInitcmd :: applier where "ApplyInitcmd cfg = ExecuteCommand (Initcmd cfg)"

definition ApplyWriteFiles :: "deps \<Rightarrow> applier" where
  "ApplyWriteFiles d cfg = do { _ \<leftarrow> WriteFiles_all (d_gunzip d) cfg; State_Monad.return (Inr ()) }"

definition ApplySSHKeys :: applier where "ApplySSHKeys cfg = SetAuthorizedKeys cfg False"
definition ApplySSHKeysWithNet :: applier where "ApplySSHKeysWithNet cfg = SetAuthorizedKeys cfg True"

subsection \<open>k3s\<close>

text \<open>The variables and arguments of the install script; \<open>None\<close> when it is not run at all.\<close>

definition k3s_vars :: "CloudConfig \<Rightarrow> bool \<Rightarrow> bool \<Rightarrow> bool \<Rightarrow> bool \<Rightarrow> string list option" where
  "k3s_vars cfg k3sExists k3sLocalExists restart install =
     (if \<not> k3sExists \<and> \<not> restart then None
      else if \<not> k3sExists \<and> \<not> k3sLocalExists \<and> \<not> install then None
      else Some ([''INSTALL_K3S_NAME=service'']
        @ (if k3sExists then [''INSTALL_K3S_SKIP_DOWNLOAD=true'', ''INSTALL_K3S_BIN_DIR=/sbin'',
                              ''INSTALL_K3S_BIN_DIR_READ_ONLY=true'']
           else if k3sLocalExists then [''INSTALL_K3S_SKIP_DOWNLOAD=true''] else [])
        @ (if restart then [] else [''INSTALL_K3S_SKIP_START=true''])
        @ (if ServerURL (K3OS cfg) = [] then []
           else [''K3S_URL='' @ [dquote] @ ServerURL (K3OS cfg) @ [dquote, newline]])
        @ (if HasPrefix (Token (K3OS cfg)) ''K10''
           then [''K3S_TOKEN='' @ [dquote] @ Token (K3OS cfg) @ [dquote, newline]]
           else if Token (K3OS cfg) \<noteq> []
           then [''K3S_CLUSTER_SECRET='' @ [dquote] @ Token (K3OS cfg) @ [dquote, newline]]
           else [])))"

definition k3s_labels :: "CloudConfig \<Rightarrow> string \<Rightarrow> string \<Rightarrow> string list" where
  "k3s_labels cfg mode version =
     sort (map (\<lambda>(k, v). k @ ''='' @ v) (Labels (K3OS cfg))
           @ (if mode \<noteq> [] then [''k3os.io/mode='' @ mode] else [])
           @ [''k3os.io/version='' @ version])"

definition k3s_args :: "CloudConfig \<Rightarrow> string \<Rightarrow> string \<Rightarrow> string list" where
  "k3s_args cfg mode version =
     (if K3sArgs (K3OS cfg) \<noteq> [] then K3sArgs (K3OS cfg)
      else if ServerURL (K3OS cfg) = [] then [''server''] else [''agent''])
     @ concat (map (\<lambda>l. [''--node-label'', l]) (k3s_labels cfg mode version))
     @ concat (map (\<lambda>t. [''--kubelet-arg'', ''register-with-taints='' @ t]) (Taints (K3OS cfg)))"

definition ApplyK3S :: "deps \<Rightarrow> CloudConfig \<Rightarrow> bool \<Rightarrow> bool \<Rightarrow> unit os" where
  "ApplyK3S d cfg restart install = do {
     mode \<leftarrow> mode_Get [];
     onok mode (\<lambda>mode.
       if mode = ''install'' then State_Monad.return (Inr ())
       else do {
         sbin \<leftarrow> os_Stat ''/sbin/k3s'';
         local \<leftarrow> os_Stat ''/usr/local/bin/k3s'';
         (case k3s_vars cfg (is_ok sbin) (is_ok local) restart install of
            None \<Rightarrow> State_Monad.return (Inr ())
          | Some vars \<Rightarrow> do {
              env \<leftarrow> Environ;
              cmd_Run \<lparr>c_name = ''/usr/libexec/k3os/k3s-install.sh'',
                       c_argv0 = None, c_args = k3s_args cfg mode (d_version d),
                       c_env = Some (env @ vars), c_stdin = StdinInherit, c_attr = None\<rparr> }) }) }"

definition ApplyK3SWithRestart :: "deps \<Rightarrow> applier" where
  "ApplyK3SWithRestart d cfg = ApplyK3S d cfg True False"

definition ApplyK3SInstall :: "deps \<Rightarrow> applier" where
  "ApplyK3SInstall d cfg = ApplyK3S d cfg True True"

definition ApplyK3SNoRestart :: "deps \<Rightarrow> applier" where
  "ApplyK3SNoRestart d cfg = ApplyK3S d cfg False False"

definition ApplyInstall :: applier where
  "ApplyInstall cfg = do {
     mode \<leftarrow> mode_Get [];
     onok mode (\<lambda>mode.
       if mode \<noteq> ''install'' then State_Monad.return (Inr ())
       else cmd_Run ((Command ''k3os'' [''install''])\<lparr>c_stdin := StdinInherit\<rparr>)) }"

subsection \<open>connman\<close>

definition line :: "string \<Rightarrow> string" where "line s = s @ [newline]"

definition dns_conf :: "CloudConfig \<Rightarrow> string" where
  "dns_conf cfg =
     line ''[General]'' @ line ''NetworkInterfaceBlacklist=veth'' @ line ''PreferredTechnologies=ethernet,wifi''
     @ (if DNSNameservers (K3OS cfg) \<noteq> []
        then line (''FallbackNameservers='' @ Join (DNSNameservers (K3OS cfg)) '','')
        else line ''FallbackNameservers=8.8.8.8'')
     @ (if NTPServers (K3OS cfg) \<noteq> []
        then line (''FallbackTimeservers='' @ Join (NTPServers (K3OS cfg)) '','') else [])"

text \<open>An error of \<^verbatim>\<open>fmt.Errorf\<close> that wraps another.\<close>

definition wrap :: "string \<Rightarrow> goerror + unit \<Rightarrow> goerror + unit" where
  "wrap msg r = (case r of Inl e \<Rightarrow> Inl (ErrWrap msg e) | Inr _ \<Rightarrow> Inr ())"

definition ApplyDNS :: applier where
  "ApplyDNS cfg = do {
     r \<leftarrow> os_WriteFile ''/etc/connman/main.conf'' (dns_conf cfg) 420;
     State_Monad.return (wrap ''failed to write /etc/connman/main.conf: '' r) }"

definition wifi_settings :: string where
  "wifi_settings = line ''[WiFi]'' @ line ''Enable=true'' @ line ''Tethering=false''"

primrec wifi_services :: "nat \<Rightarrow> wifi list \<Rightarrow> string" where
  "wifi_services i [] = []"
| "wifi_services i (w # ws) =
     line (''[service_wifi'' @ Itoa (int i) @ '']'') @ line ''Type=wifi''
     @ line (''Passphrase='' @ Passphrase w) @ line (''Name='' @ Wifi_Name w) @ wifi_services (Suc i) ws"

definition wifi_conf :: "wifi list \<Rightarrow> string" where
  "wifi_conf ws = line ''[global]'' @ line ''Name=cloud-config''
     @ line ''Description=Services defined in the cloud-config'' @ wifi_services 0 ws"

definition ApplyWifi :: applier where
  "ApplyWifi cfg =
     (if Wifi (K3OS cfg) = [] then State_Monad.return (Inr ())
      else do {
        r \<leftarrow> os_MkdirAll ''/var/lib/connman'' 493;
        onok (wrap ''failed to mkdir /var/lib/connman: '' r) (\<lambda>_. do {
        r \<leftarrow> os_WriteFile ''/var/lib/connman/settings'' wifi_settings 420;
        onok (wrap ''failed to write to /var/lib/connman/settings: '' r) (\<lambda>_.
        os_WriteFile ''/var/lib/connman/cloud-config.config'' (wifi_conf (Wifi (K3OS cfg))) 420) }) })"

definition data_source_conf :: "string list \<Rightarrow> string" where
  "data_source_conf ds = ''command_args='' @ [dquote] @ Join ds '' '' @ [dquote, newline]"

definition ApplyDataSource :: applier where
  "ApplyDataSource cfg =
     (if DataSources (K3OS cfg) = [] then State_Monad.return (Inr ())
      else do {
        r \<leftarrow> os_WriteFile ''/etc/conf.d/cloud-config'' (data_source_conf (DataSources (K3OS cfg))) 420;
        State_Monad.return (wrap ''failed to write to /etc/conf.d/cloud-config: '' r) })"

subsection \<open>The environment\<close>

text \<open>One line of \<^verbatim>\<open>/etc/environment\<close>: a variable, or none in a comment or a line too short.\<close>

definition env_line :: "string \<Rightarrow> (string \<times> string) option" where
  "env_line text =
     (let l = TrimSpace text in
      if HasPrefix l ''#'' then None
      else
        let l = TrimSpace (TrimPrefix l ''export'') in
        if length l > 1 then
          (case SplitN2 l (CHR ''='') of
             [key, v] \<Rightarrow> Some (key, case Unquote v of Some u \<Rightarrow> u | None \<Rightarrow> v)
           | key # _ \<Rightarrow> Some (key, [])
           | [] \<Rightarrow> None)
        else None)"

primrec env_lines :: "string list \<Rightarrow> (string \<times> string) list \<Rightarrow> (string \<times> string) list" where
  "env_lines [] env = env"
| "env_lines (l # ls) env =
     env_lines ls (case env_line l of Some (k, v) \<Rightarrow> AList.update k v env | None \<Rightarrow> env)"

definition parse_env :: "string \<Rightarrow> (string \<times> string) list" where
  "parse_env content = env_lines (fst (ScanLines content)) []"

definition render_var :: "string \<times> string \<Rightarrow> string" where
  "render_var kv = fst kv @ ''='' @ Quote (snd kv) @ [newline]"

definition render_env :: "(string \<times> string) list \<Rightarrow> string" where
  "render_env env = concat (map render_var env)"

definition ApplyEnvironment :: "deps \<Rightarrow> applier" where
  "ApplyEnvironment d cfg =
     (if Environment (K3OS cfg) = [] then State_Monad.return (Inr ())
      else do {
        buf \<leftarrow> os_ReadFile ''/etc/environment'';
        let env = (case buf of Inr b \<Rightarrow> parse_env b | Inl _ \<Rightarrow> []);
        let env = fold (\<lambda>(k, v). AList.update k v) (Environment (K3OS cfg)) env;
        r \<leftarrow> os_WriteFile ''/etc/environment'' (render_env (d_order d env)) 420;
        State_Monad.return (wrap ''failed to write to /etc/environment: '' r) })"

section \<open>apply.go\<close>

primrec run_appliers :: "CloudConfig \<Rightarrow> applier list \<Rightarrow> goerror list \<Rightarrow> (world, goerror list) state" where
  "run_appliers cfg [] errs = State_Monad.return errs"
| "run_appliers cfg (a # as) errs = do {
     r \<leftarrow> a cfg;
     run_appliers cfg as (case r of Inl e \<Rightarrow> errs @ [e] | Inr _ \<Rightarrow> errs) }"

definition runApplies :: "CloudConfig \<Rightarrow> applier list \<Rightarrow> unit os" where
  "runApplies cfg appliers = do {
     errs \<leftarrow> run_appliers cfg appliers [];
     State_Monad.return (if errs \<noteq> [] then Inl (ErrMulti errs) else Inr ()) }"

definition RunApply :: "deps \<Rightarrow> applier" where
  "RunApply d cfg = runApplies cfg [ApplyModules, ApplySSHKeysWithNet, ApplyWriteFiles d,
     ApplyEnvironment d, ApplyRuncmd, ApplyInstall, ApplyK3SInstall d]"

definition InstallApply :: "deps \<Rightarrow> applier" where
  "InstallApply d cfg = runApplies cfg [ApplyK3SWithRestart d]"

definition BootApply :: "deps \<Rightarrow> applier" where
  "BootApply d cfg = runApplies cfg [ApplyDataSource, ApplyModules, ApplySysctls, ApplyHostname, ApplyDNS,
     ApplyWifi, ApplyPassword, ApplySSHKeys, ApplyK3SNoRestart d, ApplyWriteFiles d, ApplyEnvironment d,
     ApplyBootcmd]"

definition InitApply :: "deps \<Rightarrow> applier" where
  "InitApply d cfg = runApplies cfg [ApplyModules, ApplySysctls, ApplyHostname, ApplyWriteFiles d,
     ApplyEnvironment d, ApplyInitcmd]"

section \<open>Programs\<close>

lemmas apply_defs = ApplyModules_def ApplySysctls_def ApplyHostname_def ApplyPassword_def ApplyRuncmd_def
  ApplyBootcmd_def ApplyInitcmd_def ApplyWriteFiles_def ApplySSHKeys_def ApplySSHKeysWithNet_def
  ApplyK3S_def ApplyK3SWithRestart_def ApplyK3SInstall_def ApplyK3SNoRestart_def ApplyInstall_def
  ApplyDNS_def ApplyWifi_def ApplyDataSource_def ApplyEnvironment_def

definition program_applier :: "applier \<Rightarrow> bool" where
  "program_applier a = (\<forall>cfg. program (a cfg))"

lemma appliers_programs:
  "list_all program_applier [ApplyModules, ApplySysctls, ApplyHostname, ApplyPassword, ApplyRuncmd, ApplyBootcmd,
     ApplyInitcmd, ApplyWriteFiles d, ApplySSHKeys, ApplySSHKeysWithNet, ApplyK3SWithRestart d, ApplyK3SInstall d,
     ApplyK3SNoRestart d, ApplyInstall, ApplyDNS, ApplyWifi, ApplyDataSource, ApplyEnvironment d]"
  unfolding list.pred_inject program_applier_def apply_defs Let_def
  by (intro conjI allI TrueI list.pred_inject(1) program_intros)

lemma program_run_appliers:
  "list_all program_applier as \<Longrightarrow> program (run_appliers cfg as errs)"
  by (induction as arbitrary: errs) (auto simp: program_applier_def intro!: program_intros)

lemma program_runApplies: "list_all program_applier as \<Longrightarrow> program (runApplies cfg as)"
  unfolding runApplies_def by (intro program_intros program_run_appliers)

lemma program_phases [program_intros]:
  "program (RunApply d cfg)" "program (InstallApply d cfg)" "program (BootApply d cfg)" "program (InitApply d cfg)"
  using appliers_programs [of d]
  by (simp_all add: RunApply_def InstallApply_def BootApply_def InitApply_def program_runApplies)

section \<open>Lists of appliers\<close>

lemma run_appliers_errs:
  "run_state (run_appliers cfg as errs) w =
     (errs @ fst (run_state (run_appliers cfg as []) w), snd (run_state (run_appliers cfg as []) w))"
proof (induction as arbitrary: errs w)
  case (Cons a as)
  obtain r v where a: "run_state (a cfg) w = (r, v)" by fastforce
  have acc: "run_state (run_appliers cfg as es) v =
      (es @ fst (run_state (run_appliers cfg as []) v), snd (run_state (run_appliers cfg as []) v))" for es
    by (rule Cons.IH)
  show ?case
  proof (cases r)
    case (Inl e)
    then show ?thesis using a by (simp add: acc [of "errs @ [e]"] acc [of "[e]"])
  next
    case (Inr u)
    then show ?thesis using a by (simp add: acc [of errs])
  qed
qed simp

lemma run_appliers_append:
  "run_state (run_appliers cfg (as @ bs) []) w =
     (case run_state (run_appliers cfg as []) w of
        (es, v) \<Rightarrow> (es @ fst (run_state (run_appliers cfg bs []) v), snd (run_state (run_appliers cfg bs []) v)))"
proof -
  have "run_state (run_appliers cfg (as @ bs) errs) w =
     (case run_state (run_appliers cfg as errs) w of (es, v) \<Rightarrow> run_state (run_appliers cfg bs es) v)" for errs
    by (induction as arbitrary: errs w) (simp_all split: prod.split)
  then show ?thesis
    by (simp add: case_prod_beta run_appliers_errs [of cfg bs "fst (run_state (run_appliers cfg as []) w)"])
qed

section \<open>The environment file\<close>

text \<open>A variable name that survives being written and read again.\<close>

definition env_name :: "string \<Rightarrow> bool" where
  "env_name k = (k \<noteq> [] \<and> CHR ''='' \<notin> set k \<and> (\<forall>c \<in> set k. \<not> is_space c)
     \<and> \<not> HasPrefix k ''#'' \<and> \<not> prefix ''export'' k)"

lemma Quote_ends: "hd (Quote v) = dquote \<and> last (Quote v) = dquote \<and> Quote v \<noteq> []"
  by (simp add: Quote_def)

lemma dquote_not_space: "\<not> is_space dquote" "\<not> is_space (CHR ''='')"
  by (simp_all add: is_space_def)

definition env_body :: "string \<times> string \<Rightarrow> string" where
  "env_body kv = fst kv @ CHR ''='' # Quote (snd kv)"

lemma env_line_body:
  assumes "env_name k"
  shows "env_line (env_body (k, v)) = Some (k, v)"
proof -
  let ?l = "env_body (k, v)"
  obtain c t where k: "k = c # t" "\<not> is_space c" using assms by (cases k) (auto simp: env_name_def)
  have l: "last ?l = dquote" "?l \<noteq> []" "hd ?l = c" using Quote_ends [of v] k by (simp_all add: env_body_def)
  then have tr: "TrimSpace ?l = ?l" unfolding TrimSpace_def
    using k(2) dquote_not_space by (intro TrimFunc_id) simp
  have np: "\<not> prefix ''export'' ?l"
  proof
    assume "prefix ''export'' ?l"
    then have "prefix ''export'' k \<or> prefix k ''export''"
      by (auto simp: env_body_def dest: prefix_same_cases [of _ "k @ CHR ''='' # Quote v" k])
    moreover have "\<not> prefix ''export'' k" using assms by (simp add: env_name_def)
    ultimately have "prefix (k @ [CHR ''='']) ''export''"
      using \<open>prefix ''export'' ?l\<close> by (auto simp: env_body_def prefix_def append_eq_append_conv2 Cons_eq_append_conv)
    then have "CHR ''='' \<in> set ''export''" by (auto dest: set_mono_prefix)
    then show False by simp
  qed
  have nh: "\<not> HasPrefix ?l ''#''" using assms k by (simp add: env_name_def HasPrefix_def env_body_def)
  have len: "length ?l > 1" using k by (simp add: env_body_def)
  have sp: "SplitN2 ?l (CHR ''='') = [k, Quote v]"
  proof -
    have ne: "\<forall>c \<in> set k. c \<noteq> CHR ''=''" using assms by (auto simp: env_name_def)
    have "takeWhile (\<lambda>c. c \<noteq> CHR ''='') ?l = k" "dropWhile (\<lambda>c. c \<noteq> CHR ''='') ?l = CHR ''='' # Quote v"
      using ne by (simp_all add: env_body_def takeWhile_append2 dropWhile_append2)
    then show ?thesis by (simp add: SplitN2_def)
  qed
  show ?thesis
    unfolding env_line_def Let_def tr using nh np len sp by (simp add: TrimPrefix_def tr Unquote_Quote)
qed

lemma render_body: "render_env env = concat (map (\<lambda>l. l @ [newline]) (map env_body env))"
proof -
  have "render_var = (\<lambda>kv. env_body kv @ [newline])" by (simp add: fun_eq_iff render_var_def env_body_def)
  then show ?thesis by (simp add: render_env_def comp_def)
qed

lemma newline_env_body: "env_name k \<Longrightarrow> newline \<notin> set (env_body (k, v)) \<and> last (env_body (k, v)) \<noteq> CHR 0x0D"
  using newline_Quote [of v] Quote_ends [of v] newline_space(1)
  by (auto simp: env_body_def env_name_def)

lemma env_lines_bodies:
  "\<forall>kv \<in> set kvs. env_name (fst kv) \<Longrightarrow>
   env_lines (map env_body kvs) env = fold (\<lambda>(k, v). AList.update k v) kvs env"
  by (induction kvs arbitrary: env) (auto simp: env_line_body split: prod.splits)

lemma fold_update_map_of: "map_of (fold (\<lambda>(k, v). AList.update k v) kvs env) = map_of env ++ map_of (rev kvs)"
  by (induction kvs arbitrary: env) (auto simp: map_add_assoc [symmetric] fun_eq_iff map_add_def split: option.split)

lemma parse_render:
  assumes "wf_map env" "\<forall>kv \<in> set env. env_name (fst kv) \<and> length (env_body kv) < 65536"
  shows "map_of (parse_env (render_env env)) = map_of env"
proof -
  have "ScanLines (render_env env) = (map env_body env, False)"
    unfolding render_body
    by (rule ScanLines_lines) (use assms(2) newline_env_body in fastforce)
  then have "map_of (parse_env (render_env env)) = map_of (rev env)"
    using assms(2) by (simp add: parse_env_def env_lines_bodies fold_update_map_of)
  then show ?thesis using wf_map_permute(2) [OF assms(1), of "rev env"] by simp
qed

lemma set_alist_update: "set (AList.update k v m) \<subseteq> insert (k, v) (set m)"
  by (induction m) auto

section \<open>Which appliers run k3s\<close>

lemma mode_Get_calm:
  "fault_free w \<Longrightarrow> file_is [''run'', ''k3os'', ''mode''] b w \<Longrightarrow>
   run_state (mode_Get []) w = (Inr (TrimSpace b), tick w)"
proof -
  assume w: "fault_free w" "file_is [''run'', ''k3os'', ''mode''] b w"
  have "path_Join [path_Join [], StatePath [''mode'']] = abs_path [''run'', ''k3os'', ''mode'']"
    by (simp add: path_defs StatePath_def directories abs_path_def)
  then show ?thesis using os_ReadFile_calm [OF w] by (simp add: mode_Get_def)
qed

definition runs :: "world \<Rightarrow> world \<Rightarrow> cmd list" where
  "runs w w' = [c. EvRun c \<leftarrow> drop (length (w_trace w)) (w_trace w')]"

lemma runs_refl [simp]: "w_trace v = w_trace w \<Longrightarrow> runs w v = []"
  by (simp add: runs_def)

lemma runs_one: "w_trace v = w_trace w @ [EvRun c] \<Longrightarrow> runs w v = [c]"
  by (simp add: runs_def)

lemma trace_Stat: "run_state (os_Stat s) w = (r, v) \<Longrightarrow> w_trace v = w_trace w"
  by (auto simp: os_Stat_def fs_call_def fs_call_part_def split: option.splits sum.splits)

lemma trace_Environ: "run_state Environ w = (r, v) \<Longrightarrow> v = w"
  by (simp add: Environ_def)

lemma ApplyK3S_runs:
  assumes "fault_free w" "file_is [''run'', ''k3os'', ''mode''] b w"
    and "run_state (ApplyK3S d cfg restart ins) w = (r, w')"
  shows "runs w w' = [] \<or>
    (TrimSpace b \<noteq> ''install'' \<and> (\<exists>c. runs w w' = [c] \<and> c_name c = ''/usr/libexec/k3os/k3s-install.sh''
       \<and> c_args c = k3s_args cfg (TrimSpace b) (d_version d)))"
proof (cases "TrimSpace b = ''install''")
  case True
  then have "w' = tick w" using assms(3) by (simp add: ApplyK3S_def mode_Get_calm [OF assms(1,2)])
  then show ?thesis by simp
next
  case False
  obtain s1 v1 where s1: "run_state (os_Stat ''/sbin/k3s'') (tick w) = (s1, v1)" by fastforce
  obtain s2 v2 where s2: "run_state (os_Stat ''/usr/local/bin/k3s'') v1 = (s2, v2)" by fastforce
  have t: "w_trace v2 = w_trace w" using trace_Stat [OF s1] trace_Stat [OF s2] by simp
  show ?thesis
  proof (cases "k3s_vars cfg (is_ok s1) (is_ok s2) restart ins")
    case None
    then have "w' = v2" using assms(3) False s1 s2 by (simp add: ApplyK3S_def mode_Get_calm [OF assms(1,2)])
    then show ?thesis using t by simp
  next
    case (Some vars)
    obtain env where e: "run_state Environ v2 = (env, v2)" by (simp add: Environ_def)
    let ?c = "\<lparr>c_name = ''/usr/libexec/k3os/k3s-install.sh'', c_argv0 = None,
        c_args = k3s_args cfg (TrimSpace b) (d_version d),
        c_env = Some (env @ vars), c_stdin = StdinInherit, c_attr = None\<rparr>"
    have "run_state (cmd_Run ?c) v2 = (r, w')"
      using assms(3) False s1 s2 Some e by (simp add: ApplyK3S_def mode_Get_calm [OF assms(1,2)])
    from cmd_Run_trace [OF this] have "runs w w' = [?c]" using t by (intro runs_one) simp
    then show ?thesis using False by simp
  qed
qed

lemma ApplyInstall_runs:
  assumes "fault_free w" "file_is [''run'', ''k3os'', ''mode''] b w" "run_state (ApplyInstall cfg) w = (r, w')"
  shows "runs w w' = (if TrimSpace b = ''install'' then [(Command ''k3os'' [''install''])\<lparr>c_stdin := StdinInherit\<rparr>] else [])"
proof (cases "TrimSpace b = ''install''")
  case True
  then have "run_state (cmd_Run ((Command ''k3os'' [''install''])\<lparr>c_stdin := StdinInherit\<rparr>)) (tick w) = (r, w')"
    using assms(3) by (simp add: ApplyInstall_def mode_Get_calm [OF assms(1,2)])
  from cmd_Run_trace [OF this] show ?thesis using True by (simp add: runs_one)
next
  case False
  then have "w' = tick w" using assms(3) by (simp add: ApplyInstall_def mode_Get_calm [OF assms(1,2)])
  then show ?thesis using False by simp
qed

lemma k3s_labels_order:
  assumes "mset labels' = mset (Labels (K3OS cfg))"
  shows "k3s_labels (cfg\<lparr>K3OS := (K3OS cfg)\<lparr>Labels := labels'\<rparr>\<rparr>) mode ver = k3s_labels cfg mode ver"
  unfolding k3s_labels_def
  by (rule properties_for_sort) (use assms in simp_all)

section \<open>Properties\<close>

lemma run_appliers_states:
  "run_state (run_appliers cfg as es) w = (errs, w') \<Longrightarrow>
   \<exists>ws rs. length ws = Suc (length as) \<and> length rs = length as \<and> ws ! 0 = w \<and> ws ! length as = w'
     \<and> (\<forall>i < length as. run_state ((as ! i) cfg) (ws ! i) = (rs ! i, ws ! Suc i)) \<and> errs = es @ [e. Inl e \<leftarrow> rs]"
proof (induction as arbitrary: es w)
  case Nil
  then show ?case by (intro exI [of _ "[w]"] exI [of _ "[]"]) simp
next
  case (Cons a as)
  obtain r v where a: "run_state (a cfg) w = (r, v)" by fastforce
  have "run_state (run_appliers cfg as (case r of Inl e \<Rightarrow> es @ [e] | Inr _ \<Rightarrow> es)) v = (errs, w')"
    using Cons.prems a by simp
  from Cons.IH [OF this] obtain ws rs where ih: "length ws = Suc (length as)" "length rs = length as" "ws ! 0 = v"
    "ws ! length as = w'" "\<forall>i < length as. run_state ((as ! i) cfg) (ws ! i) = (rs ! i, ws ! Suc i)"
    "errs = (case r of Inl e \<Rightarrow> es @ [e] | Inr _ \<Rightarrow> es) @ [e. Inl e \<leftarrow> rs]" by blast
  have "run_state (((a # as) ! i) cfg) ((w # ws) ! i) = ((r # rs) ! i, (w # ws) ! Suc i)" if "i < length (a # as)" for i
    using that ih(3,5) a by (cases i) simp_all
  then show ?case using ih(1,2,4,6)
    by (intro exI [of _ "w # ws"] exI [of _ "r # rs"]) (simp split: sum.split)
qed

text \<open>
  C29. Every applier runs, in order, whatever those before it returned: with \<open>n\<close> appliers there are the worlds
  \<open>ws!0\<close> (the start) to \<open>ws!n\<close> (the end) and the results \<open>rs\<close>, applier \<open>i\<close> leading from \<open>ws!i\<close> to \<open>ws!(i+1)\<close>
  with \<open>rs!i\<close>. The result is success if all succeeded, and else the errors of all that failed, in order.
\<close>

theorem runApplies_runs_all:
  assumes "run_state (runApplies cfg as) w = (r, w')"
  shows "\<exists>ws rs. length ws = Suc (length as) \<and> length rs = length as \<and> ws ! 0 = w \<and> ws ! length as = w'
    \<and> (\<forall>i < length as. run_state ((as ! i) cfg) (ws ! i) = (rs ! i, ws ! Suc i))
    \<and> r = (if \<forall>x \<in> set rs. is_ok x then Inr () else Inl (ErrMulti [e. Inl e \<leftarrow> rs]))"
proof -
  obtain errs v where e: "run_state (run_appliers cfg as []) w = (errs, v)" by fastforce
  then have r: "r = (if errs \<noteq> [] then Inl (ErrMulti errs) else Inr ())" "v = w'"
    using assms by (simp_all add: runApplies_def)
  have ok: "[e. Inl e \<leftarrow> rs] = [] \<longleftrightarrow> (\<forall>x \<in> set rs. is_ok x)" for rs :: "(goerror + unit) list"
    by (induction rs) (auto split: sum.split)
  from run_appliers_states [OF e] obtain ws rs where s: "length ws = Suc (length as)" "length rs = length as" "ws ! 0 = w"
    "ws ! length as = w'" "\<forall>i < length as. run_state ((as ! i) cfg) (ws ! i) = (rs ! i, ws ! Suc i)" "errs = [e. Inl e \<leftarrow> rs]"
    unfolding r(2) by auto
  have "r = (if \<forall>x \<in> set rs. is_ok x then Inr () else Inl (ErrMulti [e. Inl e \<leftarrow> rs]))"
    unfolding r(1) s(6) by (simp only: ok [symmetric]) simp
  with s(1-5) show ?thesis by blast
qed

theorem runApplies_runs_all_witness:
  "\<exists>w'. run_state (runApplies emptyConfig [\<lambda>_. State_Monad.return (Inl (Errno EIO)), \<lambda>_. do { emit (EvPrint ''two''); State_Monad.return (Inr ()) },
       \<lambda>_. State_Monad.return (Inl (Errno EACCES))]) (calm_world []) = (Inl (ErrMulti [Errno EIO, Errno EACCES]), w') \<and> w_trace w' = [EvPrint ''two'']"
proof -
  let ?as = "[\<lambda>_. State_Monad.return (Inl (Errno EIO)), \<lambda>_. do { emit (EvPrint ''two''); State_Monad.return (Inr ()) },
       \<lambda>_. State_Monad.return (Inl (Errno EACCES))] :: applier list"
  obtain r w' where run: "run_state (runApplies emptyConfig ?as) (calm_world []) = (r, w')" by fastforce
  from runApplies_runs_all [OF run] show ?thesis
  proof (elim exE conjE)
    fix ws rs
    assume s: "length rs = length ?as" "ws ! 0 = calm_world []" "ws ! length ?as = w'"
      "\<forall>i < length ?as. run_state ((?as ! i) emptyConfig) (ws ! i) = (rs ! i, ws ! Suc i)"
      "r = (if \<forall>x \<in> set rs. is_ok x then Inr () else Inl (ErrMulti [e. Inl e \<leftarrow> rs]))"
    have 0: "rs ! 0 = Inl (Errno EIO)" "ws ! 1 = calm_world []" using s(2) s(4) [rule_format, of 0] by auto
    have 1: "rs ! 1 = Inr ()" "ws ! 2 = (calm_world [])\<lparr>w_trace := [EvPrint ''two'']\<rparr>"
      using s(4) [rule_format, of 1] unfolding 0(2) by (auto simp: emit_def calm_world_def numeral_2_eq_2)
    have 2: "rs ! 2 = Inl (Errno EACCES)" "w' = ws ! 2" using s(3) s(4) [rule_format, of 2] by (auto simp: numeral_2_eq_2)
    have i: "rs ! 0 = Inl (Errno EIO)" "rs ! 1 = Inr ()" "rs ! 2 = Inl (Errno EACCES)" "w_trace w' = [EvPrint ''two'']"
      using 0 1 2 by simp_all
    have "rs = [rs ! 0, rs ! 1, rs ! 2]" using s(1) by (intro nth_equalityI) (auto simp: less_Suc_eq numeral_2_eq_2)
    then have "rs = [Inl (Errno EIO), Inr (), Inl (Errno EACCES)]" unfolding i .
    then show ?thesis using run s(5) i(4) by simp
  qed
qed

text \<open>So a list of appliers in two parts runs the second from where the first ended.\<close>

lemma runApplies_append:
  "run_state (runApplies cfg (as @ bs)) w =
     (case run_state (runApplies cfg as) w of (r1, v) \<Rightarrow>
      case run_state (runApplies cfg bs) v of (r2, u) \<Rightarrow>
        (case (r1, r2) of
           (Inr _, _) \<Rightarrow> r2
         | (Inl e, Inr _) \<Rightarrow> Inl e
         | (Inl (ErrMulti es), Inl (ErrMulti fs)) \<Rightarrow> Inl (ErrMulti (es @ fs))
         | _ \<Rightarrow> r1, u))"
  by (simp add: runApplies_def run_appliers_append case_prod_beta)

text \<open>
  The arguments of the k3s install script do not depend on the order in which Go visits the map
  of labels, and every label, the mode and the version are among them.
\<close>

theorem k3s_args_deterministic:
  assumes "mset labels' = mset (Labels (K3OS cfg))"
  shows "k3s_args (cfg\<lparr>K3OS := (K3OS cfg)\<lparr>Labels := labels'\<rparr>\<rparr>) mode ver = k3s_args cfg mode ver
    \<and> (\<forall>(k, v) \<in> set labels'. k @ ''='' @ v \<in> set (k3s_args cfg mode ver))
    \<and> (''k3os.io/version='' @ ver) \<in> set (k3s_args cfg mode ver)"
proof -
  have sl: "set labels' = set (Labels (K3OS cfg))" using assms by (metis set_mset_mset)
  have "k3s_args (cfg\<lparr>K3OS := (K3OS cfg)\<lparr>Labels := labels'\<rparr>\<rparr>) mode ver = k3s_args cfg mode ver"
    using k3s_labels_order [OF assms] by (simp add: k3s_args_def)
  moreover have "l \<in> set (k3s_labels cfg mode ver) \<Longrightarrow> l \<in> set (k3s_args cfg mode ver)" for l
    by (auto simp: k3s_args_def)
  moreover have "\<forall>(k, v) \<in> set labels'. k @ ''='' @ v \<in> set (k3s_labels cfg mode ver)"
    using sl by (force simp: k3s_labels_def)
  moreover have "''k3os.io/version='' @ ver \<in> set (k3s_labels cfg mode ver)" by (simp add: k3s_labels_def)
  ultimately show ?thesis by blast
qed

theorem k3s_args_deterministic_witness:
  "k3s_args (emptyConfig\<lparr>K3OS := emptyK3OS\<lparr>Labels := [(''b'', ''2''), (''a'', ''1'')]\<rparr>\<rparr>) [] ''v1''
   = k3s_args (emptyConfig\<lparr>K3OS := emptyK3OS\<lparr>Labels := [(''a'', ''1''), (''b'', ''2'')]\<rparr>\<rparr>) [] ''v1''"
  using k3s_args_deterministic [of "[(''b'', ''2''), (''a'', ''1'')]"
      "emptyConfig\<lparr>K3OS := emptyK3OS\<lparr>Labels := [(''a'', ''1''), (''b'', ''2'')]\<rparr>\<rparr>" "[]" "''v1''"]
  by (simp add: add_mset_commute)

text \<open>
  C30. In one boot mode only one of the two installers runs: with the mode \<^verbatim>\<open>install\<close> \<open>ApplyInstall\<close>
  starts the installer and \<open>ApplyK3S\<close> runs nothing; with any other mode \<open>ApplyInstall\<close> runs nothing
  and \<open>ApplyK3S\<close> at most the k3s install script, with the arguments of the configuration.
\<close>

theorem one_installer_per_mode:
  assumes "fault_free w" "file_is [''run'', ''k3os'', ''mode''] b w"
    and "run_state (ApplyK3S d cfg restart ins) w = (r1, w1)" "run_state (ApplyInstall cfg) w = (r2, w2)"
  shows "if TrimSpace b = ''install''
    then runs w w1 = [] \<and> map c_args (runs w w2) = [[''install'']]
    else runs w w2 = [] \<and> (runs w w1 = [] \<or> map c_args (runs w w1) = [k3s_args cfg (TrimSpace b) (d_version d)])"
  using ApplyK3S_runs [OF assms(1-3)] ApplyInstall_runs [OF assms(1,2,4)]
  by (auto simp: Command_def)

definition mode_fs :: fs where
  "mode_fs = [([], mkdir_inode), ([''run''], mkdir_inode), ([''run'', ''k3os''], mkdir_inode),
     ([''run'', ''k3os'', ''mode''], mkfile (''install'' @ [newline]))]"

theorem one_installer_per_mode_witness:
  "\<exists>w2. snd (run_state (ApplyInstall emptyConfig) (calm_world mode_fs)) = w2
    \<and> map c_args (runs (calm_world mode_fs) w2) = [[''install'']]"
proof -
  have f: "file_is [''run'', ''k3os'', ''mode''] (''install'' @ [newline]) (calm_world mode_fs)"
    by (auto simp: file_is_def direct_def mode_fs_def is_dir_def plain_def mkdir_inode_def mkfile_def
        less_Suc_eq)
  have t: "TrimSpace (''install'' @ [newline]) = ''install''"
    by (simp add: TrimSpace_def TrimFunc_def TrimRight_def TrimLeft_def is_space_def)
  obtain r1 w1 where k: "run_state (ApplyK3S \<lparr>d_gunzip = \<lambda>_. Inl ErrEOF, d_version = ''v'', d_order = id\<rparr> emptyConfig True True)
      (calm_world mode_fs) = (r1, w1)" by fastforce
  obtain r2 w2 where i: "run_state (ApplyInstall emptyConfig) (calm_world mode_fs) = (r2, w2)" by fastforce
  from one_installer_per_mode [OF _ f k i] t show ?thesis using i by simp
qed

text \<open>
  The four phases leave a well-formed file tree behind and only add to the record of events,
  whatever fails and whatever the commands of the configuration do within a tree.
\<close>

theorem phases_keep_tree:
  assumes "wf_world w" "phase \<in> {RunApply d, InstallApply d, BootApply d, InitApply d}"
  shows "wf_world (snd (run_state (phase cfg) w)) \<and> prefix (w_trace w) (w_trace (snd (run_state (phase cfg) w)))"
proof -
  have P: "program (phase cfg)" using assms(2) program_phases [of d cfg] by auto
  show ?thesis by (intro conjI tree.snd_run_keeps [OF P assms(1)] trace.snd_run_keeps [OF P]) simp
qed

theorem phases_keep_tree_witness:
  "wf_fs (w_fs (snd (run_state (BootApply \<lparr>d_gunzip = \<lambda>_. Inl ErrEOF, d_version = ''v'', d_order = id\<rparr> emptyConfig)
     (calm_world demo_fs))))"
proof -
  let ?d = "\<lparr>d_gunzip = \<lambda>_. Inl ErrEOF, d_version = ''v'', d_order = id\<rparr>"
  have "BootApply ?d \<in> {RunApply ?d, InstallApply ?d, BootApply ?d, InitApply ?d}" by simp
  from phases_keep_tree [OF _ this, of "calm_world demo_fs" emptyConfig] show ?thesis
    unfolding wf_world_def [of "snd _"] by simp
qed

text \<open>
  C28. \<open>ApplyEnvironment\<close> and the reading of \<^verbatim>\<open>/etc/environment\<close> fit together: after a successful run
  the file reads as the old variables overridden by those of the configuration, in whatever order
  the map is written.
\<close>

theorem ApplyEnvironment_roundtrip:
  assumes "fault_free w" "file_is [''etc'', ''environment''] content w" "Environment (K3OS cfg) \<noteq> []"
    and "wf_map (Environment (K3OS cfg))" "\<And>m. mset (d_order d m) = mset m"
    and "\<And>k v. (k, v) \<in> set (parse_env content) \<union> set (Environment (K3OS cfg)) \<Longrightarrow>
      env_name k \<and> length (env_body (k, v)) < 65536"
  shows "\<exists>w' c. run_state (ApplyEnvironment d cfg) w = (Inr (), w')
    \<and> file_is [''etc'', ''environment''] c w'
    \<and> map_of (parse_env c) = map_of (parse_env content) ++ map_of (Environment (K3OS cfg))"
proof -
  let ?p = "[''etc'', ''environment'']"
  let ?e = "Environment (K3OS cfg)"
  let ?m = "fold (\<lambda>(k, v). AList.update k v) ?e (parse_env content)"
  have nm: "''/etc/environment'' = abs_path ?p" by (simp add: abs_path_def)
  have "wf_map m \<Longrightarrow> wf_map (fold (\<lambda>(k, v). AList.update k v) e m)" for e m :: "(string \<times> string) list"
    by (induction e arbitrary: m) auto
  moreover have "wf_map m \<Longrightarrow> wf_map (env_lines ls m)" for ls m
    by (induction ls arbitrary: m) (auto split: option.split)
  ultimately have wf: "wf_map ?m" by (simp add: parse_env_def)
  have mem: "set (fold (\<lambda>(k, v). AList.update k v) e m) \<subseteq> set e \<union> set m" for e m :: "(string \<times> string) list"
  proof (induction e arbitrary: m)
    case (Cons kv e)
    have "set (fold (\<lambda>(k, v). AList.update k v) e (AList.update (fst kv) (snd kv) m))
        \<subseteq> set e \<union> set (AList.update (fst kv) (snd kv) m)" by (rule Cons.IH)
    then show ?case using set_alist_update [of "fst kv" "snd kv" m] by (cases kv) auto
  qed simp
  let ?o = "d_order d ?m"
  have perm: "wf_map ?o" "map_of ?o = map_of ?m" using wf_map_permute [OF wf assms(5)] by auto
  have so: "set ?o = set ?m" using assms(5) by (metis set_mset_mset)
  have "map_of (parse_env (render_env ?o)) = map_of ?o"
    by (rule parse_render [OF perm(1)]) (use assms(6) so mem [of ?e "parse_env content"] in fastforce)
  also have "\<dots> = map_of (parse_env content) ++ map_of (rev ?e)" using perm(2) by (simp add: fold_update_map_of)
  also have "map_of (rev ?e) = map_of ?e" using wf_map_permute(2) [OF assms(4), of "rev ?e"] by simp
  finally have c: "map_of (parse_env (render_env ?o)) = map_of (parse_env content) ++ map_of ?e" .
  have rd: "run_state (os_ReadFile (abs_path ?p)) w = (Inr content, tick w)" by (rule os_ReadFile_calm [OF assms(1,2)])
  have "wp (os_WriteFile (abs_path ?p) (render_env ?o) 420) (\<lambda>r v. r = Inr () \<and> file_is ?p (render_env ?o) v) (tick w)"
    by (rule wp_os_WriteFile_calm) (use assms(1,2) file_is_writable in \<open>auto simp: written_def\<close>)
  then obtain w' where wr: "run_state (os_WriteFile (abs_path ?p) (render_env ?o) 420) (tick w) = (Inr (), w')"
    "file_is ?p (render_env ?o) w'"
    by (auto simp: wp_def split: prod.splits)
  have "run_state (ApplyEnvironment d cfg) w = (Inr (), w')"
    using assms(3) rd wr(1) unfolding ApplyEnvironment_def nm by (simp add: Let_def wrap_def)
  then show ?thesis using wr(2) c by blast
qed

text \<open>A name that begins with \<^verbatim>\<open>export\<close> loses that beginning every time the file is read.\<close>

lemma env_line_eats_export:
  "env_line ''exported=1'' = Some (''ed'', ''1'')"
  by (simp add: env_line_def Let_def go_eval unq_loop.simps)

definition env_fs :: fs where
  "env_fs = [([], mkdir_inode), ([''etc''], mkdir_inode),
     ([''etc'', ''environment''], mkfile (''A='' @ Quote ''1'' @ [newline] @ ''B='' @ Quote ''2'' @ [newline]))]"

theorem ApplyEnvironment_roundtrip_witness:
  "\<exists>w' c. run_state (ApplyEnvironment \<lparr>d_gunzip = \<lambda>_. Inl ErrEOF, d_version = ''v'', d_order = rev\<rparr>
       (emptyConfig\<lparr>K3OS := emptyK3OS\<lparr>Environment := [(''B'', ''x y'')]\<rparr>\<rparr>)) (calm_world env_fs) = (Inr (), w')
     \<and> file_is [''etc'', ''environment''] c w' \<and> map_of (parse_env c) = [''A'' \<mapsto> ''1'', ''B'' \<mapsto> ''x y'']"
proof -
  let ?d = "\<lparr>d_gunzip = \<lambda>_. Inl ErrEOF, d_version = ''v'', d_order = rev\<rparr>"
  let ?cfg = "emptyConfig\<lparr>K3OS := emptyK3OS\<lparr>Environment := [(''B'', ''x y'')]\<rparr>\<rparr>"
  let ?old = "[(''A'', ''1''), (''B'', ''2'')]"
  have names: "env_name ''A''" "env_name ''B''"
    by (simp_all add: env_name_def is_space_def HasPrefix_def)
  have short: "length (env_body (k, v)) < 65536" if "(k, v) \<in> {(''A'', ''1''), (''B'', ''2''), (''B'', ''x y'')}" for k v
    using that by (auto simp: env_body_def Quote_def esc_byte_def)
  have old: "parse_env (''A='' @ Quote ''1'' @ [newline] @ ''B='' @ Quote ''2'' @ [newline]) = ?old"
  proof -
    have r: "''A='' @ Quote ''1'' @ [newline] @ ''B='' @ Quote ''2'' @ [newline]
        = concat (map (\<lambda>l. l @ [newline]) (map env_body ?old))" by (simp add: env_body_def)
    have "ScanLines (concat (map (\<lambda>l. l @ [newline]) (map env_body ?old))) = (map env_body ?old, False)"
      by (rule ScanLines_lines) (use newline_env_body names short in auto)
    then show ?thesis unfolding r parse_env_def using names by (simp add: env_line_body)
  qed
  have f: "file_is [''etc'', ''environment''] (''A='' @ Quote ''1'' @ [newline] @ ''B='' @ Quote ''2'' @ [newline]) (calm_world env_fs)"
    by (auto simp: file_is_def direct_def env_fs_def is_dir_def plain_def mkdir_inode_def mkfile_def less_Suc_eq)
  have "\<exists>w' c. run_state (ApplyEnvironment ?d ?cfg) (calm_world env_fs) = (Inr (), w')
    \<and> file_is [''etc'', ''environment''] c w'
    \<and> map_of (parse_env c) = map_of ?old ++ map_of (Environment (K3OS ?cfg))"
    unfolding old [symmetric]
    by (rule ApplyEnvironment_roundtrip [OF _ f])
      (use names short old in \<open>auto simp: wf_map_def\<close>)
  moreover have "map_of ?old ++ map_of (Environment (K3OS ?cfg)) = [''A'' \<mapsto> ''1'', ''B'' \<mapsto> ''x y'']"
    by (auto simp: fun_eq_iff)
  ultimately show ?thesis by (simp only:)
qed

end
