(* ===== verification/GoCopy.thy ===== *)
theory GoCopy
  imports GoFiles
begin

text \<open>
  The vendored \<^verbatim>\<open>otiai10/copy\<close>: a file, a link or a tree is copied to a new name. Descending is bounded
  by \<open>copy_depth\<close>: a path name cannot have more than 4096 bytes, each level adds at least two, and
  beyond the system calls of the code itself fail with \<open>ENAMETOOLONG\<close>.
\<close>

section \<open>The code\<close>

definition ENAMETOOLONG :: errno where "ENAMETOOLONG = EOther 36"

definition ModePerm :: filemode where "ModePerm = 511"

definition fi_Mode :: "fileinfo \<Rightarrow> filemode" where
  "fi_Mode fi = goMode (fi_inode fi)"

definition is_link :: "fileinfo \<Rightarrow> bool" where
  "is_link fi = (case i_kind (fi_inode fi) of KLink _ \<Rightarrow> True | _ \<Rightarrow> False)"

text \<open>\<^verbatim>\<open>io.Copy\<close>: what was read before an error has been written.\<close>

definition io_Copy :: "path \<Rightarrow> path \<Rightarrow> unit os" where
  "io_Copy dst src = do {
     d \<leftarrow> fd_ReadAll src;
     r \<leftarrow> fd_Write dst (fst d);
     onok r (\<lambda>_. State_Monad.return (case snd d of None \<Rightarrow> Inr () | Some e \<Rightarrow> Inl e)) }"

definition fcopy :: "string \<Rightarrow> string \<Rightarrow> fileinfo \<Rightarrow> unit os" where
  "fcopy src dest info = do {
     m \<leftarrow> os_MkdirAll (path_Dir dest) ModePerm;
     onok m (\<lambda>_. do {
       f \<leftarrow> os_Create dest;
       onok f (\<lambda>f. deferred (fd_Close f) (do {
         c \<leftarrow> os_Chmod dest (fi_Mode info);
         onok c (\<lambda>_. do {
           s \<leftarrow> os_Open src;
           onok s (\<lambda>s. deferred (fd_Close s) (io_Copy f s)) }) })) }) }"

definition lcopy :: "string \<Rightarrow> string \<Rightarrow> fileinfo \<Rightarrow> unit os" where
  "lcopy src dest info = do {
     t \<leftarrow> os_Readlink src;
     onok t (\<lambda>t. os_Symlink t dest) }"

type_synonym copier = "string \<Rightarrow> string \<Rightarrow> fileinfo \<Rightarrow> unit os"

primrec copy_each :: "copier \<Rightarrow> string \<Rightarrow> string \<Rightarrow> fileinfo list \<Rightarrow> unit os" where
  "copy_each cp srcdir destdir [] = State_Monad.return (Inr ())"
| "copy_each cp srcdir destdir (content # contents) = do {
     r \<leftarrow> cp (path_Join [srcdir, fi_name content]) (path_Join [destdir, fi_name content]) content;
     onok r (\<lambda>_. copy_each cp srcdir destdir contents) }"

definition dcopy :: "copier \<Rightarrow> copier" where
  "dcopy cp srcdir destdir info = do {
     m \<leftarrow> os_MkdirAll destdir 493;
     onok m (\<lambda>_. deferred (os_Chmod destdir (fi_Mode info)) (do {
       contents \<leftarrow> os_ReadDirInfo srcdir;
       onok contents (\<lambda>contents. copy_each cp srcdir destdir contents) })) }"

primrec copy_go :: "nat \<Rightarrow> copier" where
  "copy_go 0 = (\<lambda>src dest info. State_Monad.return (Inl (Errno ENAMETOOLONG)))"
| "copy_go (Suc n) = (\<lambda>src dest info.
     if is_link info then lcopy src dest info
     else if IsDir info then dcopy (copy_go n) src dest info
     else fcopy src dest info)"

definition copy_depth :: nat where "copy_depth = 4096"

definition Copy :: "string \<Rightarrow> string \<Rightarrow> unit os" where
  "Copy src dest = do {
     info \<leftarrow> os_Lstat src;
     onok info (\<lambda>info. copy_go copy_depth src dest info) }"

lemma program_io_Copy [program_intros]: "program (io_Copy d s)"
  unfolding io_Copy_def by (intro program_intros)

lemma program_fcopy [program_intros]: "program (fcopy s d i)"
  unfolding fcopy_def by (intro program_intros)

lemma program_lcopy [program_intros]: "program (lcopy s d i)"
  unfolding lcopy_def by (intro program_intros)

lemma program_copy_each [program_intros]: "(\<And>s d i. program (cp s d i)) \<Longrightarrow> program (copy_each cp s d cs)"
  by (induction cs) (auto intro!: program_intros)

lemma program_dcopy [program_intros]: "(\<And>s d i. program (cp s d i)) \<Longrightarrow> program (dcopy cp s d i)"
  unfolding dcopy_def by (intro program_intros)

lemma program_copy_go [program_intros]: "program (copy_go n s d i)"
  by (induction n arbitrary: s d i) (auto intro!: program_intros)

lemma program_Copy [program_intros]: "program (Copy s d)"
  unfolding Copy_def by (intro program_intros)

section \<open>Directories that are there\<close>

lemma ancestors_abs:
  assumes "p \<noteq> []" "\<forall>c \<in> set p. plain c"
  shows "ancestors (abs_path p) = abs_path p # (if butlast p = [] then [] else ancestors (abs_path (butlast p)))"
proof -
  obtain d c where p: "p = d @ [c]" using assms(1) by (metis append_butlast_last_id)
  have c: "c \<noteq> []" "slash \<notin> set c" using assms(2) p by (auto simp: plain_def)
  let ?d = "slash # concat (map (\<lambda>c. c @ [slash]) d)"
  have a: "abs_path p = ?d @ c" using path_Split_append [of "abs_path p"] path_Split_abs [OF assms] p by simp
  have "last (abs_path p) \<in> set c" using a c(1) by simp
  then have t1: "TrimRight (\<lambda>c. c = slash) (abs_path p) = abs_path p"
    by (intro TrimRight_id) (use c in \<open>auto\<close>)
  have l: "last ?d = slash" by (cases d rule: rev_cases) simp_all
  have "dropWhile (\<lambda>c. c \<noteq> slash) (rev c @ rev ?d) = dropWhile (\<lambda>c. c \<noteq> slash) (rev ?d)"
    by (rule dropWhile_append2) (use c(2) in auto)
  also have "\<dots> = rev ?d" using l by (simp add: dropWhile_eq_self_iff hd_rev del: rev.simps)
  finally have t2: "TrimRight (\<lambda>c. c \<noteq> slash) (abs_path p) = ?d"
    unfolding a TrimRight_def rev_append by (simp only: rev_rev_ident)
  have j: "butlast ?d = abs_path d" if "d \<noteq> []"
  proof -
    have "concat (map (\<lambda>c. c @ [slash]) d) = Join d [slash] @ [slash]"
      using that by (induction d rule: list_nonempty_induct) (auto simp: Join_Cons)
    then show ?thesis by (simp add: abs_path_def)
  qed
  have "parent_path (abs_path p) = (if d = [] then None else Some (abs_path d))"
    using j t1 t2 by (auto simp: parent_path_def Let_def)
  then show ?thesis unfolding ancestors.simps [of "abs_path p"] by (simp add: p)
qed

lemma direct_parent: "direct f p \<Longrightarrow> butlast p \<noteq> [] \<Longrightarrow> direct f (butlast p)"
  by (auto simp: direct_def in_set_butlastD take_butlast)

lemma dir_resolves: "direct (w_fs w) p \<Longrightarrow> is_dir (w_fs w) p \<Longrightarrow> resolve w follow (abs_path p) = Inr p"
  by (rule resolve_abs) (auto simp: is_dir_def split: option.splits)

lemma wp_mkdir_chain_Cons:
  assumes "\<And>r v. w_fs v = w_fs w \<Longrightarrow> (\<And>p. r = Inr () \<Longrightarrow> resolve w True s = Inr p \<Longrightarrow> is_dir (w_fs w) p) \<Longrightarrow> Q r v"
    and "wp (mkdir_chain perm anc) (\<lambda>r v. wp (onok r (\<lambda>_. mkdir_or_dir s perm)) Q v) (tick w)"
  shows "wp (mkdir_chain perm (s # anc)) Q w"
  unfolding mkdir_chain.simps wp_bind [of "os_Stat _"]
proof (rule wp_os_Stat, goal_cases)
  case (1 e)
  then show ?case using assms(2) by simp
next
  case (2 p i)
  then show ?case by (auto simp: IsDir_def is_dir_def intro!: assms(1))
qed

lemma mkdir_existing:
  "direct (w_fs w) p \<Longrightarrow> is_dir (w_fs w) p \<Longrightarrow>
   wp (mkdir_chain perm (ancestors (abs_path p))) (\<lambda>_ v. w_fs v = w_fs w) w"
proof (induction "length p" arbitrary: p w)
  case (Suc n)
  have pl: "p \<noteq> []" "\<forall>c \<in> set p. plain c" using Suc.prems(1) by (auto simp: direct_def)
  define anc where "anc = (if butlast p = [] then [] else ancestors (abs_path (butlast p)))"
  have anc: "wp (mkdir_chain perm anc) (\<lambda>_ v. w_fs v = w_fs u) u" if "w_fs u = w_fs w" for u
  proof (cases "butlast p = []")
    case False
    have "wp (mkdir_chain perm (ancestors (abs_path (butlast p)))) (\<lambda>_ v. w_fs v = w_fs u) u"
      by (rule Suc.hyps) (use Suc False that direct_parent direct_butlast in auto)
    then show ?thesis using False by (simp add: anc_def)
  qed (simp add: anc_def)
  have mk: "wp (mkdir_or_dir (abs_path p) perm) (\<lambda>_ v. w_fs v = w_fs w) u" if u: "w_fs u = w_fs w" for u :: world
  proof -
    have "resolve u False (abs_path p) = Inr p" using Suc.prems u by (intro dir_resolves) simp_all
    moreover have "fs_get (w_fs u) p \<noteq> None" using Suc.prems(2) u is_dir_get by simp
    ultimately show ?thesis by (intro wp_mkdir_or_dir) (auto simp: u)
  qed
  show ?case
    unfolding ancestors_abs [OF pl] anc_def [symmetric]
  proof (rule wp_mkdir_chain_Cons)
    show "wp (mkdir_chain perm anc) (\<lambda>r v. wp (onok r (\<lambda>_. mkdir_or_dir (abs_path p) perm))
        (\<lambda>_ v. w_fs v = w_fs w) v) (tick w)"
    proof (rule wp_mono [OF anc])
      fix r :: "goerror + unit" and v :: world
      assume "w_fs v = w_fs (tick w)"
      then show "wp (onok r (\<lambda>_. mkdir_or_dir (abs_path p) perm)) (\<lambda>_ v. w_fs v = w_fs w) v"
        using mk [of v] by (cases r) simp_all
    qed simp
  qed simp
qed (simp add: direct_def)

text \<open>A copy goes to a name that is free, or to an empty directory.\<close>

definition fresh_target :: "fs \<Rightarrow> path \<Rightarrow> bool" where
  "fresh_target f p = (direct f p \<and> butlast p \<noteq> [] \<and> \<not> has_children f p
     \<and> (\<forall>i. fs_get f p = Some i \<longrightarrow> i_kind i = KDir))"

lemma fresh_target_resolve: "fresh_target (w_fs w) p \<Longrightarrow> resolve w follow (abs_path p) = Inr p"
  by (rule resolve_abs) (auto simp: fresh_target_def)

lemma fresh_target_parent: "fresh_target f p \<Longrightarrow> direct f (butlast p) \<and> is_dir f (butlast p)"
  by (simp add: fresh_target_def direct_parent direct_butlast)

lemma mkdir_target:
  assumes "fresh_target (w_fs w) p"
  shows "wp (os_MkdirAll (abs_path p) perm) (\<lambda>r v.
     (w_fs v = w_fs w \<or> (\<exists>i. fs_get (w_fs w) p = None \<and> i_kind i = KDir \<and> w_fs v = fs_put p i (w_fs w)))
     \<and> (r = Inr () \<longrightarrow> is_dir (w_fs v) p)) w" (is "wp _ ?Q _")
proof -
  have p: "p \<noteq> []" "\<forall>c \<in> set p. plain c" "butlast p \<noteq> []"
    using assms by (auto simp: fresh_target_def direct_def)
  have r: "resolve u follow (abs_path p) = Inr p" if "w_fs u = w_fs w" for u follow
    using fresh_target_resolve [of u p] assms that by simp
  have par: "direct (w_fs w) (butlast p)" "is_dir (w_fs w) (butlast p)"
    using fresh_target_parent [OF assms] by auto
  have mk: "wp (mkdir_or_dir (abs_path p) perm) ?Q v" if v: "w_fs v = w_fs w" for v :: world
    by (rule wp_mkdir_or_dir) (auto simp: v r [OF v])
  show ?thesis
    unfolding os_MkdirAll_def ancestors_abs [OF p(1,2)] if_not_P [OF p(3)]
  proof (rule wp_mkdir_chain_Cons)
    show "wp (mkdir_chain perm (ancestors (abs_path (butlast p))))
        (\<lambda>r v. wp (onok r (\<lambda>_. mkdir_or_dir (abs_path p) perm)) ?Q v) (tick w)"
    proof (rule wp_mono [OF mkdir_existing])
      fix q :: "goerror + unit" and v :: world
      assume "w_fs v = w_fs (tick w)"
      then show "wp (onok q (\<lambda>_. mkdir_or_dir (abs_path p) perm)) ?Q v"
        using mk [of v] by (cases q) simp_all
    qed (use par in simp_all)
  qed (use r [OF refl] in auto)
qed

lemma mkdir_parent:
  assumes "fresh_target (w_fs w) p"
  shows "wp (os_MkdirAll (path_Dir (abs_path p)) perm) (\<lambda>_ v. w_fs v = w_fs w) w"
proof -
  have "path_Dir (abs_path p) = abs_path (butlast p)"
    using assms by (intro path_Dir_abs) (auto simp: fresh_target_def direct_def)
  then show ?thesis
    using mkdir_existing [of w "butlast p"] fresh_target_parent [OF assms] by (simp add: os_MkdirAll_def)
qed

section \<open>What a copy changes\<close>

text \<open>Files appear below the new name and nowhere else, however far the copy gets, and a directory
  that was there stays one.\<close>

definition copied_below :: "path \<Rightarrow> world \<Rightarrow> world \<Rightarrow> bool" where
  "copied_below p w v = (only_below p (w_fs w) (w_fs v) \<and> (is_dir (w_fs w) p \<longrightarrow> is_dir (w_fs v) p))"

lemma copied_below_refl: "w_fs v = w_fs w \<Longrightarrow> copied_below p w v"
  by (simp add: copied_below_def)

lemma copied_below_put:
  "copied_below p w u \<Longrightarrow> w_fs v = fs_put p i (w_fs u) \<Longrightarrow>
   (is_dir (w_fs u) p \<Longrightarrow> i_kind i = KDir) \<Longrightarrow> copied_below p w v"
  by (auto simp: copied_below_def only_below_def)

text \<open>The file itself, no link: what the calls of \<open>fcopy\<close> need to stay where they are.\<close>

definition at_file :: "path \<Rightarrow> world \<Rightarrow> world \<Rightarrow> bool" where
  "at_file p w v = (copied_below p w v \<and> direct (w_fs v) p
     \<and> (\<forall>i t. fs_get (w_fs v) p = Some i \<longrightarrow> i_kind i \<noteq> KLink t))"

lemma at_file_resolve: "at_file p w v \<Longrightarrow> resolve v follow (abs_path p) = Inr p"
  by (rule resolve_abs) (auto simp: at_file_def)

lemma at_file_put:
  assumes "at_file p w u" "w_fs v = fs_put p i (w_fs u)" "\<And>t. i_kind i \<noteq> KLink t"
    "is_dir (w_fs u) p \<Longrightarrow> i_kind i = KDir"
  shows "at_file p w v"
proof -
  have "only_below p (w_fs u) (w_fs v)" using assms(2) only_below_put by simp
  then show ?thesis
    using assms copied_below_put [of p w u v i] direct_below [of "w_fs u" p "w_fs v"]
    by (auto simp: at_file_def)
qed

lemma at_file_same: "at_file p w u \<Longrightarrow> w_fs v = w_fs u \<Longrightarrow> at_file p w v"
  by (auto simp: at_file_def copied_below_def)

lemma at_file_append: "at_file p w u \<Longrightarrow> w_fs v = append_file p d (w_fs u) \<Longrightarrow> at_file p w v"
  by (auto simp: append_file_def is_dir_def intro: at_file_put at_file_same split: option.splits kind.splits)

lemma at_file_tick [simp]: "at_file p w (tick v) = at_file p w v"
  by (simp add: at_file_def copied_below_def)

lemma wp_at_Close: "at_file p w u \<Longrightarrow> wp (fd_Close q) (\<lambda>_ v. at_file p w v) u"
  by (rule wp_fd_Close) (rule at_file_same, simp_all)

lemma wp_at_Copy: "at_file p w u \<Longrightarrow> wp (io_Copy p q) (\<lambda>_ v. at_file p w v) u"
  unfolding io_Copy_def wp_bind
proof (rule wp_fd_ReadAll)
  fix d :: "string \<times> goerror option"
  assume u: "at_file p w u"
  show "wp (fd_Write p (fst d)) (\<lambda>a. wp (onok a (\<lambda>_. State_Monad.return
      (case snd d of None \<Rightarrow> Inr () | Some e \<Rightarrow> Inl e))) (\<lambda>_ v. at_file p w v)) (tick u)"
    by (rule wp_fd_Write) (auto intro: at_file_append [OF u])
qed

text \<open>The copy of a file once it is created.\<close>

lemma fcopy_body_below:
  assumes u: "at_file p w u"
  shows "wp (deferred (fd_Close p) (do {
       c \<leftarrow> os_Chmod (abs_path p) (fi_Mode info);
       onok c (\<lambda>_. do {
         s \<leftarrow> os_Open src;
         onok s (\<lambda>s. deferred (fd_Close s) (io_Copy p s)) }) })) (\<lambda>_ v. copied_below p w v) u"
proof -
  have close: "wp (fd_Close q) (\<lambda>_. copied_below p w) v" if "at_file p w v" for q v r
    using wp_mono [OF wp_at_Close [OF that]] by (auto simp: at_file_def)
  have cp: "wp (deferred (fd_Close s) (io_Copy p s)) (\<lambda>_ v. at_file p w v) v" if "at_file p w v" for s v
    unfolding wp_deferred by (rule wp_mono [OF wp_at_Copy [OF that]]) (rule wp_at_Close)
  have rest: "wp (do {
         s \<leftarrow> os_Open src;
         onok s (\<lambda>s. deferred (fd_Close s) (io_Copy p s)) }) (\<lambda>_ v. at_file p w v) v"
    if "at_file p w v" for v
    unfolding wp_bind
    by (rule wp_os_Open) (use that in \<open>auto intro: cp\<close>)
  show ?thesis
    unfolding wp_deferred wp_bind [of "os_Chmod _ _"]
  proof (rule wp_os_Chmod, goal_cases)
    case (1 e)
    then show ?case using close at_file_same [OF u] by simp
  next
    case (2 q i)
    then have q: "q = p" using at_file_resolve [OF u] by simp
    have nl: "i_kind i \<noteq> KLink t" for t using 2(2) u q by (simp add: at_file_def)
    have "at_file p w ((tick u)\<lparr>w_fs := fs_put q (i\<lparr>i_mode := syscallMode (fi_Mode info)\<rparr>) (w_fs u)\<rparr>)"
    proof (rule at_file_put [OF u])
      show "i_kind (i\<lparr>i_mode := syscallMode (fi_Mode info)\<rparr>) \<noteq> KLink t" for t using nl [of t] by simp
    qed (use 2(2) q in \<open>simp_all add: is_dir_def\<close>)
    then show ?case
      unfolding onok_simps by (rule wp_mono [OF rest]) (rule close)
  qed
qed

lemma fcopy_below:
  assumes "fresh_target (w_fs w) p"
  shows "wp (fcopy src (abs_path p) info) (\<lambda>_ v. copied_below p w v) w"
proof -
  let ?Q = "\<lambda>_ v. copied_below p w v"
  show ?thesis
    unfolding fcopy_def wp_bind [of "os_MkdirAll _ _"]
  proof (rule wp_mono [OF mkdir_parent [OF assms]])
    fix r :: "goerror + unit" and v :: world
    assume v: "w_fs v = w_fs w"
    have ft: "fresh_target (w_fs v) p" using assms v by simp
    have at: "at_file p w v"
      using ft v by (auto simp: at_file_def fresh_target_def copied_below_def)
    have "wp (os_Create (abs_path p)) (\<lambda>f. wp (onok f (\<lambda>f. deferred (fd_Close f) (do {
         c \<leftarrow> os_Chmod (abs_path p) (fi_Mode info);
         onok c (\<lambda>_. do {
           s \<leftarrow> os_Open src;
           onok s (\<lambda>s. deferred (fd_Close s) (io_Copy f s)) }) }))) ?Q) v"
      unfolding os_Create_def
    proof (rule wp_os_OpenTrunc, goal_cases)
      case (1 e)
      then show ?case by (simp add: copied_below_refl v)
    next
      case (2 q i c)
      then have q: "q = p" using fresh_target_resolve [OF ft] by simp
      show ?case unfolding onok_simps q by (rule fcopy_body_below, rule at_file_put [OF at]) (use 2 q in auto)
    next
      case (3 q)
      then have q: "q = p" using fresh_target_resolve [OF ft] by simp
      show ?case unfolding onok_simps q by (rule fcopy_body_below, rule at_file_same [OF at]) simp
    qed
    then show "wp (onok r (\<lambda>_. do { f \<leftarrow> os_Create (abs_path p);
       onok f (\<lambda>f. deferred (fd_Close f) (do {
         c \<leftarrow> os_Chmod (abs_path p) (fi_Mode info);
         onok c (\<lambda>_. do {
           s \<leftarrow> os_Open src;
           onok s (\<lambda>s. deferred (fd_Close s) (io_Copy f s)) }) })) })) ?Q v"
      using v by (cases r) (simp_all add: copied_below_refl)
  qed
qed

lemma lcopy_below:
  assumes "direct (w_fs w) p"
  shows "wp (lcopy src (abs_path p) info) (\<lambda>_ v. copied_below p w v) w"
  unfolding lcopy_def wp_bind [of "os_Readlink _"]
proof (rule wp_os_Readlink)
  fix t :: "goerror + string"
  have "wp (os_Symlink x (abs_path p)) (\<lambda>_ v. copied_below p w v) (tick w)" for x
  proof (rule wp_os_Symlink, goal_cases)
    case (2 q)
    then have "resolve w False (abs_path p) = Inr q" by simp
    moreover have "resolve w False (abs_path p) = Inr p" using assms by (intro resolve_abs) simp_all
    ultimately have "q = p" "\<not> is_dir (w_fs w) p" using 2(2) by (simp_all add: is_dir_def)
    then show ?case by (auto simp: copied_below_def only_below_def)
  qed (simp add: copied_below_refl)
  then show "wp (onok t (\<lambda>t. os_Symlink t (abs_path p))) (\<lambda>_ v. copied_below p w v) (tick w)"
    by (cases t) (simp_all add: copied_below_refl)
qed

lemma entries_names: "fi \<in> set (entries f p) \<Longrightarrow> plain (fi_name fi)"
  by (auto simp: entries_def split: option.splits)

lemma entries_map: "map fi_name (entries f p) = filter (\<lambda>c. fs_get f (p @ [c]) \<noteq> None) (filter plain (children f p))"
proof -
  have "map fi_name (concat (map (\<lambda>c. case fs_get f (p @ [c]) of
       Some i \<Rightarrow> [\<lparr>fi_name = c, fi_inode = i\<rparr>] | None \<Rightarrow> []) cs)) = filter (\<lambda>c. fs_get f (p @ [c]) \<noteq> None) cs" for cs
    by (induction cs) (auto split: option.splits)
  then show ?thesis by (simp only: entries_def)
qed

lemma entries_distinct: "distinct (map fi_name (entries f p))"
  by (simp add: entries_map children_def)

lemma wp_os_ReadDirInfo:
  assumes "\<And>e. Q (Inl e) (tick w)"
    and "\<And>cs. distinct (map fi_name cs) \<Longrightarrow> \<forall>c \<in> set cs. plain (fi_name c) \<Longrightarrow> Q (Inr cs) (tick w)"
  shows "wp (os_ReadDirInfo s) Q w"
  unfolding os_ReadDirInfo_def
proof (rule wp_fs_call)
  have "Q (Inr (entries (w_fs w) p)) (tick w)" for p
    by (rule assms(2)) (auto simp: entries_distinct entries_names)
  then show "with_inode w True s (\<lambda>p i. if i_kind i = KDir then Inr (entries (w_fs w) p, w_fs w) else Inl ENOTDIR)
      = Inr (a, f) \<Longrightarrow> Q (Inr a) ((tick w)\<lparr>w_fs := f\<rparr>)" for a f
    by (auto simp: call_results split: if_splits)
qed (rule assms(1))

text \<open>One entry after the other, each to a name of its own in a directory that is there.\<close>

definition room :: "path \<Rightarrow> string list \<Rightarrow> fs \<Rightarrow> bool" where
  "room p names f = (wf_fs f \<and> direct f p \<and> is_dir f p \<and> (\<forall>c \<in> set names. fs_get f (p @ [c]) = None))"

lemma room_fresh: "room p (c # names) f \<Longrightarrow> plain c \<Longrightarrow> fresh_target f (p @ [c])"
  using wf_fs_no_children [of f "p @ [c]"]
  by (auto simp: room_def fresh_target_def direct_def is_dir_def less_Suc_eq)

lemma room_below:
  assumes "room p (c # names) f" "c \<notin> set names" "only_below (p @ [c]) f g" "wf_fs g"
  shows "room p names g"
proof -
  have n: "\<not> prefix (p @ [c]) p" by (auto dest: prefix_length_le)
  have "only_below p f g" using assms(3) by (rule only_below_mono) simp
  then have "direct g p" using assms(1) by (auto simp: room_def intro: direct_below)
  moreover have "is_dir g p" using assms(1,3) n by (simp add: room_def only_below_dir)
  moreover have "fs_get g (p @ [d]) = None" if "d \<in> set names" for d
    using assms(1-3) that by (subst only_below_get [of "p @ [c]" f g]) (auto simp: room_def)
  ultimately show ?thesis using assms(4) by (simp add: room_def)
qed

definition copies_below :: "copier \<Rightarrow> bool" where
  "copies_below cp = (\<forall>w p src info. wf_world w \<longrightarrow> fresh_target (w_fs w) p \<longrightarrow>
     wp (cp src (abs_path p) info) (\<lambda>_ v. copied_below p w v) w)"

lemma wp_wf: "program m \<Longrightarrow> wf_world w \<Longrightarrow> wp m Q w \<Longrightarrow> wp m (\<lambda>a v. Q a v \<and> wf_world v) w"
  by (rule tree.wp_keeps)

lemma copy_each_below:
  assumes "copies_below cp" "\<And>s d i. program (cp s d i)"
  shows "wf_world w \<Longrightarrow> room p (map fi_name cs) (w_fs w) \<Longrightarrow> distinct (map fi_name cs) \<Longrightarrow>
    \<forall>c \<in> set cs. plain (fi_name c) \<Longrightarrow>
    wp (copy_each cp src (abs_path p) cs) (\<lambda>_ v. copied_below p w v \<and> direct (w_fs v) p \<and> is_dir (w_fs v) p) w"
proof (induction cs arbitrary: w)
  case Nil
  then show ?case by (simp add: copied_below_refl room_def)
next
  case (Cons c cs)
  let ?n = "fi_name c"
  let ?Q = "\<lambda>_ v. copied_below p w v \<and> direct (w_fs v) p \<and> is_dir (w_fs v) p"
  have room: "room p (?n # map fi_name cs) (w_fs w)" and pl: "plain ?n" using Cons.prems by simp_all
  have pp: "\<forall>c \<in> set p. plain c" using room by (simp add: room_def direct_def)
  have "wp (cp (path_Join [src, ?n]) (abs_path (p @ [?n])) c) (\<lambda>_ v. copied_below (p @ [?n]) w v \<and> wf_world v) w"
    by (rule wp_wf [OF assms(2)])
      (use assms(1) Cons.prems room_fresh [OF room pl] in \<open>auto simp: copies_below_def\<close>)
  then show ?case
    unfolding copy_each.simps wp_bind path_Join_elem [OF pp pl]
  proof (rule wp_mono)
    fix r :: "goerror + unit" and u :: world
    assume u: "copied_below (p @ [?n]) w u \<and> wf_world u"
    have ru: "room p (map fi_name cs) (w_fs u)"
      by (rule room_below [OF room]) (use u Cons.prems in \<open>auto simp: copied_below_def wf_world_def\<close>)
    have cu: "copied_below p w u" using u ru by (auto simp: copied_below_def room_def intro: only_below_mono)
    have "wp (copy_each cp src (abs_path p) cs) ?Q u"
      by (rule wp_mono [OF Cons.IH])
        (use u ru cu Cons.prems in \<open>auto simp: copied_below_def intro: only_below_trans\<close>)
    then show "wp (onok r (\<lambda>_. copy_each cp src (abs_path p) cs)) ?Q u"
      using cu ru by (cases r) (simp_all add: room_def)
  qed
qed

lemma dcopy_below:
  assumes cp: "copies_below cp" "\<And>s d i. program (cp s d i)"
    and w: "wf_world w" "fresh_target (w_fs w) p"
  shows "wp (dcopy cp src (abs_path p) info) (\<lambda>_ v. copied_below p w v) w"
proof -
  let ?Q = "\<lambda>_ v. copied_below p w v"
  let ?J = "\<lambda>v. copied_below p w v \<and> direct (w_fs v) p \<and> is_dir (w_fs v) p"
  have chmod: "wp (os_Chmod (abs_path p) m) (\<lambda>_. ?Q r) v" if "?J v" for v m r
  proof -
    have "resolve v True (abs_path p) = Inr p" using that by (intro dir_resolves) simp_all
    then show ?thesis
      by (intro wp_os_Chmod) (use that in \<open>auto simp: copied_below_def only_below_def is_dir_def\<close>)
  qed
  have body: "wp (deferred (os_Chmod (abs_path p) (fi_Mode info)) (do {
       contents \<leftarrow> os_ReadDirInfo src;
       onok contents (\<lambda>contents. copy_each cp src (abs_path p) contents) })) ?Q v"
    if v: "wf_world v" "copied_below p w v" "is_dir (w_fs v) p"
      "\<And>c. fs_get (w_fs v) (p @ [c]) = None" for v
  proof -
    have dv: "direct (w_fs v) p"
      using w(2) v(2) by (auto simp: fresh_target_def copied_below_def intro: direct_below)
    have wt: "wf_world (tick v)" using v(1) kstep_wf_world [OF k_tick] by blast
    show ?thesis
      unfolding wp_deferred wp_bind
    proof (rule wp_os_ReadDirInfo)
      fix e
      show "wp (onok (Inl e) (\<lambda>contents. copy_each cp src (abs_path p) contents))
          (\<lambda>r. wp (os_Chmod (abs_path p) (fi_Mode info)) (\<lambda>_. ?Q r)) (tick v)"
        using chmod [of "tick v"] dv v by (simp add: copied_below_def)
    next
      fix cs :: "fileinfo list"
      assume cs: "distinct (map fi_name cs)" "\<forall>c \<in> set cs. plain (fi_name c)"
      have "wp (copy_each cp src (abs_path p) cs)
          (\<lambda>_ u. copied_below p (tick v) u \<and> direct (w_fs u) p \<and> is_dir (w_fs u) p) (tick v)"
        by (rule copy_each_below [OF cp wt])
          (use cs dv v in \<open>auto simp: room_def wf_world_def\<close>)
      then show "wp (onok (Inr cs) (\<lambda>contents. copy_each cp src (abs_path p) contents))
          (\<lambda>r. wp (os_Chmod (abs_path p) (fi_Mode info)) (\<lambda>_. ?Q r)) (tick v)"
        unfolding onok_simps
        by (rule wp_mono, intro chmod) (use v(2) in \<open>auto simp: copied_below_def intro: only_below_trans\<close>)
    qed
  qed
  have none: "fs_get (w_fs w) (p @ [c]) = None" for c
    using w(2) by (auto simp: fresh_target_def has_children_iff)
  have "wp (os_MkdirAll (abs_path p) 493) (\<lambda>r v. ((w_fs v = w_fs w
        \<or> (\<exists>i. fs_get (w_fs w) p = None \<and> i_kind i = KDir \<and> w_fs v = fs_put p i (w_fs w)))
     \<and> (r = Inr () \<longrightarrow> is_dir (w_fs v) p)) \<and> wf_world v) w"
    by (rule wp_wf [OF program_os_MkdirAll w(1) mkdir_target [OF w(2)]])
  then show ?thesis
    unfolding dcopy_def wp_bind [of "os_MkdirAll _ _"]
  proof (rule wp_mono)
    fix r :: "goerror + unit" and v :: world
    assume v: "((w_fs v = w_fs w
        \<or> (\<exists>i. fs_get (w_fs w) p = None \<and> i_kind i = KDir \<and> w_fs v = fs_put p i (w_fs w)))
     \<and> (r = Inr () \<longrightarrow> is_dir (w_fs v) p)) \<and> wf_world v"
    have c: "copied_below p w v" using v by (auto simp: is_dir_def intro: copied_below_put copied_below_refl)
    have n: "fs_get (w_fs v) (p @ [x]) = None" for x using v none by auto
    show "wp (onok r (\<lambda>_. deferred (os_Chmod (abs_path p) (fi_Mode info)) (do {
       contents \<leftarrow> os_ReadDirInfo src;
       onok contents (\<lambda>contents. copy_each cp src (abs_path p) contents) }))) ?Q v"
      using body [of v] v c n by (cases r) (simp_all add: onok_simps)
  qed
qed

theorem copy_go_below: "copies_below (copy_go n)"
proof (induction n)
  case (Suc n)
  show ?case
    unfolding copies_below_def
  proof (intro allI impI)
    fix w p src info
    assume w: "wf_world w" "fresh_target (w_fs w) p"
    have "direct (w_fs w) p" using w(2) by (simp add: fresh_target_def)
    then show "wp (copy_go (Suc n) src (abs_path p) info) (\<lambda>_ v. copied_below p w v) w"
      using lcopy_below dcopy_below [OF Suc.IH program_copy_go w] fcopy_below [OF w(2)] by simp
  qed
qed (simp add: copies_below_def copied_below_refl)

lemma Copy_below:
  assumes "wf_world w" "fresh_target (w_fs w) p"
  shows "wp (Copy src (abs_path p)) (\<lambda>_ v. copied_below p w v) w"
  unfolding Copy_def wp_bind [of "os_Lstat _"]
proof (rule wp_os_Lstat)
  fix q i
  have "wf_world (tick w)" using assms(1) kstep_wf_world [OF k_tick] by blast
  then have "wp (copy_go copy_depth src (abs_path p) info) (\<lambda>_ v. copied_below p (tick w) v) (tick w)" for info
    using copy_go_below [of copy_depth] assms(2) unfolding copies_below_def by simp
  then show "wp (onok (Inr \<lparr>fi_name = path_Base src, fi_inode = i\<rparr>) (\<lambda>info. copy_go copy_depth src (abs_path p) info))
      (\<lambda>_ v. copied_below p w v) (tick w)"
    by (simp add: copied_below_def)
qed (simp add: copied_below_refl)

end
