(* ===== verification/GoMountInfo.thy ===== *)
theory GoMountInfo
  imports GoFiles
begin

text \<open>
  The table of mounts as the vendored \<^verbatim>\<open>docker/pkg/mount\<close> reads it from \<^verbatim>\<open>/proc/self/mountinfo\<close>
  (\<^verbatim>\<open>mountinfo_linux.go\<close>), with the part of \<^verbatim>\<open>fmt.Sscanf\<close> its format needs.
\<close>

section \<open>Package fmt: scanning\<close>

text \<open>
  \<^verbatim>\<open>%d\<close> and \<^verbatim>\<open>%s\<close> skip white space; a number ends before the first byte that is no digit, a text before the first
  white space. A space of the format stands for at least one space of the input, or its end.
\<close>

definition skip_space :: "string \<Rightarrow> string" where
  "skip_space s = dropWhile is_space s"

definition scan_int :: "string \<Rightarrow> (int \<times> string) option" where
  "scan_int s =
     (let t = skip_space s;
          sign = (case t of c # _ \<Rightarrow> if c = CHR ''-'' \<or> c = CHR ''+'' then [c] else [] | [] \<Rightarrow> []);
          rest = drop (length sign) t
      in map_option (\<lambda>n. (n, dropWhile is_digit rest)) (ParseInt (sign @ takeWhile is_digit rest) 10 64))"

definition scan_text :: "string \<Rightarrow> (string \<times> string) option" where
  "scan_text s =
     (let t = skip_space s
      in if t = [] then None else Some (takeWhile (\<lambda>c. \<not> is_space c) t, dropWhile (\<lambda>c. \<not> is_space c) t))"

definition scan_gap :: "string \<Rightarrow> string option" where
  "scan_gap s = (case s of [] \<Rightarrow> Some [] | c # _ \<Rightarrow> if is_space c then Some (skip_space s) else None)"

definition scan_byte :: "char \<Rightarrow> string \<Rightarrow> string option" where
  "scan_byte b s = (case s of [] \<Rightarrow> None | c # t \<Rightarrow> if c = b then Some t else None)"

text \<open>\<^verbatim>\<open>strings.Index\<close>.\<close>

fun Index :: "string \<Rightarrow> string \<Rightarrow> int" where
  "Index [] sub = (if sub = [] then 0 else -1)"
| "Index (c # s) sub = (if prefix sub (c # s) then 0 else let i = Index s sub in if i < 0 then -1 else i + 1)"

section \<open>The table\<close>

record mountinfo =
  ID :: int
  Parent :: int
  Major :: int
  Minor :: int
  Root :: string
  Mountpoint :: string
  Opts :: string
  Optional :: string
  Fstype :: string
  Source :: string
  VfsOpts :: string

text \<open>The format \<^verbatim>\<open>%d %d %d:%d %s %s %s %s\<close>.\<close>

definition scan_info :: "string \<Rightarrow> (int \<times> int \<times> int \<times> int \<times> string \<times> string \<times> string \<times> string) option" where
  "scan_info s = do {
     (i, s) \<leftarrow> scan_int s; s \<leftarrow> scan_gap s;
     (p, s) \<leftarrow> scan_int s; s \<leftarrow> scan_gap s;
     (ma, s) \<leftarrow> scan_int s; s \<leftarrow> scan_byte (CHR '':'') s;
     (mi, s) \<leftarrow> scan_int s; s \<leftarrow> scan_gap s;
     (r, s) \<leftarrow> scan_text s; s \<leftarrow> scan_gap s;
     (m, s) \<leftarrow> scan_text s; s \<leftarrow> scan_gap s;
     (opts, s) \<leftarrow> scan_text s; s \<leftarrow> scan_gap s;
     (x, s) \<leftarrow> scan_text s;
     Some (i, p, ma, mi, r, m, opts, x) }"

text \<open>One line. Without the separator \<open>Index\<close> is -1 and the fields are taken from the third byte on.\<close>

definition parse_info :: "string \<Rightarrow> goerror + mountinfo" where
  "parse_info s =
     (case scan_info s of
        None \<Rightarrow> Inl (ErrWrap (''Scanning '' @ [CHR 0x27] @ s @ [CHR 0x27] @ '' failed'')
                  (ErrMsg ''input does not match format''))
      | Some (i, p, ma, mi, r, m, opts, x) \<Rightarrow>
         (let post = Fields (drop (nat (Index s '' - '' + 3)) s) in
          case post of
            fstype # source # vfs # others \<Rightarrow>
              Inr \<lparr>ID = i, Parent = p, Major = ma, Minor = mi, Root = r, Mountpoint = m, Opts = opts,
                   Optional = (if x \<noteq> ''-'' then x else []), Fstype = fstype, Source = source,
                   VfsOpts = Join (vfs # others) '' ''\<rparr>
          | _ \<Rightarrow> Inl (ErrMsg (''Error found less than 3 fields post '' @ [CHR 0x27] @ ''-'' @ [CHR 0x27] @ '' in '' @ s))))"

primrec parse_infos :: "string list \<Rightarrow> goerror + mountinfo list" where
  "parse_infos [] = Inr []"
| "parse_infos (l # ls) =
     (case parse_info l of
        Inl e \<Rightarrow> Inl e
      | Inr i \<Rightarrow> (case parse_infos ls of Inl e \<Rightarrow> Inl e | Inr infos \<Rightarrow> Inr (i # infos)))"

text \<open>The loop over the lines ends at the first that the scanner cannot deliver; the error is not looked at.\<close>

definition parseInfoFile :: "string \<Rightarrow> goerror + mountinfo list" where
  "parseInfoFile content = parse_infos (fst (ScanLines content))"

definition parseMountTable :: "mountinfo list os" where
  "parseMountTable = do {
     f \<leftarrow> os_Open ''/proc/self/mountinfo'';
     onok f (\<lambda>f. deferred (fd_Close f) (do {
       (content, err) \<leftarrow> fd_ReadAll f;
       State_Monad.return (parseInfoFile content) })) }"

lemma program_parseMountTable [program_intros]: "program parseMountTable"
  unfolding parseMountTable_def by (intro program_intros)

section \<open>Lines as the kernel writes them\<close>

text \<open>A field of a line: not empty, without white space, not the separator.\<close>

definition token :: "string \<Rightarrow> bool" where
  "token s = (s \<noteq> [] \<and> list_all (\<lambda>c. \<not> is_space c) s \<and> s \<noteq> ''-'')"

definition int64 :: "int \<Rightarrow> bool" where
  "int64 n = (- (2 ^ 63) \<le> n \<and> n < 2 ^ 63)"

definition kernel_info :: "mountinfo \<Rightarrow> bool" where
  "kernel_info i = (list_all int64 [ID i, Parent i, Major i, Minor i]
     \<and> list_all token [Root i, Mountpoint i, Opts i, Fstype i, Source i, VfsOpts i]
     \<and> (Optional i = [] \<or> token (Optional i)))"

definition mountinfo_line :: "mountinfo \<Rightarrow> string" where
  "mountinfo_line i = Itoa (ID i) @ '' '' @ Itoa (Parent i) @ '' '' @ (Itoa (Major i) @ '':'' @ Itoa (Minor i)) @ '' ''
     @ Root i @ '' '' @ Mountpoint i @ '' '' @ Opts i @ '' ''
     @ (if Optional i = [] then [] else Optional i @ '' '') @ ''- '' @ Fstype i @ '' '' @ Source i @ '' '' @ VfsOpts i"

lemma is_space_space [simp]: "is_space (CHR '' '')" "\<not> is_space (CHR '':'')" "\<not> is_digit (CHR '' '')" "\<not> is_digit (CHR '':'')"
  "\<not> is_space (CHR ''-'')"
  by (simp_all add: byte_defs)

lemma digit_no_space: "is_digit c \<Longrightarrow> \<not> is_space c"
  by (auto simp: byte_defs)

lemma Itoa_chars: "c \<in> set (Itoa n) \<Longrightarrow> c = CHR ''-'' \<or> is_digit c"
  using Itoa_nat_digits by (auto simp: Itoa_def split: if_splits)

lemma skip_token [simp]: "token s \<Longrightarrow> skip_space (s @ t) = s @ t"
  by (cases s) (simp_all add: token_def skip_space_def)

lemma Itoa_token: "token (Itoa n)"
proof -
  have d: "Itoa_nat m \<noteq> [] \<and> Itoa_nat m \<noteq> ''-''" for m
    using Itoa_nat_digits [of m] Itoa_nat_hd [of m] by (cases "Itoa_nat m") auto
  then have "Itoa n \<noteq> [] \<and> Itoa n \<noteq> ''-''" by (simp add: Itoa_def)
  then show ?thesis using Itoa_chars [of _ n] digit_no_space by (force simp: token_def list_all_iff)
qed

lemma token_pair: "token s \<Longrightarrow> token t \<Longrightarrow> token (s @ '':'' @ t)"
  by (cases s) (auto simp: token_def)

lemma scan_int_Itoa:
  assumes "int64 n" "t = [] \<or> \<not> is_digit (hd t)"
  shows "scan_int (Itoa n @ t) = Some (n, t)"
proof -
  have p: "ParseInt (Itoa n) 10 64 = Some n"
    using Atoi_Itoa [of n] assms(1) by (simp add: Atoi_def int64_def)
  have d: "takeWhile is_digit (Itoa_nat m @ t) = Itoa_nat m" "dropWhile is_digit (Itoa_nat m @ t) = t" for m
    using Itoa_nat_digits [of m] assms(2) by (cases t; simp add: takeWhile_append dropWhile_append)+
  show ?thesis
  proof (cases "n < 0")
    case True
    then show ?thesis using p d by (simp add: scan_int_def skip_space_def Itoa_def [of n])
  next
    case False
    then have "Itoa n = Itoa_nat (nat n)" by (simp add: Itoa_def)
    moreover obtain c cs where "Itoa_nat (nat n) = c # cs" "c \<noteq> CHR ''-''" "c \<noteq> CHR ''+''"
      using Itoa_nat_digits [of "nat n"] Itoa_nat_hd [of "nat n"] by (cases "Itoa_nat (nat n)") auto
    ultimately show ?thesis using p d [of "nat n"] Itoa_token [of n] skip_token [of "Itoa n" t]
      by (simp add: scan_int_def)
  qed
qed

lemma scan_text_token: "token s \<Longrightarrow> t = [] \<or> is_space (hd t) \<Longrightarrow> scan_text (s @ t) = Some (s, t)"
  by (cases t) (auto simp: scan_text_def token_def list_all_iff takeWhile_append dropWhile_append skip_space_def dropWhile_eq_Cons_conv)

lemma scan_gap_token [simp]: "token s \<Longrightarrow> scan_gap (CHR '' '' # s @ t) = Some (s @ t)"
  by (simp add: scan_gap_def skip_space_def) (metis skip_space_def skip_token)

text \<open>The separator is found behind the fields.\<close>

lemma Index_word: "list_all (\<lambda>c. \<not> is_space c) s \<Longrightarrow> Index t '' - '' \<ge> 0 \<Longrightarrow>
    Index (s @ t) '' - '' = int (length s) + Index t '' - ''"
  by (induction s) (auto simp: Let_def)

lemma Index_token:
  assumes "token s" "Index (CHR '' '' # t) '' - '' \<ge> 0"
  shows "Index (CHR '' '' # s @ CHR '' '' # t) '' - '' = 1 + int (length s) + Index (CHR '' '' # t) '' - ''"
proof -
  have "\<not> prefix ''- '' (s @ CHR '' '' # t)"
    using assms(1) by (cases s; cases "tl s") (auto simp: token_def)
  then show ?thesis using Index_word [of s "CHR '' '' # t"] assms by (simp add: token_def Let_def)
qed

lemma Index_tokens:
  "list_all token ts \<Longrightarrow> Index (CHR '' '' # concat (map (\<lambda>s. s @ '' '') ts) @ ''- '' @ r) '' - ''
     = int (length (concat (map (\<lambda>s. s @ '' '') ts)))"
proof (induction ts)
  case (Cons s ts)
  then have "Index (CHR '' '' # concat (map (\<lambda>s. s @ '' '') ts) @ ''- '' @ r) '' - '' \<ge> 0" by simp
  from Index_token [OF _ this, of s] Cons show ?case by simp
qed simp

lemma drop_separator:
  assumes "token s" "list_all token ts"
  shows "drop (nat (Index (s @ CHR '' '' # concat (map (\<lambda>s. s @ '' '') ts) @ ''- '' @ r) '' - '' + 3))
      (s @ CHR '' '' # concat (map (\<lambda>s. s @ '' '') ts) @ ''- '' @ r) = r"
proof -
  let ?c = "concat (map (\<lambda>s. s @ '' '') ts)"
  have "Index (s @ CHR '' '' # ?c @ ''- '' @ r) '' - '' = int (length s + length ?c)"
    using Index_tokens [OF assms(2)] Index_word [of s "CHR '' '' # ?c @ ''- '' @ r"] assms(1) by (simp add: token_def)
  then have k: "nat (Index (s @ CHR '' '' # ?c @ ''- '' @ r) '' - '' + 3) = length s + (length ?c + 3)" by simp
  show ?thesis unfolding k by (simp add: numeral_3_eq_3)
qed

lemma scan_byte_first [simp]: "scan_byte c (c # t) = Some t"
  by (simp add: scan_byte_def)

lemma Fields_token: "token s \<Longrightarrow> Fields (s @ CHR '' '' # t) = s # Fields t"
  by (cases s) (auto simp: token_def list_all_iff takeWhile_append dropWhile_append)

lemma Fields_last_token: "token s \<Longrightarrow> Fields s = [s]"
  by (cases s) (auto simp: token_def list_all_iff takeWhile_eq_all_conv [THEN iffD2] dropWhile_eq_Nil_conv [THEN iffD2])

lemma Fields_space: "Fields (CHR '' '' # t) = Fields t"
  by simp

text \<open>What the kernel writes for a mount is read as that mount.\<close>

lemma parse_info_line:
  assumes "kernel_info i"
  shows "parse_info (mountinfo_line i) = Inr i"
proof -
  have n: "int64 (ID i)" "int64 (Parent i)" "int64 (Major i)" "int64 (Minor i)"
    and t: "token (Root i)" "token (Mountpoint i)" "token (Opts i)" "token (Fstype i)" "token (Source i)" "token (VfsOpts i)"
    and opt: "Optional i = [] \<or> token (Optional i)"
    using assms by (auto simp: kernel_info_def)
  let ?last = "''- '' @ Fstype i @ '' '' @ Source i @ '' '' @ VfsOpts i"
  let ?rest = "if Optional i = [] then ?last else Optional i @ CHR '' '' # ?last"
  let ?dev = "Itoa (Major i) @ CHR '':'' # Itoa (Minor i)"
  have dev: "token ?dev" using token_pair [OF Itoa_token Itoa_token] by simp
  have line: "mountinfo_line i = Itoa (ID i) @ CHR '' '' # Itoa (Parent i) @ CHR '' '' # Itoa (Major i) @ CHR '':'' # Itoa (Minor i)
      @ CHR '' '' # Root i @ CHR '' '' # Mountpoint i @ CHR '' '' # Opts i @ CHR '' '' # ?rest"
    by (simp add: mountinfo_line_def)
  have tl: "\<exists>x y. ?rest = x @ CHR '' '' # y \<and> scan_text ?rest = Some (x, CHR '' '' # y) \<and> x = (if Optional i = [] then ''-'' else Optional i)
      \<and> scan_gap (CHR '' '' # ?rest) = Some ?rest"
  proof (cases "Optional i = []")
    case True
    then show ?thesis by (simp add: scan_text_def scan_gap_def skip_space_def)
  next
    case False
    then show ?thesis using opt scan_text_token [of "Optional i"] by simp
  qed
  then obtain y where y: "scan_text ?rest = Some (if Optional i = [] then ''-'' else Optional i, CHR '' '' # y)"
      "scan_gap (CHR '' '' # ?rest) = Some ?rest" by blast
  have info: "scan_info (mountinfo_line i) = Some (ID i, Parent i, Major i, Minor i, Root i, Mountpoint i, Opts i,
      if Optional i = [] then ''-'' else Optional i)"
    unfolding line scan_info_def
    by (simp add: scan_int_Itoa n t Itoa_token scan_text_token y del: if_split)
  let ?ts = "[Itoa (Parent i), ?dev, Root i, Mountpoint i, Opts i] @ (if Optional i = [] then [] else [Optional i])"
  let ?r = "Fstype i @ CHR '' '' # Source i @ CHR '' '' # VfsOpts i"
  have ts: "list_all token ?ts" using t opt dev Itoa_token by auto
  have "mountinfo_line i = Itoa (ID i) @ CHR '' '' # concat (map (\<lambda>s. s @ '' '') ?ts) @ ''- '' @ ?r"
    by (simp add: mountinfo_line_def)
  then have "drop (nat (Index (mountinfo_line i) '' - '' + 3)) (mountinfo_line i) = ?r"
    using drop_separator [OF Itoa_token ts] by metis
  moreover have "Fields ?r = [Fstype i, Source i, VfsOpts i]"
    by (simp add: Fields_token Fields_last_token t)
  ultimately show ?thesis using opt by (auto simp: parse_info_def info token_def)
qed

lemma parse_infos_lines: "list_all kernel_info infos \<Longrightarrow> parse_infos (map mountinfo_line infos) = Inr infos"
  by (induction infos) (simp_all add: parse_info_line)

abbreviation table_path :: path where "table_path \<equiv> [''proc'', ''self'', ''mountinfo'']"

lemma parseMountTable_calm:
  assumes "fault_free w" "file_is table_path content w"
  shows "fst (run_state parseMountTable w) = parseInfoFile content"
proof -
  have "abs_path table_path = ''/proc/self/mountinfo''" by (simp add: abs_path_def)
  then have "run_state (os_Open ''/proc/self/mountinfo'') w = (Inr table_path, tick w)"
    using os_Open_calm [OF assms] by simp
  moreover have "run_state (fd_ReadAll table_path) (tick w) = ((content, None), tick (tick w))"
    using assms by (intro fd_ReadAll_calm) (simp_all add: fault_free_def)
  ultimately show ?thesis using assms(1)
    by (simp add: parseMountTable_def deferred_def fd_Close_def fs_call_def fs_call_part_def fault_free_def split: option.split)
qed

end
