(* ===== verification/GoMount.thy ===== *)
theory GoMount
  imports GoMountInfo
begin

text \<open>
  The vendored \<^verbatim>\<open>docker/pkg/mount\<close>: options to flags, and the calls that mount. What mounting does to
  the files, the table of mounts below \<^verbatim>\<open>/proc\<close> included, is the world's \<open>w_mountfx\<close>.
\<close>

section \<open>Options\<close>

definition MS_RDONLY :: "64 word" where "MS_RDONLY = 1"
definition MS_NOSUID :: "64 word" where "MS_NOSUID = 2"
definition MS_NODEV :: "64 word" where "MS_NODEV = 4"
definition MS_NOEXEC :: "64 word" where "MS_NOEXEC = 8"
definition MS_REMOUNT :: "64 word" where "MS_REMOUNT = 32"
definition MS_BIND :: "64 word" where "MS_BIND = 4096"
definition MS_REC :: "64 word" where "MS_REC = 16384"
definition MS_UNBINDABLE :: "64 word" where "MS_UNBINDABLE = 131072"
definition MS_PRIVATE :: "64 word" where "MS_PRIVATE = 262144"
definition MS_SLAVE :: "64 word" where "MS_SLAVE = 524288"
definition MS_SHARED :: "64 word" where "MS_SHARED = 1048576"
definition MS_RELATIME :: "64 word" where "MS_RELATIME = 2097152"

lemmas MS_defs = MS_RDONLY_def MS_NOSUID_def MS_NODEV_def MS_NOEXEC_def MS_REMOUNT_def MS_BIND_def
  MS_REC_def MS_UNBINDABLE_def MS_PRIVATE_def MS_SLAVE_def MS_SHARED_def MS_RELATIME_def

text \<open>The table of options: does the option clear its flag, and which flag is it.\<close>

definition mount_flags :: "(string \<times> (bool \<times> 64 word)) list" where
  "mount_flags =
    [(''defaults'', (False, 0)), (''ro'', (False, MS_RDONLY)), (''rw'', (True, MS_RDONLY)),
     (''suid'', (True, MS_NOSUID)), (''nosuid'', (False, MS_NOSUID)),
     (''dev'', (True, MS_NODEV)), (''nodev'', (False, MS_NODEV)),
     (''exec'', (True, MS_NOEXEC)), (''noexec'', (False, MS_NOEXEC)),
     (''sync'', (False, 16)), (''async'', (True, 16)), (''dirsync'', (False, 128)),
     (''remount'', (False, MS_REMOUNT)), (''mand'', (False, 64)), (''nomand'', (True, 64)),
     (''atime'', (True, 1024)), (''noatime'', (False, 1024)),
     (''diratime'', (True, 2048)), (''nodiratime'', (False, 2048)),
     (''bind'', (False, MS_BIND)), (''rbind'', (False, MS_BIND OR MS_REC)),
     (''unbindable'', (False, MS_UNBINDABLE)), (''runbindable'', (False, MS_UNBINDABLE OR MS_REC)),
     (''private'', (False, MS_PRIVATE)), (''rprivate'', (False, MS_PRIVATE OR MS_REC)),
     (''shared'', (False, MS_SHARED)), (''rshared'', (False, MS_SHARED OR MS_REC)),
     (''slave'', (False, MS_SLAVE)), (''rslave'', (False, MS_SLAVE OR MS_REC)),
     (''relatime'', (False, MS_RELATIME)), (''norelatime'', (True, MS_RELATIME)),
     (''strictatime'', (False, 16777216)), (''nostrictatime'', (True, 16777216))]"

text \<open>An option that is not in the table, or that has no flag, is data for the file system.\<close>

definition parse_option :: "string \<Rightarrow> 64 word \<times> string list \<Rightarrow> 64 word \<times> string list" where
  "parse_option opt fd =
     (case map_of mount_flags opt of
        Some (clear, flag) \<Rightarrow>
          if flag \<noteq> 0 then (if clear then (fst fd AND NOT flag, snd fd) else (fst fd OR flag, snd fd))
          else (fst fd, snd fd @ [opt])
      | None \<Rightarrow> (fst fd, snd fd @ [opt]))"

definition parseOptions :: "string \<Rightarrow> 64 word \<times> string" where
  "parseOptions options =
     (case fold parse_option (Split options (CHR '','')) (0, []) of (flag, data) \<Rightarrow> (flag, Join data '',''))"

section \<open>Mounting\<close>

definition Mounted :: "string \<Rightarrow> bool os" where
  "Mounted mountpoint = do {
     entries \<leftarrow> parseMountTable;
     onok entries (\<lambda>es. State_Monad.return (Inr (list_ex (\<lambda>e. Mountpoint e = mountpoint) es))) }"

definition mount_call :: "string \<Rightarrow> string \<Rightarrow> string \<Rightarrow> 64 word \<Rightarrow> string \<Rightarrow> unit os" where
  "mount_call device target mType flag data = do {
     let req = \<lparr>m_source = device, m_target = target, m_fstype = mType, m_flags = flag, m_data = data\<rparr>;
     r \<leftarrow> sys_mount req;
     onok r (\<lambda>_.
       if flag AND MS_BIND = MS_BIND \<and> flag AND MS_RDONLY = MS_RDONLY
       then sys_mount (req\<lparr>m_flags := flag OR MS_REMOUNT\<rparr>)
       else State_Monad.return (Inr ())) }"

definition ForceMount :: "string \<Rightarrow> string \<Rightarrow> string \<Rightarrow> string \<Rightarrow> unit os" where
  "ForceMount device target mType options =
     (case parseOptions options of (flag, data) \<Rightarrow> mount_call device target mType flag data)"

definition Mount :: "string \<Rightarrow> string \<Rightarrow> string \<Rightarrow> string \<Rightarrow> unit os" where
  "Mount device target mType options =
     (if fst (parseOptions options) AND MS_REMOUNT \<noteq> MS_REMOUNT
      then do {
        m \<leftarrow> Mounted target;
        (case m of
           Inl e \<Rightarrow> State_Monad.return (Inl e)
         | Inr True \<Rightarrow> State_Monad.return (Inr ())
         | Inr False \<Rightarrow> ForceMount device target mType options) }
      else ForceMount device target mType options)"

lemma program_Mounted [program_intros]: "program (Mounted t)"
  unfolding Mounted_def by (intro program_intros)

lemma program_mount_call [program_intros]: "program (mount_call d t m f x)"
  unfolding mount_call_def Let_def by (intro program_intros)

lemma program_ForceMount [program_intros]: "program (ForceMount d t m opts)"
  unfolding ForceMount_def by (intro program_intros)

lemma program_bool [program_intros]: "program m \<Longrightarrow> program n \<Longrightarrow> program (case b of True \<Rightarrow> m | False \<Rightarrow> n)"
  by (cases b) simp_all

lemma program_Mount [program_intros]: "program (Mount d t m opts)"
  unfolding Mount_def by (intro program_intros)

lemma Mounted_calm:
  assumes "fault_free w" "file_is table_path content w"
    and "fst (ScanLines content) = map mountinfo_line infos" "list_all kernel_info infos"
  shows "fst (run_state (Mounted m) w) = Inr (m \<in> Mountpoint ` set infos)"
proof -
  have "fst (run_state parseMountTable w) = Inr infos"
    using parseMountTable_calm [OF assms(1,2)] assms(3,4) by (simp add: parseInfoFile_def parse_infos_lines)
  then show ?thesis
    by (cases "run_state parseMountTable w") (auto simp: Mounted_def list_ex_iff)
qed

text \<open>The mount points of the table are absolute, and the names are compared as they are: a relative one is never mounted.\<close>

lemma relative_never_mounted:
  assumes "fault_free w" "file_is table_path content w"
    and "fst (ScanLines content) = map mountinfo_line infos" "list_all kernel_info infos"
    and "\<forall>i \<in> set infos. is_rooted (Mountpoint i)" "\<not> is_rooted m"
  shows "fst (run_state (Mounted m) w) = Inr False"
  using Mounted_calm [OF assms(1-4), of m] assms(5,6) by auto

section \<open>Device numbers\<close>

text \<open>\<^verbatim>\<open>unix.Mkdev\<close>: twelve low and twenty high bits of the major number, eight low and 24 high bits of the minor.\<close>

definition Mkdev :: "32 word \<Rightarrow> 32 word \<Rightarrow> 64 word" where
  "Mkdev major minor =
     push_bit 8 (ucast major AND 4095) OR push_bit 32 (ucast major AND 4294963200)
     OR (ucast minor AND 255) OR push_bit 12 (ucast minor AND 4294967040)"

lemma mask_words:
  "(4095 :: 64 word) = mask 12" "(4294963200 :: 64 word) = push_bit 12 (mask 20)" "(255 :: 64 word) = mask 8"
  "(4294967040 :: 64 word) = push_bit 8 (mask 24)" "(1048320 :: 64 word) = push_bit 8 (mask 12)"
  by (simp_all add: mask_eq_exp_minus_1 push_bit_eq_mult)

lemma small_word_bits:
  assumes "uint (w :: 'a::len word) < 2 ^ k" "k \<le> n"
  shows "\<not> bit w n"
proof
  assume b: "bit w n"
  then have n: "n < LENGTH('a)" by (rule bit_imp_le_length)
  have "take_bit k (uint w) = uint w" using assms(1) by (simp add: take_bit_int_eq_self_iff)
  then have "\<not> bit (uint w) n" using assms(2) by (metis bit_take_bit_iff leD)
  then show False using b n by (simp add: bit_uint_iff)
qed

section \<open>Rules\<close>

text \<open>A mount that leaves the files alone, as a remount does.\<close>

lemma wp_sys_mount:
  assumes "\<And>e. Q (Inl e) (w\<lparr>w_trace := w_trace w @ [EvMount m]\<rparr>)"
    and "\<And>f. w_mountfx w m (w_fs w) = (None, f) \<Longrightarrow>
      Q (Inr ()) (w\<lparr>w_fs := f, w_trace := w_trace w @ [EvMount m]\<rparr>)"
  shows "wp (sys_mount m) Q w"
  using assms by (auto simp: sys_mount_def wp_def split: prod.splits option.splits)

lemma parseOptions_remount: "parseOptions ''remount,rw'' = (MS_REMOUNT, [])"
  by (simp add: parseOptions_def parse_option_def mount_flags_def MS_defs)

lemma parseOptions_rw_remount: "parseOptions ''rw,remount'' = (MS_REMOUNT, [])"
  by (simp add: parseOptions_def parse_option_def mount_flags_def MS_defs)

lemma onok_unit: "onok r (\<lambda>_. State_Monad.return (Inr ())) = State_Monad.return r"
  by (cases r) simp_all

lemma Mount_remount:
  "Mount d t ty ''remount,rw'' =
     sys_mount \<lparr>m_source = d, m_target = t, m_fstype = ty, m_flags = MS_REMOUNT, m_data = []\<rparr>"
  by (simp add: Mount_def ForceMount_def parseOptions_remount mount_call_def MS_defs onok_unit)

end
