(* ===== verification/Component.thy ===== *)
theory Component
  imports GoCopy GoMount System GoQuote
begin

text \<open>
  \<^verbatim>\<open>pkg/system/component.go\<close>: a component of the system is a directory with one directory per version
  and the links \<^verbatim>\<open>current\<close> and \<^verbatim>\<open>previous\<close>; an upgrade copies a version and switches the links. Messages
  below the level of a warning are left out.
\<close>

section \<open>The code\<close>

definition VersionCurrent :: string where "VersionCurrent = ''current''"
definition VersionPrevious :: string where "VersionPrevious = ''previous''"

text \<open>The two values of \<open>StatComponentVersion\<close>: the information and the error, either of them nil.\<close>

type_synonym stat_version = "fileinfo option \<times> goerror option"

definition not_a_directory :: "string \<Rightarrow> goerror" where
  "not_a_directory p = ErrMsg (''stat '' @ p @ '': not a directory'')"

definition stat_version_dir :: "string \<Rightarrow> (world, stat_version) state" where
  "stat_version_dir versionPath = do {
     versionInfo \<leftarrow> os_Stat versionPath;
     State_Monad.return (case versionInfo of
       Inl e \<Rightarrow> (None, Some e)
     | Inr vi \<Rightarrow> (Some vi, if IsDir vi then None else Some (not_a_directory versionPath))) }"

definition StatComponentVersion :: "string \<Rightarrow> string \<Rightarrow> string \<Rightarrow> (world, stat_version) state" where
  "StatComponentVersion root key alias = do {
     let aliasPath = path_Join [root, key, alias];
     aliasInfo \<leftarrow> os_Stat aliasPath;
     (case aliasInfo of
        Inl e \<Rightarrow> State_Monad.return (None, Some e)
      | Inr ai \<Rightarrow>
         if \<not> IsDir ai then State_Monad.return (None, Some (not_a_directory aliasPath))
         else do {
           version \<leftarrow> os_Readlink aliasPath;
           (case version of
              Inl e \<Rightarrow> State_Monad.return (None, Some e)
            | Inr v \<Rightarrow> stat_version_dir (path_Join [root, key, v])) }) }"

text \<open>\<^verbatim>\<open>logrus.Error\<close> and \<^verbatim>\<open>logrus.Warn\<close> of an error that is not nil.\<close>

definition log_err :: "goerror + unit \<Rightarrow> (world, unit) state" where
  "log_err r = (case r of Inl e \<Rightarrow> emit (EvLog e) | Inr _ \<Rightarrow> State_Monad.return ())"

text \<open>The end of the work: the copy takes the place of the version, then the links are moved.\<close>

definition switch_version :: "fileinfo \<Rightarrow> string \<Rightarrow> string \<Rightarrow> string \<Rightarrow> string \<Rightarrow> string \<Rightarrow> bool os" where
  "switch_version srcInfo dstTemp dstPath dstPrevPath dstCurrPath dstCurrTemp = do {
     r \<leftarrow> os_Rename dstTemp dstPath;
     onok r (\<lambda>_. do {
       c \<leftarrow> os_Chmod dstPath (fi_Mode srcInfo);
       _ \<leftarrow> log_err c;
       p \<leftarrow> os_Remove dstPrevPath;
       _ \<leftarrow> log_err p;
       cp \<leftarrow> Copy dstCurrPath dstPrevPath;
       _ \<leftarrow> log_err cp;
       m \<leftarrow> os_Rename dstCurrTemp dstCurrPath;
       onok m (\<lambda>_. State_Monad.return (Inr True)) }) }"

text \<open>A version that is there already is moved out of the way, and back if it is not replaced.\<close>

definition replace_version :: "fileinfo \<Rightarrow> string \<Rightarrow> string \<Rightarrow> string \<Rightarrow> string \<Rightarrow> string \<Rightarrow> bool os" where
  "replace_version srcInfo dstTemp dstPath dstPrevPath dstCurrPath dstCurrTemp = do {
     let go = switch_version srcInfo dstTemp dstPath dstPrevPath dstCurrPath dstCurrTemp;
     dstInfo \<leftarrow> os_Stat dstPath;
     (case dstInfo of
        Inl _ \<Rightarrow> go
      | Inr di \<Rightarrow>
         if IsDir di then do {
           let dstExist = dstPath @ ''.old'';
           r \<leftarrow> os_Rename dstPath dstExist;
           onok r (\<lambda>_. deferred (os_Rename dstExist dstPath) go) }
         else do { _ \<leftarrow> os_Remove dstPath; go }) }"

definition install_version :: "string \<Rightarrow> string \<Rightarrow> string \<Rightarrow> fileinfo \<Rightarrow> bool os" where
  "install_version src dst key srcInfo = do {
     let srcPath = path_Join [src, key, fi_name srcInfo];
     let dstPath = path_Join [dst, key, fi_name srcInfo];
     let dstPrevPath = path_Join [dst, key, VersionPrevious];
     let dstCurrPath = path_Join [dst, key, VersionCurrent];
     let dstCurrTemp = dstCurrPath @ ''.tmp'';
     sl \<leftarrow> os_Symlink (path_Base dstPath) dstCurrTemp;
     onok sl (\<lambda>_. deferred (os_Remove dstCurrTemp) (do {
       td \<leftarrow> TempDir (fst (path_Split dstPath)) (snd (path_Split dstPath));
       onok td (\<lambda>(dstTemp, _). deferred (os_RemoveAll dstTemp) (do {
         cp \<leftarrow> Copy srcPath dstTemp;
         onok cp (\<lambda>_. replace_version srcInfo dstTemp dstPath dstPrevPath dstCurrPath dstCurrTemp) })) })) }"

definition remount_rw :: "bool \<Rightarrow> string \<Rightarrow> unit os" where
  "remount_rw remount dst =
     (if remount then Mount [] dst ''none'' ''remount,rw'' else State_Monad.return (Inr ()))"

definition copy_if_new :: "string \<Rightarrow> string \<Rightarrow> bool \<Rightarrow> string \<Rightarrow> fileinfo \<Rightarrow> bool os" where
  "copy_if_new src dst remount key srcInfo = do {
     d \<leftarrow> StatComponentVersion dst key VersionCurrent;
     if map_option fi_name (fst d) = Some (fi_name srcInfo) then do {
       _ \<leftarrow> emit (EvLog (ErrMsg (''skipping '' @ Quote key @ '' because destination version matches source: ''
                                @ fi_name srcInfo)));
       State_Monad.return (Inr False) }
     else do {
       m \<leftarrow> remount_rw remount dst;
       onok m (\<lambda>_. install_version src dst key srcInfo) } }"

definition CopyComponent :: "string \<Rightarrow> string \<Rightarrow> bool \<Rightarrow> string \<Rightarrow> bool os" where
  "CopyComponent src dst remount key = do {
     s \<leftarrow> StatComponentVersion src key VersionCurrent;
     (case s of
        (_, Some e) \<Rightarrow> State_Monad.return (Inl e)
      | (None, None) \<Rightarrow> State_Monad.return (Inl (GoPanic ''nil pointer dereference''))
      | (Some srcInfo, None) \<Rightarrow> copy_if_new src dst remount key srcInfo) }"

lemma program_StatComponentVersion [program_intros]: "program (StatComponentVersion root key alias)"
  unfolding StatComponentVersion_def stat_version_dir_def Let_def by (intro program_intros)

lemma program_log_err [program_intros]: "program (log_err r)"
  unfolding log_err_def by (intro program_intros)

lemma program_switch_version [program_intros]: "program (switch_version i a b c d e)"
  unfolding switch_version_def by (intro program_intros)

lemma program_replace_version [program_intros]: "program (replace_version i a b c d e)"
  unfolding replace_version_def Let_def by (intro program_intros)

lemma program_install_version [program_intros]: "program (install_version src dst key i)"
  unfolding install_version_def Let_def by (intro program_intros)

lemma program_CopyComponent [program_intros]: "program (CopyComponent src dst remount key)"
  unfolding CopyComponent_def copy_if_new_def remount_rw_def by (intro program_intros)

section \<open>Names\<close>

lemma path_Join_elems:
  assumes "\<forall>c \<in> set d. plain c" "\<forall>e \<in> set es. plain e"
  shows "path_Join (abs_path d # es) = abs_path (d @ es)"
proof -
  have e: "concat (map (\<lambda>e. Split e slash) es) = es"
    using assms(2) by (induction es) (auto simp: plain_def Split_no_sep)
  have "Split (Join (abs_path d # es) [slash]) slash = Split (abs_path d) slash @ es"
    using e by (subst Split_append_Join) simp_all
  then have f: "filter (\<lambda>e. e \<noteq> []) (Split (Join (abs_path d # es) [slash]) slash) = d @ es"
    using elems_abs_path [OF assms(1)] assms(2) by (auto simp: plain_def intro: filter_True)
  have "path_Join (abs_path d # es) = path_Clean (Join (abs_path d # es) [slash])"
    by (simp add: path_Join_def abs_path_def)
  also have "\<dots> = abs_path (d @ es)"
    by (rule path_Clean_elems [OF _ f]) (use assms in \<open>auto simp: is_rooted_def abs_path_def\<close>, cases es, auto)
  finally show ?thesis .
qed

lemma abs_path_suffix: "abs_path (d @ [c]) @ s = abs_path (d @ [c @ s])"
proof -
  have "Join (d @ [c]) [slash] @ s = Join (d @ [c @ s]) [slash]"
    by (induction d) (auto simp: Join_Cons)
  then show ?thesis by (simp add: abs_path_def)
qed

lemma path_Base_abs:
  assumes "p \<noteq> []" "\<forall>c \<in> set p. plain c"
  shows "path_Base (abs_path p) = last p"
proof -
  have l: "last p \<noteq> []" "slash \<notin> set (last p)" using assms by (auto simp: plain_def)
  have a: "abs_path p = (slash # concat (map (\<lambda>c. c @ [slash]) (butlast p))) @ last p"
    using path_Split_append [of "abs_path p"] path_Split_abs [OF assms] by simp
  have "last (abs_path p) = last (last p)" using l(1) unfolding a by (simp only: last_append if_False)
  then have "last (abs_path p) \<noteq> slash" using l last_in_set by metis
  then have "TrimRight (\<lambda>c. c = slash) (abs_path p) = abs_path p" by (intro TrimRight_id) simp
  then show ?thesis using path_Split_abs [OF assms] by (simp add: path_Base_def abs_path_def)
qed

text \<open>A temporary name has digits in it and is neither its pattern nor the pattern with \<open>.old\<close>.\<close>

lemma pattern_split_cases:
  assumes "pattern_split pat = (a, b)"
  shows "(a = pat \<and> b = []) \<or> pat = a @ ''*'' @ b"
proof (cases "CHR ''*'' \<in> set pat")
  case True
  then obtain x y where pat: "pat = x @ CHR ''*'' # y" "CHR ''*'' \<notin> set y"
    using split_list_last by fastforce
  have t: "takeWhile (\<lambda>c. c \<noteq> CHR ''*'') (rev y @ CHR ''*'' # rev x) = rev y"
    using pat(2) by (subst takeWhile_append2) auto
  have d: "dropWhile (\<lambda>c. c \<noteq> CHR ''*'') (rev y @ CHR ''*'' # rev x) = CHR ''*'' # rev x"
    using pat(2) by (subst dropWhile_append2) auto
  have "a = x \<and> b = y"
    using assms True t d by (simp add: pattern_split_def pat TrimRight_def)
  then show ?thesis using pat(1) by simp
qed (use assms in \<open>simp add: pattern_split_def\<close>)

lemma temp_name_new:
  assumes "pattern_split pat = (a, b)" "rnd \<noteq> []" "\<forall>c \<in> set rnd. is_digit c" "\<not> is_digit (hd (s @ ''x''))"
  shows "a @ rnd @ b \<noteq> pat @ s"
proof
  assume e: "a @ rnd @ b = pat @ s"
  obtain d r where rnd: "rnd = d # r" "is_digit d" using assms(2,3) by (cases rnd) auto
  from pattern_split_cases [OF assms(1)] show False
  proof
    assume "a = pat \<and> b = []"
    then have "rnd = s" using e by simp
    then show False using assms(4) rnd by auto
  next
    assume "pat = a @ ''*'' @ b"
    then have "d = CHR ''*''" using e rnd by simp
    then show False using rnd(2) by (simp add: is_digit_def)
  qed
qed

section \<open>What the operations on one name of a directory change\<close>

text \<open>
  \<open>B\<close> is the directory of the component. \<open>spares P B\<close>: outside of \<open>B\<close>, and at and below the
  protected names \<open>P\<close> of \<open>B\<close>, everything is as before.
\<close>

definition spares :: "string set \<Rightarrow> path \<Rightarrow> fs \<Rightarrow> fs \<Rightarrow> bool" where
  "spares P B f g = (\<forall>q. \<not> strict_prefix B q \<or> (\<exists>n \<in> P. prefix (B @ [n]) q) \<longrightarrow> fs_get g q = fs_get f q)"

lemma spares_refl [simp]: "spares P B f f"
  by (simp add: spares_def)

lemma spares_trans: "spares P B f g \<Longrightarrow> spares P B g h \<Longrightarrow> spares P B f h"
  by (simp add: spares_def)

lemma spares_mono: "spares P B f g \<Longrightarrow> P' \<subseteq> P \<Longrightarrow> spares P' B f g"
  unfolding spares_def by blast

lemma spares_get: "spares P B f g \<Longrightarrow> n \<in> P \<Longrightarrow> fs_get g (B @ [n]) = fs_get f (B @ [n])"
  by (auto simp: spares_def)

lemma spares_is_dir: "spares P B f g \<Longrightarrow> n \<in> P \<Longrightarrow> is_dir g (B @ [n]) = is_dir f (B @ [n])"
  using spares_get [of P B f g n] by (simp add: is_dir_def)

lemma prefix_snoc_neq: "n \<noteq> m \<Longrightarrow> prefix (B @ [n]) q \<Longrightarrow> \<not> prefix (B @ [m]) q"
  by (auto simp: prefix_def)

lemma spares_below: "only_below (B @ [n]) f g \<Longrightarrow> n \<notin> P \<Longrightarrow> spares P B f g"
  unfolding spares_def
proof (intro allI impI)
  fix q
  assume o: "only_below (B @ [n]) f g" and n: "n \<notin> P"
    and q: "\<not> strict_prefix B q \<or> (\<exists>m \<in> P. prefix (B @ [m]) q)"
  have "\<not> prefix (B @ [n]) q"
    using q n prefix_snoc_neq by (metis append_prefixD not_Cons_self2 append_self_conv prefix_length_le
        length_append_singleton not_less_eq_eq order_refl strict_prefix_def)
  then show "fs_get g q = fs_get f q" using o by (simp add: only_below_get)
qed

lemma spares_put: "n \<notin> P \<Longrightarrow> spares P B f (fs_put (B @ [n]) i f)"
  by (rule spares_below [of _ n]) (simp_all add: only_below_put)

definition component_dir :: "fs \<Rightarrow> path \<Rightarrow> bool" where
  "component_dir f B = (direct f B \<and> is_dir f B)"

lemma component_dir_spares:
  assumes "component_dir f B" "spares P B f g"
  shows "component_dir g B"
proof -
  have dir: "is_dir g q = is_dir f q" if "\<not> strict_prefix B q" for q
    using assms(2) that by (simp add: spares_def is_dir_def)
  have "is_dir g (take k B)" if "k < length B" for k
  proof -
    have "\<not> strict_prefix B (take k B)" using that by (auto simp: strict_prefix_def dest!: prefix_length_le)
    then show ?thesis using assms(1) that dir by (simp add: component_dir_def direct_def)
  qed
  moreover have "is_dir g B" using dir [of B] assms(1) by (simp add: component_dir_def)
  ultimately show ?thesis using assms(1) by (simp add: component_dir_def direct_def)
qed

lemma component_direct: "component_dir f B \<Longrightarrow> plain n \<Longrightarrow> direct f (B @ [n])"
  by (auto simp: component_dir_def direct_def less_Suc_eq)

lemma component_resolve:
  "component_dir (w_fs w) B \<Longrightarrow> plain n \<Longrightarrow> resolve w False (abs_path (B @ [n])) = Inr (B @ [n])"
  by (rule resolve_abs) (simp_all add: component_direct)

lemma component_resolve_dir:
  "component_dir (w_fs w) B \<Longrightarrow> plain n \<Longrightarrow> is_dir (w_fs w) (B @ [n]) \<Longrightarrow>
   resolve w follow (abs_path (B @ [n])) = Inr (B @ [n])"
  by (rule dir_resolves) (simp_all add: component_direct)

lemma rename_siblings:
  assumes "rename_inodes (B @ [a]) (B @ [b]) f = Inr g" "wf_fs f" "a \<notin> P" "b \<notin> P"
  shows "spares P B f g" "fs_get g (B @ [b]) = fs_get f (B @ [a])"
    "is_dir f (B @ [b]) \<Longrightarrow> is_dir g (B @ [b])"
proof -
  have n: "\<not> prefix (B @ [x]) q" if "\<not> strict_prefix B q \<or> (\<exists>m \<in> P. prefix (B @ [m]) q)" "x \<notin> P" for q x
    using that prefix_snoc_neq by (metis append_prefixD not_Cons_self2 append_self_conv prefix_length_le
        length_append_singleton not_less_eq_eq order_refl strict_prefix_def)
  have "spares P B f g \<and> fs_get g (B @ [b]) = fs_get f (B @ [a]) \<and> (is_dir f (B @ [b]) \<longrightarrow> is_dir g (B @ [b]))"
    using assms(1,2)
  proof (cases rule: rename_inodes_cases)
    case (2 i)
    have get: "fs_get g q = (if prefix (B @ [b]) q then fs_get f ((B @ [a]) @ drop (length (B @ [b])) q)
      else if prefix (B @ [a]) q then None else fs_get f q)" for q
      unfolding 2(6) by (rule fs_get_move) (use 2 assms in auto)
    have "spares P B f g" using n [OF _ assms(3)] n [OF _ assms(4)] by (auto simp: spares_def get)
    moreover have b: "fs_get g (B @ [b]) = fs_get f (B @ [a])" by (simp add: get)
    moreover have "is_dir g (B @ [b])" if "is_dir f (B @ [b])"
      using 2(1,8) that b by (simp add: is_dir_def)
    ultimately show ?thesis by blast
  qed simp
  then show "spares P B f g" "fs_get g (B @ [b]) = fs_get f (B @ [a])"
    "is_dir f (B @ [b]) \<Longrightarrow> is_dir g (B @ [b])" by auto
qed

lemma spares_also:
  "spares {c, n} B f g \<Longrightarrow> spares {c} B f g \<and> (is_dir f (B @ [n]) \<longrightarrow> is_dir g (B @ [n]))"
  using spares_get [of "{c, n}" B f g n] spares_mono [of "{c, n}" B f g "{c}"] by (simp add: is_dir_def)

section \<open>Switching versions\<close>

abbreviation currentTemp :: string where "currentTemp \<equiv> ''current.tmp''"

text \<open>The link that will become \<open>current\<close> waits under its temporary name.\<close>

definition ready :: "world \<Rightarrow> path \<Rightarrow> string \<Rightarrow> world \<Rightarrow> bool" where
  "ready w B V u = (wf_world u \<and> component_dir (w_fs w) B \<and> spares {VersionCurrent} B (w_fs w) (w_fs u)
     \<and> (\<exists>i. fs_get (w_fs u) (B @ [currentTemp]) = Some i \<and> i_kind i = KLink V))"

text \<open>
  How it may end: only inside of the component's directory anything is different; \<open>current\<close> is what
  it was, unless the result is success: then it is a link to the version, and the version is there.
\<close>

definition switched :: "world \<Rightarrow> path \<Rightarrow> string \<Rightarrow> goerror + bool \<Rightarrow> world \<Rightarrow> bool" where
  "switched w B V r v = (wf_world v \<and> component_dir (w_fs w) B \<and> spares {} B (w_fs w) (w_fs v)
     \<and> (if r = Inr True
        then (\<exists>i. fs_get (w_fs v) (B @ [VersionCurrent]) = Some i \<and> i_kind i = KLink V) \<and> is_dir (w_fs v) (B @ [V])
        else spares {VersionCurrent} B (w_fs w) (w_fs v)))"

lemma ready_dir: "ready w B V u \<Longrightarrow> component_dir (w_fs u) B"
  by (auto simp: ready_def intro: component_dir_spares)

lemma switched_dir: "switched w B V r u \<Longrightarrow> component_dir (w_fs u) B"
  unfolding switched_def by (blast intro: component_dir_spares)

lemma ready_failed: "ready w B V u \<Longrightarrow> r \<noteq> Inr True \<Longrightarrow> switched w B V r u"
  by (auto simp: ready_def switched_def intro: spares_mono)

lemma ready_spares:
  assumes "ready w B V u" "spares {VersionCurrent, currentTemp} B (w_fs u) (w_fs v)" "wf_world v"
  shows "ready w B V v"
proof -
  have "spares {VersionCurrent} B (w_fs u) (w_fs v)" using assms(2) by (rule spares_mono) simp
  moreover have "fs_get (w_fs v) (B @ [currentTemp]) = fs_get (w_fs u) (B @ [currentTemp])"
    using assms(2) by (rule spares_get) simp
  ultimately show ?thesis using assms(1,3) by (auto simp: ready_def intro: spares_trans)
qed

lemma ready_tick [simp]: "ready w B V (tick u) = ready w B V u"
  by (auto simp: ready_def wf_world_def sane_outside_def)

lemma ready_step:
  assumes "program m" "ready w B V u"
    and "wp m (\<lambda>r v. spares {VersionCurrent, currentTemp} B (w_fs u) (w_fs v) \<and> R r v) u"
  shows "wp m (\<lambda>r v. ready w B V v \<and> R r v) u"
proof -
  have "wf_world u" using assms(2) by (simp add: ready_def)
  from wp_wf [OF assms(1) this assms(3)] show ?thesis
    by (rule wp_mono) (use ready_spares [OF assms(2)] in auto)
qed

text \<open>What runs at the end, the deferred calls, leaves the outcome alone.\<close>

lemma switched_step:
  assumes "program m" "switched w B V r u"
    and "wp m (\<lambda>_ v. spares {VersionCurrent} B (w_fs u) (w_fs v)
          \<and> (is_dir (w_fs u) (B @ [V]) \<longrightarrow> is_dir (w_fs v) (B @ [V]))) u"
  shows "wp m (\<lambda>_ v. switched w B V r v) u"
proof -
  have "wf_world u" using assms(2) by (simp add: switched_def)
  from wp_wf [OF assms(1) this assms(3)] show ?thesis
  proof (rule wp_mono)
    fix a v
    assume v: "(spares {VersionCurrent} B (w_fs u) (w_fs v)
      \<and> (is_dir (w_fs u) (B @ [V]) \<longrightarrow> is_dir (w_fs v) (B @ [V]))) \<and> wf_world v"
    have s: "spares {} B (w_fs u) (w_fs v)" using v by (blast intro: spares_mono)
    have "fs_get (w_fs v) (B @ [VersionCurrent]) = fs_get (w_fs u) (B @ [VersionCurrent])"
      using v by (blast intro: spares_get)
    then show "switched w B V r v"
      using assms(2) v s by (auto simp: switched_def intro: spares_trans)
  qed
qed

lemma wp_Remove_spares:
  assumes "component_dir (w_fs u) B" "plain n" "n \<notin> P"
  shows "wp (os_Remove (abs_path (B @ [n]))) (\<lambda>_ v. spares P B (w_fs u) (w_fs v)) u"
proof (rule wp_os_Remove, goal_cases)
  case (2 p i)
  then have "p = B @ [n]" using component_resolve [OF assms(1,2)] by simp
  then show ?case using assms(3) by (intro spares_below [of _ n]) (auto simp: only_below_def)
qed simp

lemma wp_RemoveAll_spares:
  assumes "component_dir (w_fs u) B" "plain n" "n \<notin> P"
  shows "wp (os_RemoveAll (abs_path (B @ [n]))) (\<lambda>_ v. spares P B (w_fs u) (w_fs v)) u"
  unfolding os_RemoveAll_def
proof (rule wp_fs_call_part)
  fix e k
  have "only_below (B @ [n]) (w_fs u) (removed_part (B @ [n]) k (w_fs u))"
    by (auto simp: only_below_def fs_get_removed_part strict_prefix_def)
  then show "spares P B (w_fs u) (w_fs ((tick u)\<lparr>w_fs := case resolve u False (abs_path (B @ [n])) of Inl e \<Rightarrow> w_fs u
      | Inr p \<Rightarrow> if p = [] then w_fs u else removed_part p k (w_fs u)\<rparr>))"
    using component_resolve [OF assms(1,2)] assms(3) by (auto intro: spares_below [of _ n])
next
  fix a f
  assume "with_path u False (abs_path (B @ [n]))
     (\<lambda>p. if p = [] then Inl EINVAL else Inr ((), fs_remove_tree p (w_fs u))) = Inr (a, f)"
  then have "f = fs_remove_tree (B @ [n]) (w_fs u)"
    using component_resolve [OF assms(1,2)] by (simp add: with_path_def)
  then show "spares P B (w_fs u) (w_fs ((tick u)\<lparr>w_fs := f\<rparr>))"
    using assms(3) by (intro spares_below [of _ n]) (auto simp: only_below_def)
qed simp

lemma wp_Rename_spares:
  assumes "component_dir (w_fs u) B" "wf_world u" "plain a" "plain b" "a \<notin> P" "b \<notin> P"
  shows "wp (os_Rename (abs_path (B @ [a])) (abs_path (B @ [b]))) (\<lambda>r v. spares P B (w_fs u) (w_fs v)
     \<and> (is_dir (w_fs u) (B @ [b]) \<longrightarrow> is_dir (w_fs v) (B @ [b]))
     \<and> (r = Inr () \<longrightarrow> fs_get (w_fs v) (B @ [b]) = fs_get (w_fs u) (B @ [a]))) u"
proof (rule wp_os_Rename, goal_cases)
  case (2 p q f)
  then have "rename_inodes (B @ [a]) (B @ [b]) (w_fs u) = Inr f"
    using component_resolve [OF assms(1)] assms(3,4) by simp
  from rename_siblings [OF this] show ?case using assms(2,5,6) by (simp add: wf_world_def)
qed simp

text \<open>A link is copied as a link.\<close>

lemma wp_Copy_link:
  assumes "component_dir (w_fs u) B" "plain n" "plain m" "m \<notin> P"
    and link: "\<And>i. fs_get (w_fs u) (B @ [n]) = Some i \<Longrightarrow> \<exists>t. i_kind i = KLink t"
  shows "wp (Copy (abs_path (B @ [n])) (abs_path (B @ [m]))) (\<lambda>_ v. spares P B (w_fs u) (w_fs v)) u"
  unfolding Copy_def wp_bind [of "os_Lstat _"]
proof (rule wp_os_Lstat)
  fix p i
  assume p: "resolve u False (abs_path (B @ [n])) = Inr p" "fs_get (w_fs u) p = Some i"
  then have "p = B @ [n]" using component_resolve [OF assms(1,2)] by simp
  then obtain t where "i_kind i = KLink t" using link p(2) by auto
  then have l: "is_link \<lparr>fi_name = x, fi_inode = i\<rparr>" for x by (simp add: is_link_def)
  have "direct (w_fs (tick u)) (B @ [m])" using component_direct [OF assms(1,3)] by simp
  from lcopy_below [OF this]
  have "wp (lcopy (abs_path (B @ [n])) (abs_path (B @ [m])) info) (\<lambda>_ v. spares P B (w_fs u) (w_fs v)) (tick u)" for info
    by (rule wp_mono) (use assms(4) in \<open>auto simp: copied_below_def intro: spares_below\<close>)
  then show "wp (onok (Inr \<lparr>fi_name = path_Base (abs_path (B @ [n])), fi_inode = i\<rparr>)
      (\<lambda>info. copy_go copy_depth (abs_path (B @ [n])) (abs_path (B @ [m])) info))
      (\<lambda>_ v. spares P B (w_fs u) (w_fs v)) (tick u)"
    using l by (simp add: copy_depth_def numeral_eq_Suc)
qed simp

lemma wp_log_err: "(\<And>v. w_fs v = w_fs u \<Longrightarrow> w_exec v = w_exec u \<Longrightarrow> w_mountfx v = w_mountfx u \<Longrightarrow> Q () v)
  \<Longrightarrow> wp (log_err r) Q u"
  by (auto simp: log_err_def emit_def split: sum.split)

lemma ready_cong:
  "w_fs v = w_fs u \<Longrightarrow> w_exec v = w_exec u \<Longrightarrow> w_mountfx v = w_mountfx u \<Longrightarrow> ready w B V v = ready w B V u"
  by (simp add: ready_def wf_world_def sane_outside_def)

text \<open>The names an installation uses: the version's own and the temporary one.\<close>

definition version_names :: "string \<Rightarrow> string \<Rightarrow> bool" where
  "version_names V T = (plain V \<and> plain T \<and> plain (V @ ''.old'')
     \<and> V \<notin> {VersionCurrent, VersionPrevious, currentTemp}
     \<and> T \<notin> {VersionCurrent, VersionPrevious, currentTemp, V, V @ ''.old''})"

lemma plain_names [simp]: "plain VersionCurrent" "plain VersionPrevious" "plain currentTemp"
  by (simp_all add: plain_def VersionCurrent_def VersionPrevious_def)

lemma names_neq [simp]: "VersionCurrent \<noteq> VersionPrevious" "VersionCurrent \<noteq> currentTemp"
  "VersionPrevious \<noteq> currentTemp" "currentTemp \<noteq> VersionCurrent" "currentTemp \<noteq> VersionPrevious"
  "VersionPrevious \<noteq> VersionCurrent"
  by (simp_all add: VersionCurrent_def VersionPrevious_def)

lemma old_name_neq: "V @ ''.old'' \<notin> {VersionCurrent, VersionPrevious, currentTemp}"
proof -
  have "rev ''.old'' = take 4 (rev x)" if "V @ ''.old'' = x" for x :: string
    using that by auto
  from this [of VersionCurrent] this [of VersionPrevious] this [of currentTemp] show ?thesis
    by (auto simp: VersionCurrent_def VersionPrevious_def)
qed

lemma ready_version_step:
  assumes "program m" "ready w B V u \<and> is_dir (w_fs u) (B @ [V])"
    and "wp m (\<lambda>_ v. spares {VersionCurrent, currentTemp, V} B (w_fs u) (w_fs v)) u"
  shows "wp m (\<lambda>_ v. ready w B V v \<and> is_dir (w_fs v) (B @ [V])) u"
proof (rule ready_step)
  show "wp m (\<lambda>_ v. spares {VersionCurrent, currentTemp} B (w_fs u) (w_fs v) \<and> is_dir (w_fs v) (B @ [V])) u"
  proof (rule wp_mono [OF assms(3)], rule conjI)
    fix v
    assume v: "spares {VersionCurrent, currentTemp, V} B (w_fs u) (w_fs v)"
    then show "spares {VersionCurrent, currentTemp} B (w_fs u) (w_fs v)" by (rule spares_mono) auto
    show "is_dir (w_fs v) (B @ [V])" using spares_is_dir [OF v, of V] assms(2) by simp
  qed
qed (use assms in simp_all)

lemma ready_final:
  assumes u: "ready w B V u" "is_dir (w_fs u) (B @ [V])" and n: "version_names V T"
  shows "wp (do { m \<leftarrow> os_Rename (abs_path (B @ [currentTemp])) (abs_path (B @ [VersionCurrent]));
       onok m (\<lambda>_. State_Monad.return (Inr True)) }) (switched w B V) u"
proof -
  let ?m = "os_Rename (abs_path (B @ [currentTemp])) (abs_path (B @ [VersionCurrent]))"
  have wf: "wf_world u" using u(1) by (simp add: ready_def)
  have "wp ?m (\<lambda>r v. (spares {V} B (w_fs u) (w_fs v)
     \<and> (is_dir (w_fs u) (B @ [VersionCurrent]) \<longrightarrow> is_dir (w_fs v) (B @ [VersionCurrent]))
     \<and> (r = Inr () \<longrightarrow> fs_get (w_fs v) (B @ [VersionCurrent]) = fs_get (w_fs u) (B @ [currentTemp])))
     \<and> wf_world v) u"
    by (rule wp_wf [OF program_os_Rename wf wp_Rename_spares [OF ready_dir [OF u(1)] wf]])
      (use n in \<open>auto simp: version_names_def\<close>)
  moreover have "wp ?m (\<lambda>r v. r \<noteq> Inr () \<longrightarrow> w_fs v = w_fs u) u"
    by (rule wp_os_Rename) auto
  ultimately have "wp ?m (\<lambda>r v. ((spares {V} B (w_fs u) (w_fs v)
     \<and> (is_dir (w_fs u) (B @ [VersionCurrent]) \<longrightarrow> is_dir (w_fs v) (B @ [VersionCurrent]))
     \<and> (r = Inr () \<longrightarrow> fs_get (w_fs v) (B @ [VersionCurrent]) = fs_get (w_fs u) (B @ [currentTemp])))
     \<and> wf_world v) \<and> (r \<noteq> Inr () \<longrightarrow> w_fs v = w_fs u)) u"
    by (simp only: wp_conj)
  then show ?thesis
    unfolding wp_bind
  proof (rule wp_mono)
    fix r :: "goerror + unit" and v
    assume v: "((spares {V} B (w_fs u) (w_fs v)
     \<and> (is_dir (w_fs u) (B @ [VersionCurrent]) \<longrightarrow> is_dir (w_fs v) (B @ [VersionCurrent]))
     \<and> (r = Inr () \<longrightarrow> fs_get (w_fs v) (B @ [VersionCurrent]) = fs_get (w_fs u) (B @ [currentTemp])))
     \<and> wf_world v) \<and> (r \<noteq> Inr () \<longrightarrow> w_fs v = w_fs u)"
    have "spares {} B (w_fs w) (w_fs u)" "spares {} B (w_fs u) (w_fs v)"
      using u(1) v unfolding ready_def by (blast intro: spares_mono)+
    then have s: "spares {} B (w_fs w) (w_fs v)" by (rule spares_trans)
    show "wp (onok r (\<lambda>_. State_Monad.return (Inr True))) (switched w B V) v"
    proof (cases r)
      case (Inl e)
      then show ?thesis using v u(1) s by (simp add: switched_def ready_def)
    next
      case (Inr x)
      then show ?thesis
        using v u s spares_is_dir [of "{V}" B "w_fs u" "w_fs v" V]
        by (auto simp: switched_def ready_def)
    qed
  qed
qed

text \<open>\<open>placed\<close>: the version has its new content, the links are still to be moved.\<close>

definition placed :: "world \<Rightarrow> path \<Rightarrow> string \<Rightarrow> world \<Rightarrow> bool" where
  "placed w B V v = (ready w B V v \<and> is_dir (w_fs v) (B @ [V]))"

lemma log_placed: "placed w B V v \<Longrightarrow> wp (log_err r) (\<lambda>_. placed w B V) v"
proof (rule wp_log_err)
  fix x :: world
  assume "placed w B V v" "w_fs x = w_fs v" "w_exec x = w_exec v" "w_mountfx x = w_mountfx v"
  then show "placed w B V x" using ready_cong [of x v w B V] by (simp add: placed_def)
qed

lemma chmod_placed:
  assumes v: "placed w B V v" and V: "plain V" "V \<notin> {VersionCurrent, VersionPrevious, currentTemp}"
  shows "wp (os_Chmod (abs_path (B @ [V])) m) (\<lambda>_. placed w B V) v"
  unfolding placed_def
proof (rule ready_step [OF program_os_Chmod])
  have r: "resolve v True (abs_path (B @ [V])) = Inr (B @ [V])"
    using v V ready_dir by (intro component_resolve_dir) (auto simp: placed_def)
  show "wp (os_Chmod (abs_path (B @ [V])) m) (\<lambda>_ x. spares {VersionCurrent, currentTemp} B (w_fs v) (w_fs x)
      \<and> is_dir (w_fs x) (B @ [V])) v"
  proof (rule wp_os_Chmod, goal_cases)
    case (2 p i)
    then have "p = B @ [V]" using r by simp
    then show ?case using V(2) v 2 by (auto simp: placed_def is_dir_def intro: spares_put)
  qed (use v in \<open>simp add: placed_def\<close>)
qed (use v in \<open>simp add: placed_def\<close>)

text \<open>The links, the last steps.\<close>

lemma move_links_switched:
  assumes n: "version_names V T" and v: "placed w B V v"
    and link: "\<And>i. fs_get (w_fs w) (B @ [VersionCurrent]) = Some i \<Longrightarrow> \<exists>t. i_kind i = KLink t"
  shows "wp (do {
       p \<leftarrow> os_Remove (abs_path (B @ [VersionPrevious]));
       _ \<leftarrow> log_err p;
       cp \<leftarrow> Copy (abs_path (B @ [VersionCurrent])) (abs_path (B @ [VersionPrevious]));
       _ \<leftarrow> log_err cp;
       m \<leftarrow> os_Rename (abs_path (B @ [currentTemp])) (abs_path (B @ [VersionCurrent]));
       onok m (\<lambda>_. State_Monad.return (Inr True)) }) (switched w B V) v"
proof -
  have ne: "V \<notin> {VersionCurrent, VersionPrevious, currentTemp}" using n by (auto simp: version_names_def)
  have copy: "wp (do { cp \<leftarrow> Copy (abs_path (B @ [VersionCurrent])) (abs_path (B @ [VersionPrevious]));
       _ \<leftarrow> log_err cp;
       m \<leftarrow> os_Rename (abs_path (B @ [currentTemp])) (abs_path (B @ [VersionCurrent]));
       onok m (\<lambda>_. State_Monad.return (Inr True)) }) (switched w B V) v" if v: "placed w B V v" for v
  proof -
    have "fs_get (w_fs v) (B @ [VersionCurrent]) = fs_get (w_fs w) (B @ [VersionCurrent])"
      using v by (auto simp: placed_def ready_def intro: spares_get)
    then have "wp (Copy (abs_path (B @ [VersionCurrent])) (abs_path (B @ [VersionPrevious]))) (\<lambda>_. placed w B V) v"
      unfolding placed_def
      by (intro ready_version_step wp_Copy_link) (use v ne link ready_dir in \<open>auto simp: placed_def intro: program_Copy\<close>)
    then show ?thesis
      unfolding wp_bind [of "Copy _ _"] wp_bind [of "log_err _"]
      by (rule wp_mono) (rule wp_mono [OF log_placed], simp, rule ready_final [OF _ _ n], auto simp: placed_def)
  qed
  have "wp (os_Remove (abs_path (B @ [VersionPrevious]))) (\<lambda>_. placed w B V) v"
    unfolding placed_def
    by (intro ready_version_step wp_Remove_spares) (use v ne ready_dir in \<open>auto simp: placed_def intro: program_os_Remove\<close>)
  then show ?thesis
    unfolding wp_bind [of "os_Remove _"] wp_bind [of "log_err _"]
    by (rule wp_mono) (rule wp_mono [OF log_placed], simp, rule copy, simp)
qed

lemma switch_version_switched:
  assumes n: "version_names V T"
    and link: "\<And>i. fs_get (w_fs w) (B @ [VersionCurrent]) = Some i \<Longrightarrow> \<exists>t. i_kind i = KLink t"
    and u: "ready w B V u" "is_dir (w_fs u) (B @ [T])"
  shows "wp (switch_version si (abs_path (B @ [T])) (abs_path (B @ [V])) (abs_path (B @ [VersionPrevious]))
      (abs_path (B @ [VersionCurrent])) (abs_path (B @ [currentTemp]))) (switched w B V) u"
proof -
  have pl: "plain V" "plain T" and ne: "V \<notin> {VersionCurrent, VersionPrevious, currentTemp}"
      "T \<notin> {VersionCurrent, VersionPrevious, currentTemp, V, V @ ''.old''}"
    using n by (auto simp: version_names_def)
  let ?m = "os_Rename (abs_path (B @ [T])) (abs_path (B @ [V]))"
  have wf: "wf_world u" using u(1) by (simp add: ready_def)
  have "wp ?m (\<lambda>r v. ready w B V v \<and> (r = Inr () \<longrightarrow> is_dir (w_fs v) (B @ [V]))) u"
  proof (rule ready_step [OF program_os_Rename u(1)])
    show "wp ?m (\<lambda>r v. spares {VersionCurrent, currentTemp} B (w_fs u) (w_fs v)
        \<and> (r = Inr () \<longrightarrow> is_dir (w_fs v) (B @ [V]))) u"
      by (rule wp_mono [OF wp_Rename_spares [OF ready_dir [OF u(1)] wf pl(2,1), of "{VersionCurrent, currentTemp}"]])
        (use ne u(2) in \<open>auto simp: is_dir_def\<close>)
  qed
  then show ?thesis
    unfolding switch_version_def wp_bind [of "os_Rename (abs_path (B @ [T])) _"]
  proof (rule wp_mono)
    fix r :: "goerror + unit" and v
    assume v: "ready w B V v \<and> (r = Inr () \<longrightarrow> is_dir (w_fs v) (B @ [V]))"
    show "wp (onok r (\<lambda>_. do {
       c \<leftarrow> os_Chmod (abs_path (B @ [V])) (fi_Mode si);
       _ \<leftarrow> log_err c;
       p \<leftarrow> os_Remove (abs_path (B @ [VersionPrevious]));
       _ \<leftarrow> log_err p;
       cp \<leftarrow> Copy (abs_path (B @ [VersionCurrent])) (abs_path (B @ [VersionPrevious]));
       _ \<leftarrow> log_err cp;
       m \<leftarrow> os_Rename (abs_path (B @ [currentTemp])) (abs_path (B @ [VersionCurrent]));
       onok m (\<lambda>_. State_Monad.return (Inr True)) })) (switched w B V) v"
    proof (cases r)
      case (Inl e)
      then show ?thesis using v ready_failed by simp
    next
      case (Inr x)
      then have "placed w B V v" using v by (simp add: placed_def)
      then show ?thesis
        unfolding Inr onok_simps wp_bind [of "os_Chmod _ _"] wp_bind [of "log_err _"]
        by (intro wp_mono [OF chmod_placed [OF _ pl(1) ne(1)]])
          (simp, rule wp_mono [OF log_placed], simp, rule move_links_switched [OF n _ link], simp_all)
    qed
  qed
qed

text \<open>A step that leaves the links and the temporary directory alone.\<close>

lemma ready_temp_step:
  fixes m :: "unit os"
  assumes m: "program m" "ready w B V v" "is_dir (w_fs v) (B @ [T])"
    and sp: "wp m (\<lambda>_ x. spares {VersionCurrent, currentTemp, T} B (w_fs v) (w_fs x)) v"
  shows "wp m (\<lambda>_ v. ready w B V v \<and> is_dir (w_fs v) (B @ [T])) v"
proof (rule ready_step [OF m(1,2)])
  show "wp m (\<lambda>_ x. spares {VersionCurrent, currentTemp} B (w_fs v) (w_fs x) \<and> is_dir (w_fs x) (B @ [T])) v"
  proof (rule wp_mono [OF sp], rule conjI)
    fix x
    assume x: "spares {VersionCurrent, currentTemp, T} B (w_fs v) (w_fs x)"
    then show "spares {VersionCurrent, currentTemp} B (w_fs v) (w_fs x)" by (rule spares_mono) auto
    show "is_dir (w_fs x) (B @ [T])" using spares_is_dir [OF x, of T] m(3) by simp
  qed
qed

text \<open>Moving the old version back, which fails when it was replaced.\<close>

lemma rename_back_switched:
  assumes s: "switched w B V r v" and V: "plain V" "V \<notin> {VersionCurrent, VersionPrevious, currentTemp}" "plain (V @ ''.old'')"
    and old: "V @ ''.old'' \<notin> {VersionCurrent, V}"
  shows "wp (os_Rename (abs_path (B @ [V @ ''.old''])) (abs_path (B @ [V]))) (\<lambda>_ v. switched w B V r v) v"
proof (rule switched_step [OF program_os_Rename s])
  have "wf_world v" using s by (simp add: switched_def)
  note rn = wp_Rename_spares [OF switched_dir [OF s] this V(3,1), of "{VersionCurrent}"]
  show "wp (os_Rename (abs_path (B @ [V @ ''.old''])) (abs_path (B @ [V]))) (\<lambda>_ x. spares {VersionCurrent} B (w_fs v) (w_fs x)
    \<and> (is_dir (w_fs v) (B @ [V]) \<longrightarrow> is_dir (w_fs x) (B @ [V]))) v"
    by (rule wp_mono [OF rn]) (use V(2) old in auto)
qed

lemma replace_version_switched:
  assumes n: "version_names V T"
    and link: "\<And>i. fs_get (w_fs w) (B @ [VersionCurrent]) = Some i \<Longrightarrow> \<exists>t. i_kind i = KLink t"
    and u: "ready w B V u" "is_dir (w_fs u) (B @ [T])"
  shows "wp (replace_version si (abs_path (B @ [T])) (abs_path (B @ [V])) (abs_path (B @ [VersionPrevious]))
      (abs_path (B @ [VersionCurrent])) (abs_path (B @ [currentTemp]))) (switched w B V) u"
proof -
  let ?go = "switch_version si (abs_path (B @ [T])) (abs_path (B @ [V])) (abs_path (B @ [VersionPrevious]))
      (abs_path (B @ [VersionCurrent])) (abs_path (B @ [currentTemp]))"
  let ?O = "V @ ''.old''"
  have pl: "plain V" "plain T" "plain ?O" and ne: "V \<notin> {VersionCurrent, VersionPrevious, currentTemp}"
      "T \<notin> {VersionCurrent, VersionPrevious, currentTemp, V, ?O}"
    using n by (auto simp: version_names_def)
  have go: "wp ?go (switched w B V) v" if "ready w B V v" "is_dir (w_fs v) (B @ [T])" for v
    by (rule switch_version_switched [OF n link that])
  note step = ready_temp_step [where T = T]
  have undo: "wp (os_Rename (abs_path (B @ [?O])) (abs_path (B @ [V]))) (\<lambda>_ v. switched w B V r v) v"
    if "switched w B V r v" for r v
    by (rule rename_back_switched [OF that pl(1) ne(1) pl(3)]) (use ne old_name_neq [of V] in auto)
  have u': "ready w B V (tick u)" "is_dir (w_fs (tick u)) (B @ [T])" using u by simp_all
  have wf': "wf_world (tick u)" using u' by (simp add: ready_def)
  show ?thesis
    unfolding replace_version_def Let_def wp_bind [of "os_Stat _"] abs_path_suffix
  proof (rule wp_os_Stat)
    fix p i
    let ?di = "\<lparr>fi_name = path_Base (abs_path (B @ [V])), fi_inode = i\<rparr>"
    let ?mv = "os_Rename (abs_path (B @ [V])) (abs_path (B @ [?O]))"
    have "wp ?mv (\<lambda>_ v. ready w B V v \<and> is_dir (w_fs v) (B @ [T])) (tick u)"
    proof (rule step [OF program_os_Rename u'])
      show "wp ?mv (\<lambda>_ x. spares {VersionCurrent, currentTemp, T} B (w_fs (tick u)) (w_fs x)) (tick u)"
        by (rule wp_mono [OF wp_Rename_spares [OF ready_dir [OF u'(1)] wf' pl(1,3),
              of "{VersionCurrent, currentTemp, T}"]])
          (use ne old_name_neq [of V] in auto)
    qed
    then have mv: "wp (do { r \<leftarrow> ?mv;
             onok r (\<lambda>_. deferred (os_Rename (abs_path (B @ [?O])) (abs_path (B @ [V]))) ?go) })
          (switched w B V) (tick u)"
      unfolding wp_bind
    proof (rule wp_mono)
      fix r :: "goerror + unit" and v
      assume v: "ready w B V v \<and> is_dir (w_fs v) (B @ [T])"
      have "wp (deferred (os_Rename (abs_path (B @ [?O])) (abs_path (B @ [V]))) ?go) (switched w B V) v"
        unfolding wp_deferred by (rule wp_mono [OF go]) (use v undo in auto)
      then show "wp (onok r (\<lambda>_. deferred (os_Rename (abs_path (B @ [?O])) (abs_path (B @ [V]))) ?go))
          (switched w B V) v"
        using v ready_failed by (cases r) auto
    qed
    have rm: "wp (do { _ \<leftarrow> os_Remove (abs_path (B @ [V])); ?go }) (switched w B V) (tick u)"
      unfolding wp_bind
    proof (rule wp_mono [OF step [OF program_os_Remove u']])
      show "wp (os_Remove (abs_path (B @ [V]))) (\<lambda>_ x. spares {VersionCurrent, currentTemp, T} B (w_fs (tick u)) (w_fs x)) (tick u)"
        by (rule wp_Remove_spares [OF ready_dir [OF u'(1)] pl(1)]) (use ne in auto)
    qed (use go in auto)
    show "wp (case Inr ?di of Inl _ \<Rightarrow> ?go
      | Inr di \<Rightarrow> if IsDir di then do { r \<leftarrow> ?mv;
             onok r (\<lambda>_. deferred (os_Rename (abs_path (B @ [?O])) (abs_path (B @ [V]))) ?go) }
         else do { _ \<leftarrow> os_Remove (abs_path (B @ [V])); ?go }) (switched w B V) (tick u)"
      using mv rm by (simp only: sum.case split: if_split) blast
  qed (use go [OF u'] in simp)
qed

text \<open>A temporary directory next to the version.\<close>

lemma wp_TempDir:
  assumes gr: "good_rand u" and wf: "wf_fs (w_fs u)" and B: "component_dir (w_fs u) B" and V: "plain V"
    and bad: "\<And>e v. w_fs v = w_fs u \<Longrightarrow> w_exec v = w_exec u \<Longrightarrow> w_mountfx v = w_mountfx u \<Longrightarrow> Q (Inl e) v"
    and good: "\<And>T i v. plain T \<Longrightarrow> \<exists>c \<in> set T. is_digit c \<Longrightarrow> T \<noteq> V \<Longrightarrow> T \<noteq> V @ ''.old'' \<Longrightarrow> i_kind i = KDir \<Longrightarrow>
      fs_get (w_fs u) (B @ [T]) = None \<Longrightarrow> w_fs v = fs_put (B @ [T]) i (w_fs u) \<Longrightarrow>
      w_exec v = w_exec u \<Longrightarrow> w_mountfx v = w_mountfx u \<Longrightarrow> Q (Inr (abs_path (B @ [T]), ())) v"
  shows "wp (TempDir (slash # concat (map (\<lambda>c. c @ [slash]) B)) V) Q u"
proof -
  let ?dir = "slash # concat (map (\<lambda>c. c @ [slash]) B)"
  let ?I = "\<lambda>v :: world. w_fs v = w_fs u \<and> w_cwd v = w_cwd u \<and> w_rand v = w_rand u \<and> w_exec v = w_exec u
    \<and> w_mountfx v = w_mountfx u"
  let ?mk = "\<lambda>(v :: world) s (a :: unit) (v' :: world). (\<exists>p i. resolve v False s = Inr p \<and> fs_get (w_fs v) p = None \<and>
      i_kind i = KDir \<and> v' = (tick v)\<lparr>w_fs := fs_put p i (w_fs v)\<rparr>)"
  obtain a b where ab: "pattern_split V = (a, b)" by fastforce
  have pB: "\<forall>c \<in> set B. plain c" using B by (simp add: component_dir_def direct_def)
  have ns: "slash \<notin> set V" using V by (simp add: plain_def)
  have "wp (temp_loop (\<lambda>n. os_Mkdir n 448) ?dir (a, b) 10000) Q u"
  proof (rule wp_temp_loop [where mkpost = ?mk and I = ?I])
    fix s and v :: world and R :: "goerror + unit \<Rightarrow> world \<Rightarrow> bool"
    assume R: "\<And>e. R (Inl e) (tick v)" "\<And>a v'. ?mk v s a v' \<Longrightarrow> R (Inr a) v'"
    show "wp (os_Mkdir s 448) R v"
    proof (rule wp_os_Mkdir, goal_cases)
      case (2 p)
      show ?case by (rule R(2), intro exI conjI) (use 2 in simp_all)
    qed (rule R(1))
  next
    fix v :: world and rnd k x v'
    assume v: "?I v" and rnd: "rnd = w_rand v k" and mk: "?mk v (path_Join [?dir, fst (a, b) @ rnd @ snd (a, b)]) x v'"
    let ?T = "a @ rnd @ b"
    have r: "rnd \<noteq> []" "\<forall>c \<in> set rnd. is_digit c" using gr v rnd by (auto simp: good_rand_def)
    have pT: "plain ?T" using temp_name_plain [OF ab ns r] .
    have j: "path_Join [?dir, ?T] = abs_path (B @ [?T])" by (rule path_Join_temp [OF pB pT])
    have Bv: "component_dir (w_fs v) B" using B v by simp
    obtain i where i: "fs_get (w_fs v) (B @ [?T]) = None" "i_kind i = KDir"
        "v' = (tick v)\<lparr>w_fs := fs_put (B @ [?T]) i (w_fs v)\<rparr>"
      using mk component_resolve [OF Bv pT] j by auto
    have "Q (Inr (abs_path (B @ [?T]), ())) v'"
    proof (rule good [OF pT])
      show "\<exists>c \<in> set ?T. is_digit c" using r by (cases rnd) auto
      show "?T \<noteq> V" using temp_name_new [OF ab r, of "[]"] by (simp add: is_digit_def)
      show "?T \<noteq> V @ ''.old''" using temp_name_new [OF ab r, of "''.old''"] by (simp add: is_digit_def)
    qed (use v i in simp_all)
    then show "Q (Inr (path_Join [?dir, fst (a, b) @ rnd @ snd (a, b)], x)) v'" using j by simp
  qed (use bad in auto)
  then show ?thesis using ab by (simp add: TempDir_def temp_dir_def)
qed

lemma no_digit_names: "c \<in> set VersionCurrent \<union> set VersionPrevious \<union> set currentTemp \<Longrightarrow> \<not> is_digit c"
  by (auto simp: VersionCurrent_def VersionPrevious_def is_digit_def)

text \<open>The copy into the temporary directory, with its removal.\<close>

lemma copy_and_replace_switched:
  assumes B: "B \<noteq> []"
    and link: "\<And>i. fs_get (w_fs w) (B @ [VersionCurrent]) = Some i \<Longrightarrow> \<exists>t. i_kind i = KLink t"
    and v: "ready w B V v" and n: "version_names V T" and T: "is_dir (w_fs v) (B @ [T])"
      "\<not> has_children (w_fs v) (B @ [T])"
  shows "wp (deferred (os_RemoveAll (abs_path (B @ [T]))) (do {
         cp \<leftarrow> Copy from (abs_path (B @ [T]));
         onok cp (\<lambda>_. replace_version si (abs_path (B @ [T])) (abs_path (B @ [V])) (abs_path (B @ [VersionPrevious]))
            (abs_path (B @ [VersionCurrent])) (abs_path (B @ [currentTemp]))) })) (switched w B V) v"
proof -
  have ne: "T \<notin> {VersionCurrent, VersionPrevious, currentTemp, V}" "plain T"
    using n by (auto simp: version_names_def)
  have undo: "wp (os_RemoveAll (abs_path (B @ [T]))) (\<lambda>_ x. switched w B V r x) x"
    if x: "switched w B V r x" for r x
  proof (rule switched_step [OF program_os_RemoveAll x])
    show "wp (os_RemoveAll (abs_path (B @ [T]))) (\<lambda>_ y. spares {VersionCurrent} B (w_fs x) (w_fs y)
      \<and> (is_dir (w_fs x) (B @ [V]) \<longrightarrow> is_dir (w_fs y) (B @ [V]))) x"
      by (rule wp_mono [OF wp_RemoveAll_spares [OF switched_dir [OF x] ne(2), of "{VersionCurrent, V}"]])
        (use ne in simp, rule spares_also)
  qed
  have wf: "wf_world v" using v by (simp add: ready_def)
  have ft: "fresh_target (w_fs v) (B @ [T])"
    using component_direct [OF ready_dir [OF v] ne(2)] T B
    by (auto simp: fresh_target_def is_dir_def butlast_append)
  have "wp (Copy from (abs_path (B @ [T])))
      (\<lambda>_ x. ready w B V x \<and> is_dir (w_fs x) (B @ [T])) v"
  proof (rule ready_step [OF program_Copy v])
    show "wp (Copy from (abs_path (B @ [T])))
      (\<lambda>_ x. spares {VersionCurrent, currentTemp} B (w_fs v) (w_fs x) \<and> is_dir (w_fs x) (B @ [T])) v"
      by (rule wp_mono [OF Copy_below [OF wf ft]])
        (use T ne in \<open>auto simp: copied_below_def intro: spares_below\<close>)
  qed
  then show ?thesis
    unfolding wp_deferred wp_bind
  proof (rule wp_mono)
    fix r :: "goerror + unit" and x
    assume x: "ready w B V x \<and> is_dir (w_fs x) (B @ [T])"
    show "wp (onok r (\<lambda>_. replace_version si (abs_path (B @ [T])) (abs_path (B @ [V]))
          (abs_path (B @ [VersionPrevious])) (abs_path (B @ [VersionCurrent])) (abs_path (B @ [currentTemp]))))
        (\<lambda>r. wp (os_RemoveAll (abs_path (B @ [T]))) (\<lambda>_. switched w B V r)) x"
    proof (cases r)
      case (Inl e)
      then show ?thesis using undo ready_failed x by simp
    next
      case (Inr y)
      have "wp (replace_version si (abs_path (B @ [T])) (abs_path (B @ [V]))
          (abs_path (B @ [VersionPrevious])) (abs_path (B @ [VersionCurrent])) (abs_path (B @ [currentTemp])))
          (switched w B V) x"
        by (rule replace_version_switched [OF n]) (use link x in auto)
      then show ?thesis unfolding Inr onok_simps by (rule wp_mono) (rule undo)
    qed
  qed
qed

lemma copy_in_temp_switched:
  assumes B: "B \<noteq> []" and V: "plain V" "V \<notin> {VersionCurrent, VersionPrevious, currentTemp}"
    and link: "\<And>i. fs_get (w_fs w) (B @ [VersionCurrent]) = Some i \<Longrightarrow> \<exists>t. i_kind i = KLink t"
    and v: "ready w B V v" and gr: "good_rand v"
  shows "wp (do {
       td \<leftarrow> TempDir (slash # concat (map (\<lambda>c. c @ [slash]) B)) V;
       onok td (\<lambda>(dstTemp, _). deferred (os_RemoveAll dstTemp) (do {
         cp \<leftarrow> Copy from dstTemp;
         onok cp (\<lambda>_. replace_version si dstTemp (abs_path (B @ [V])) (abs_path (B @ [VersionPrevious]))
            (abs_path (B @ [VersionCurrent])) (abs_path (B @ [currentTemp]))) })) }) (switched w B V) v"
  unfolding wp_bind [of "TempDir _ _"]
proof (rule wp_TempDir [OF gr _ ready_dir [OF v] V(1)])
  show "wf_fs (w_fs v)" using v by (simp add: ready_def wf_world_def)
next
  fix e and x :: world
  assume x: "w_fs x = w_fs v" "w_exec x = w_exec v" "w_mountfx x = w_mountfx v"
  show "wp (onok (Inl e) (\<lambda>(dstTemp, _). deferred (os_RemoveAll dstTemp) (do {
     cp \<leftarrow> Copy from dstTemp;
     onok cp (\<lambda>_. replace_version si dstTemp (abs_path (B @ [V])) (abs_path (B @ [VersionPrevious]))
        (abs_path (B @ [VersionCurrent])) (abs_path (B @ [currentTemp]))) }))) (switched w B V) x"
    using ready_cong [OF x] v ready_failed by simp
next
  fix T i and x :: world
  assume T: "plain T" "\<exists>c \<in> set T. is_digit c" "T \<noteq> V" "T \<noteq> V @ ''.old''" "i_kind i = KDir"
    "fs_get (w_fs v) (B @ [T]) = None" "w_fs x = fs_put (B @ [T]) i (w_fs v)"
    "w_exec x = w_exec v" "w_mountfx x = w_mountfx v"
  obtain c where c: "c \<in> set T" "is_digit c" using T(2) by blast
  then have nT: "T \<notin> {VersionCurrent, VersionPrevious, currentTemp}"
    using no_digit_names [of c] by blast
  have "plain (V @ ''.old'')" using V(1) by (auto simp: plain_def)
  then have n: "version_names V T" using T nT V(1,2) by (simp add: version_names_def)
  have wfv: "wf_fs (w_fs v)" "sane_outside v" using v by (simp_all add: ready_def wf_world_def)
  have "is_dir (w_fs v) B" using ready_dir [OF v] by (simp add: component_dir_def)
  then have "wf_fs (w_fs x)"
    by (intro wf_fs_new [OF wfv(1) T(6), of i]) (simp add: new_inode_def T(7) butlast_append)
  then have "wf_world x" using wfv(2) T by (simp add: wf_world_def sane_outside_def)
  moreover have "spares {VersionCurrent, currentTemp} B (w_fs v) (w_fs x)"
    unfolding T(7) by (rule spares_put) (use nT in simp)
  ultimately have rx: "ready w B V x" by (intro ready_spares [OF v])
  have "\<not> has_children (w_fs v) (B @ [T])" using T(6) by (intro wf_fs_no_children [OF wfv(1)]) (simp add: is_dir_def)
  then have nc: "\<not> has_children (w_fs x) (B @ [T])" by (simp add: has_children_iff T(7))
  show "wp (onok (Inr (abs_path (B @ [T]), ())) (\<lambda>(dstTemp, _). deferred (os_RemoveAll dstTemp) (do {
     cp \<leftarrow> Copy from dstTemp;
     onok cp (\<lambda>_. replace_version si dstTemp (abs_path (B @ [V])) (abs_path (B @ [VersionPrevious]))
        (abs_path (B @ [VersionCurrent])) (abs_path (B @ [currentTemp]))) })))
      (switched w B V) x"
    unfolding onok_simps prod.case
    by (rule copy_and_replace_switched [OF B link rx n]) (use T nc in \<open>simp_all add: is_dir_def\<close>)
qed
lemma install_version_switched:
  assumes w: "wf_world w" "good_rand w" "component_dir (w_fs w) (D @ [key])"
    and V: "plain V" "V \<notin> {VersionCurrent, VersionPrevious, currentTemp}" "fi_name si = V"
    and link: "\<And>i. fs_get (w_fs w) (D @ [key, VersionCurrent]) = Some i \<Longrightarrow> \<exists>t. i_kind i = KLink t"
  shows "wp (install_version src (abs_path D) key si) (switched w (D @ [key]) V) w"
proof -
  let ?B = "D @ [key]"
  have B: "direct (w_fs w) ?B" using w(3) by (simp add: component_dir_def)
  have pB: "\<forall>c \<in> set D. plain c" "plain key" "\<forall>c \<in> set ?B. plain c" using B by (auto simp: direct_def)
  have j: "path_Join [abs_path D, key, n] = abs_path (?B @ [n])" if "plain n" for n
    using path_Join_elems [OF pB(1), of "[key, n]"] pB(2) that by simp
  have tmp: "abs_path (?B @ [VersionCurrent]) @ ''.tmp'' = abs_path (?B @ [currentTemp])"
    by (simp only: abs_path_suffix) (simp add: VersionCurrent_def)
  have pV: "\<forall>c \<in> set (?B @ [V]). plain c" using pB V(1) by auto
  have base: "path_Base (abs_path (?B @ [V])) = V" using path_Base_abs [OF _ pV] by simp
  have sp: "path_Split (abs_path (?B @ [V])) = (slash # concat (map (\<lambda>c. c @ [slash]) ?B), V)"
    using path_Split_abs [OF _ pV] by (simp only: butlast_snoc last_snoc snoc_eq_iff_butlast not_False_eq_True simp_thms)
  show ?thesis
    unfolding install_version_def Let_def V(3) j [OF V(1)] j [OF plain_names(1)] j [OF plain_names(2)] tmp base sp
      fst_conv snd_conv wp_bind [of "os_Symlink _ _"]
  proof (rule wp_os_Symlink, goal_cases)
    case (1 e)
    have "switched w ?B V (Inl e) w" using w(1,3) by (simp add: switched_def)
    then show ?case by (auto simp: switched_def wf_world_def sane_outside_def)
  next
    case (2 p)
    let ?x = "(tick w)\<lparr>w_fs := fs_put p \<lparr>i_kind = KLink V, i_mode = 511, i_uid = w_uid w, i_gid = w_uid w\<rparr> (w_fs w)\<rparr>"
    have p: "p = ?B @ [currentTemp]" using 2(1) component_resolve [OF w(3)] by simp
    have "wf_fs (w_fs ?x)"
      by (rule wf_fs_new [of "w_fs w" p]) (use w(1) 2 in \<open>auto simp: wf_world_def new_inode_def\<close>)
    then have wfx: "wf_world ?x" using w(1) by (auto simp: wf_world_def sane_outside_def)
    have "spares {VersionCurrent} ?B (w_fs w) (w_fs ?x)"
      using spares_put [of currentTemp "{VersionCurrent}" ?B "w_fs w"
        "\<lparr>i_kind = KLink V, i_mode = 511, i_uid = w_uid w, i_gid = w_uid w\<rparr>"] p by simp
    then have rx: "ready w ?B V ?x"
      using w(3) wfx by (auto simp: ready_def p)
    have undo: "wp (os_Remove (abs_path (?B @ [currentTemp]))) (\<lambda>_ y. switched w ?B V r y) y"
      if y: "switched w ?B V r y" for r y
    proof (rule switched_step [OF program_os_Remove y])
      show "wp (os_Remove (abs_path (?B @ [currentTemp]))) (\<lambda>_ z. spares {VersionCurrent} ?B (w_fs y) (w_fs z)
        \<and> (is_dir (w_fs y) (?B @ [V]) \<longrightarrow> is_dir (w_fs z) (?B @ [V]))) y"
        by (rule wp_mono [OF wp_Remove_spares [OF switched_dir [OF y], of _ "{VersionCurrent, V}"]])
          (rule plain_names, use V names_neq in blast, rule spares_also)
    qed
    show ?case
      unfolding onok_simps wp_deferred
      by (rule wp_mono [OF copy_in_temp_switched [OF _ V(1,2) _ rx]]) (use w(2) undo link in \<open>auto simp: good_rand_def\<close>)
  qed
qed

section \<open>Properties\<close>

text \<open>Looking a version up changes nothing, and what it finds is what the link names.\<close>

lemma wp_StatComponentVersion:
  assumes B: "component_dir (w_fs w) (D @ [key])"
    and K: "K w" "\<And>v. K v \<Longrightarrow> K (tick v)"
    and none: "\<And>v e i. w_fs v = w_fs w \<Longrightarrow> K v \<Longrightarrow> Q (i, Some e) v"
    and some: "\<And>v i j V. w_fs v = w_fs w \<Longrightarrow> K v \<Longrightarrow>
      fs_get (w_fs w) (D @ [key, VersionCurrent]) = Some j \<Longrightarrow> i_kind j = KLink V \<Longrightarrow>
      Q (Some \<lparr>fi_name = path_Base (path_Join [abs_path D, key, V]), fi_inode = i\<rparr>, None) v"
  shows "wp (StatComponentVersion (abs_path D) key VersionCurrent) Q w"
proof -
  have pl: "\<forall>c \<in> set D. plain c" "plain key" using B by (auto simp: component_dir_def direct_def)
  have j: "path_Join [abs_path D, key, VersionCurrent] = abs_path (D @ [key, VersionCurrent])"
    using path_Join_elems [OF pl(1), of "[key, VersionCurrent]"] pl(2) by simp
  have r: "resolve v False (abs_path (D @ [key, VersionCurrent])) = Inr (D @ [key, VersionCurrent])"
    if "w_fs v = w_fs w" for v
    using component_resolve [of v "D @ [key]" VersionCurrent] B that by simp
  have stat: "wp (stat_version_dir (path_Join [abs_path D, key, V])) Q v"
    if "w_fs v = w_fs w" "K v" "fs_get (w_fs w) (D @ [key, VersionCurrent]) = Some j" "i_kind j = KLink V" for V v j
    unfolding stat_version_dir_def wp_bind wp_fun
    by (rule wp_os_Stat) (use that K(2) in \<open>auto intro: none some\<close>)
  have link: "wp (os_Readlink (abs_path (D @ [key, VersionCurrent]))) (\<lambda>a. wp (case a of
              Inl e \<Rightarrow> State_Monad.return (None, Some e)
            | Inr v \<Rightarrow> stat_version_dir (path_Join [abs_path D, key, v])) Q) v"
    if v: "w_fs v = w_fs w" "K v" for v
    unfolding os_Readlink_def
  proof (rule wp_fs_call)
    fix a f
    assume "with_inode v False (abs_path (D @ [key, VersionCurrent]))
       (\<lambda>p i. case i_kind i of KLink t \<Rightarrow> Inr (t, w_fs v) | _ \<Rightarrow> Inl EINVAL) = Inr (a, f)"
    then obtain i where i: "fs_get (w_fs w) (D @ [key, VersionCurrent]) = Some i" "i_kind i = KLink a" "f = w_fs v"
      using r [OF v(1)] v(1) by (auto simp: call_results)
    show "wp (case Inr a of Inl e \<Rightarrow> State_Monad.return (None, Some e)
            | Inr v \<Rightarrow> stat_version_dir (path_Join [abs_path D, key, v])) Q ((tick v)\<lparr>w_fs := f\<rparr>)"
      unfolding i(3) tick_same_fs sum.case by (rule stat [OF _ _ i(1,2)]) (use v K(2) in simp_all)
  qed (use v K(2) none in simp)
  have w': "w_fs (tick w) = w_fs w" "K (tick w)" using K by simp_all
  show ?thesis
    unfolding StatComponentVersion_def Let_def j wp_bind [of "os_Stat (abs_path _)"]
    by (rule wp_os_Stat) (use link [OF w'] none [OF w'] in auto)
qed

text \<open>A remount changes the flags of a mount, no file.\<close>

definition remount_spares_files :: "world \<Rightarrow> bool" where
  "remount_spares_files w = (\<forall>m f. snd (w_mountfx w m f) = f)"

lemma wp_remount_rw:
  assumes "remount_spares_files w"
    and "\<And>r t. Q r (w\<lparr>w_trace := t\<rparr>)"
  shows "wp (remount_rw b dst) Q w"
proof (cases b)
  case True
  show ?thesis
    unfolding remount_rw_def if_P [OF True] Mount_remount
  proof (rule wp_sys_mount)
    show "Q (Inl e) (w\<lparr>w_trace := t\<rparr>)" for e t using assms(2) [of "Inl e" t] by simp
  next
    let ?req = "\<lparr>m_source = [], m_target = dst, m_fstype = ''none'', m_flags = MS_REMOUNT, m_data = []\<rparr>"
    fix f
    assume "w_mountfx w ?req (w_fs w) = (None, f)"
    then have "f = w_fs w" using assms(1) by (metis remount_spares_files_def snd_conv)
    then show "Q (Inr ()) (w\<lparr>w_fs := f, w_trace := w_trace w @ [EvMount ?req]\<rparr>)"
      using assms(2) by simp
  qed
next
  case False
  then show ?thesis using assms(2) [of _ "w_trace w"] by (simp add: remount_rw_def)
qed

lemma CopyComponent_outcome:
  assumes w: "wf_world w" "good_rand w" "component_dir (w_fs w) (D @ [key])" "remount_spares_files w"
    and src: "component_dir (w_fs w) (S @ [key])"
      "fs_get (w_fs w) (S @ [key, VersionCurrent]) = Some i" "i_kind i = KLink V"
    and V: "plain V" "V \<notin> {VersionCurrent, VersionPrevious, currentTemp}"
    and link: "\<And>i. fs_get (w_fs w) (D @ [key, VersionCurrent]) = Some i \<Longrightarrow> \<exists>t. i_kind i = KLink t"
  shows "wp (CopyComponent (abs_path S) (abs_path D) remount key) (switched w (D @ [key]) V) w"
proof -
  let ?B = "D @ [key]"
  let ?K = "\<lambda>v. wf_world v \<and> good_rand v \<and> remount_spares_files v"
  have K: "?K w" "\<And>v. ?K v \<Longrightarrow> ?K (tick v)" "\<And>v t. ?K v \<Longrightarrow> ?K (v\<lparr>w_trace := t\<rparr>)"
    using w(1,2,4) by (auto simp: wf_world_def sane_outside_def good_rand_def remount_spares_files_def)
  have pS: "\<forall>c \<in> set (S @ [key, V]). plain c" using src(1) V(1) by (auto simp: component_dir_def direct_def)
  have base: "path_Base (path_Join [abs_path S, key, V]) = V"
    using path_Join_elems [of S "[key, V]"] path_Base_abs [OF _ pS] pS by simp
  have same: "switched w ?B V r v" if "w_fs v = w_fs w" "?K v" "r \<noteq> Inr True" for r v
    using that w(3) by (auto simp: switched_def)
  have inst: "wp (install_version (abs_path S) (abs_path D) key \<lparr>fi_name = V, fi_inode = si\<rparr>) (switched w ?B V) v"
    if v: "w_fs v = w_fs w" "?K v" for v si
  proof -
    have "wp (install_version (abs_path S) (abs_path D) key \<lparr>fi_name = V, fi_inode = si\<rparr>) (switched v ?B V) v"
      by (rule install_version_switched) (use v w(3) V link in auto)
    moreover have "switched v ?B V = switched w ?B V" by (simp add: switched_def fun_eq_iff v(1))
    ultimately show ?thesis by simp
  qed
  have new: "wp (copy_if_new (abs_path S) (abs_path D) remount key \<lparr>fi_name = V, fi_inode = si\<rparr>) (switched w ?B V) v"
    if v: "w_fs v = w_fs w" "?K v" for v si
  proof -
    have "wp (do {
       m \<leftarrow> remount_rw remount (abs_path D);
       onok m (\<lambda>_. install_version (abs_path S) (abs_path D) key \<lparr>fi_name = V, fi_inode = si\<rparr>) })
       (switched w ?B V) u" if u: "w_fs u = w_fs w" "?K u" for u
      unfolding wp_bind [of "remount_rw _ _"]
    proof (rule wp_remount_rw)
      fix r :: "goerror + unit" and t
      let ?u = "u\<lparr>w_trace := t\<rparr>"
      have "w_fs ?u = w_fs w" "?K ?u" using u(1) K(3) [OF u(2)] by simp_all
      from inst [OF this] same [OF this]
      show "wp (onok r (\<lambda>_. install_version (abs_path S) (abs_path D) key \<lparr>fi_name = V, fi_inode = si\<rparr>)) (switched w ?B V) ?u"
        by (cases r) simp_all
    qed (use u in simp)
    note go = this
    have skip: "wp (do { _ \<leftarrow> emit ev; State_Monad.return (Inr False) }) (switched w ?B V) u"
      if u: "w_fs u = w_fs w" "?K u" for u ev
      using same [of "u\<lparr>w_trace := w_trace u @ [ev]\<rparr>" "Inr False"] u K(3) [OF u(2)] by (simp add: emit_def)
    show ?thesis
      unfolding copy_if_new_def wp_bind [of "StatComponentVersion _ _ _"]
    proof (rule wp_StatComponentVersion [where K = ?K])
      show "component_dir (w_fs v) ?B" using v w(3) by simp
    qed (use v K(2) same go skip in \<open>simp_all split: if_split\<close>)
  qed
  show ?thesis
    unfolding CopyComponent_def wp_bind [of "StatComponentVersion (abs_path S) _ _"]
  proof (rule wp_StatComponentVersion [where K = ?K, OF src(1) K(1,2)])
    fix v :: world and si j U
    assume v: "w_fs v = w_fs w" "?K v" and j: "fs_get (w_fs w) (S @ [key, VersionCurrent]) = Some j" "i_kind j = KLink U"
    have U: "U = V" using j src(2,3) by simp
    show "wp (case (Some \<lparr>fi_name = path_Base (path_Join [abs_path S, key, U]), fi_inode = si\<rparr>, None) of
        (_, Some e) \<Rightarrow> State_Monad.return (Inl e)
      | (None, None) \<Rightarrow> State_Monad.return (Inl (GoPanic ''nil pointer dereference''))
      | (Some srcInfo, None) \<Rightarrow> copy_if_new (abs_path S) (abs_path D) remount key srcInfo) (switched w ?B V) v"
      using new [OF v] by (simp add: U base)
  next
    fix v :: world and e and si :: "fileinfo option"
    assume "w_fs v = w_fs w" "?K v"
    from same [OF this]
    show "wp (case (si, Some e) of
        (_, Some e) \<Rightarrow> State_Monad.return (Inl e)
      | (None, None) \<Rightarrow> State_Monad.return (Inl (GoPanic ''nil pointer dereference''))
      | (Some srcInfo, None) \<Rightarrow> copy_if_new (abs_path S) (abs_path D) remount key srcInfo) (switched w ?B V) v"
      by (cases si) simp_all
  qed
qed

text \<open>
  C5. Whatever calls fail while a component is upgraded, nothing outside its directory in the
  destination changes, and its link \<^verbatim>\<open>current\<close> changes only together with success: then it names the
  version of the source, and the directory of that version is there.
\<close>

theorem CopyComponent_switches:
  assumes "wf_world w" "good_rand w" "component_dir (w_fs w) (D @ [key])" "remount_spares_files w"
    and "component_dir (w_fs w) (S @ [key])"
      "fs_get (w_fs w) (S @ [key, VersionCurrent]) = Some i" "i_kind i = KLink V"
    and "plain V" "V \<notin> {VersionCurrent, VersionPrevious, currentTemp}"
    and "\<And>i. fs_get (w_fs w) (D @ [key, VersionCurrent]) = Some i \<Longrightarrow> \<exists>t. i_kind i = KLink t"
    and "run_state (CopyComponent (abs_path S) (abs_path D) remount key) w = (r, w')"
  shows "(\<forall>q. \<not> strict_prefix (D @ [key]) q \<longrightarrow> fs_get (w_fs w') q = fs_get (w_fs w) q)
    \<and> (r = Inr True \<longrightarrow> (\<exists>j. fs_get (w_fs w') (D @ [key, VersionCurrent]) = Some j \<and> i_kind j = KLink V)
         \<and> is_dir (w_fs w') (D @ [key, V]))
    \<and> (r \<noteq> Inr True \<longrightarrow>
         fs_get (w_fs w') (D @ [key, VersionCurrent]) = fs_get (w_fs w) (D @ [key, VersionCurrent]))"
proof -
  have s: "switched w (D @ [key]) V r w'"
    using CopyComponent_outcome [OF assms(1-10)] assms(11) by (rule wpD)
  then have "spares {} (D @ [key]) (w_fs w) (w_fs w')" by (simp add: switched_def)
  moreover have "fs_get (w_fs w') (D @ [key, VersionCurrent]) = fs_get (w_fs w) (D @ [key, VersionCurrent])"
    if "r \<noteq> Inr True"
    using s that spares_get [of "{VersionCurrent}" "D @ [key]" "w_fs w" "w_fs w'" VersionCurrent]
    by (simp add: switched_def)
  ultimately show ?thesis using s by (auto simp: switched_def spares_def)
qed

text \<open>
  A link left under its temporary name, by an upgrade that was cut off before its deferred calls ran,
  blocks every later upgrade of the component.
\<close>

lemma install_version_stuck:
  assumes B: "component_dir (w_fs w) (D @ [key])" and left: "fs_get (w_fs w) (D @ [key, currentTemp]) \<noteq> None"
    and run: "run_state (install_version src (abs_path D) key si) w = (r, w')"
  shows "r \<noteq> Inr True \<and> w_fs w' = w_fs w"
proof -
  have pl: "\<forall>c \<in> set D. plain c" "plain key" using B by (auto simp: component_dir_def direct_def)
  have "path_Join [abs_path D, key, VersionCurrent] = abs_path ((D @ [key]) @ [VersionCurrent])"
    using path_Join_elems [OF pl(1), of "[key, VersionCurrent]"] pl(2) by simp
  then have "path_Join [abs_path D, key, VersionCurrent] @ ''.tmp'' = abs_path ((D @ [key]) @ [currentTemp])"
    by (simp only: abs_path_suffix) (simp add: VersionCurrent_def)
  then have "wp (install_version src (abs_path D) key si) (\<lambda>r v. r \<noteq> Inr True \<and> w_fs v = w_fs w) w"
    unfolding install_version_def Let_def wp_bind [of "os_Symlink _ _"]
    by (intro wp_os_Symlink) (use component_resolve [OF B plain_names(3)] left in auto)
  then show ?thesis using run by (rule wpD)
qed

definition link_inode :: "string \<Rightarrow> inode" where
  "link_inode t = \<lparr>i_kind = KLink t, i_mode = 511, i_uid = 0, i_gid = 0\<rparr>"

definition upgrade_fs :: fs where
  "upgrade_fs = [([], mkdir_inode), ([''s''], mkdir_inode), ([''s'', ''k3os''], mkdir_inode),
     ([''s'', ''k3os'', ''current''], link_inode ''v2''), ([''s'', ''k3os'', ''v2''], mkdir_inode),
     ([''s'', ''k3os'', ''v2'', ''init''], mkfile ''new''),
     ([''d''], mkdir_inode), ([''d'', ''k3os''], mkdir_inode), ([''d'', ''k3os'', ''v1''], mkdir_inode),
     ([''d'', ''k3os'', ''current''], link_inode ''v1'')]"

text \<open>A run in which the system call number \<open>n\<close> fails.\<close>

definition fails_at :: "nat \<Rightarrow> world \<Rightarrow> world" where
  "fails_at n w = w\<lparr>w_fault := \<lambda>k. if k = n then Some (EIO, 0) else None\<rparr>"

theorem CopyComponent_switches_witness:
  "let (r, w') = run_state (CopyComponent ''/s'' ''/d'' True ''k3os'') (fails_at 12 (calm_world upgrade_fs))
   in fs_get (w_fs w') [''s'', ''k3os'', ''v2'', ''init''] = Some (mkfile ''new'')
      \<and> (r \<noteq> Inr True \<longrightarrow> fs_get (w_fs w') [''d'', ''k3os'', ''current''] = Some (link_inode ''v1''))"
proof -
  let ?w = "fails_at 12 (calm_world upgrade_fs)"
  obtain r w' where run: "run_state (CopyComponent (abs_path [''s'']) (abs_path [''d'']) True ''k3os'') ?w = (r, w')"
    by fastforce
  have p: "abs_path [''s''] = ''/s''" "abs_path [''d''] = ''/d''" by (simp_all add: abs_path_def)
  have fs: "w_fs ?w = upgrade_fs" by (simp add: fails_at_def)
  have wf: "wf_world ?w"
    by (simp add: wf_world_def fs sane_outside_def)
      (simp add: fails_at_def calm_world_def upgrade_fs_def wf_fs_def is_dir_def mkdir_inode_def)
  have "(\<forall>q. \<not> strict_prefix ([''d''] @ [''k3os'']) q \<longrightarrow> fs_get (w_fs w') q = fs_get (w_fs ?w) q)
    \<and> (r = Inr True \<longrightarrow> (\<exists>j. fs_get (w_fs w') ([''d''] @ [''k3os'', VersionCurrent]) = Some j \<and> i_kind j = KLink ''v2'')
         \<and> is_dir (w_fs w') ([''d''] @ [''k3os'', ''v2'']))
    \<and> (r \<noteq> Inr True \<longrightarrow>
         fs_get (w_fs w') ([''d''] @ [''k3os'', VersionCurrent]) = fs_get (w_fs ?w) ([''d''] @ [''k3os'', VersionCurrent]))"
    by (rule CopyComponent_switches [OF wf _ _ _ _ _ _ _ _ _ run, where i = "link_inode ''v2''"])
      (auto simp: fs upgrade_fs_def good_rand_def fails_at_def is_digit_def component_dir_def direct_def is_dir_def
        mkdir_inode_def link_inode_def plain_def less_Suc_eq VersionCurrent_def VersionPrevious_def
        remount_spares_files_def calm_world_def)
  then have "fs_get (w_fs w') [''s'', ''k3os'', ''v2'', ''init''] = fs_get upgrade_fs [''s'', ''k3os'', ''v2'', ''init'']
    \<and> (r \<noteq> Inr True \<longrightarrow>
         fs_get (w_fs w') [''d'', ''k3os'', ''current''] = fs_get upgrade_fs [''d'', ''k3os'', ''current''])"
    by (simp add: fs VersionCurrent_def)
  then show ?thesis using run unfolding p by (simp add: upgrade_fs_def)
qed

text \<open>
  A directory that has once been moved out of the way stays under its name with \<^verbatim>\<open>.old\<close>: installing the same version
  a second time cannot move the directory there again.
\<close>

definition replaced_fs :: fs where
  "replaced_fs = upgrade_fs @ [([''d'', ''k3os'', ''v2''], mkdir_inode), ([''d'', ''k3os'', ''v2.old''], mkdir_inode),
     ([''d'', ''k3os'', ''v2.old'', ''init''], mkfile ''older'')]"

lemma old_directory_blocks:
  "fst (run_state (CopyComponent ''/s'' ''/d'' False ''k3os'') (calm_world replaced_fs)) = Inl (Errno EEXIST)"
  by code_simp

end
