(* ===== verification/Upgrade.thy ===== *)
theory Upgrade
  imports Component
begin

text \<open>
  \<^verbatim>\<open>pkg/cli/upgrade/upgrade.go\<close>: the \<^verbatim>\<open>upgrade\<close> command. Its flags are package variables, here a record;
  the parsing of the command line is the library's.
\<close>

section \<open>The code\<close>

record upgrade_flags =
  upgradeK3OS :: bool
  upgradeK3S :: bool
  upgradeKernel :: bool
  upgradeRootFS :: bool
  doRemount :: bool
  doSync :: bool
  doReboot :: bool
  sourceDir :: string
  destinationDir :: string
  lockFile :: string

text \<open>What the system says of the lock and of the path of \<^verbatim>\<open>nsenter\<close>.\<close>

record upgrade_env =
  u_flock :: "goerror option"
  u_lookpath :: "goerror option"

text \<open>\<open>Before\<close>: the flags with \<open>rootfs\<close> spelled out, or the message with which the process exits.\<close>

definition upgrade_Before :: "upgrade_flags \<Rightarrow> string + upgrade_flags" where
  "upgrade_Before u =
     (if destinationDir u = sourceDir u
      then Inl (''the `destination` cannot be the `source`: '' @ destinationDir u)
      else let u' = (if upgradeRootFS u then u\<lparr>upgradeK3S := True, upgradeK3OS := True\<rparr> else u)
           in if \<not> upgradeK3OS u' \<and> \<not> upgradeK3S u' \<and> \<not> upgradeKernel u'
              then Inl ''must specify components to upgrade, e.g. `rootfs`, `kernel`'' else Inr u')"

definition validateSystemRoot :: "string \<Rightarrow> unit os" where
  "validateSystemRoot root = do {
     info \<leftarrow> os_Stat root;
     State_Monad.return (case info of
       Inl e \<Rightarrow> Inl e
     | Inr i \<Rightarrow> if IsDir i then Inr () else Inl (not_a_directory root)) }"

text \<open>One component: the flags whether any component was copied and whether to remount go along.\<close>

definition upgrade_component :: "upgrade_flags \<Rightarrow> bool \<Rightarrow> string \<Rightarrow> bool \<times> bool \<Rightarrow> (world, bool \<times> bool) state" where
  "upgrade_component u wanted key st =
     (if \<not> wanted then State_Monad.return st
      else do {
        copied \<leftarrow> CopyComponent (sourceDir u) (destinationDir u) (snd st) key;
        (case copied of
           Inl e \<Rightarrow> do { _ \<leftarrow> emit (EvLog e); State_Monad.return st }
         | Inr True \<Rightarrow> State_Monad.return (True, False)
         | Inr False \<Rightarrow> State_Monad.return st) })"

definition nsenter_reboot :: cmd where
  "nsenter_reboot = Command ''nsenter'' [''-m'', ''-u'', ''-i'', ''-n'', ''-p'', ''-t'', ''1'', ''reboot'']"

text \<open>\<open>fin\<close>: what is deferred and runs unless the process exits.\<close>

definition upgrade_reboot :: "upgrade_env \<Rightarrow> upgrade_flags \<Rightarrow> (world, unit) state \<Rightarrow> (world, unit) state" where
  "upgrade_reboot env u fin = do {
     let run = (do { r \<leftarrow> cmd_Run nsenter_reboot; or_fatal r (\<lambda>_. fin) });
     (case u_lookpath env of
        None \<Rightarrow> run
      | Some e \<Rightarrow> do {
          _ \<leftarrow> emit (EvLog e);
          if destinationDir u = RootPath [] then run
          else do {
            c \<leftarrow> sys_Chroot (path_Clean (path_Join [destinationDir u, ''..'', ''..'']));
            or_fatal c (\<lambda>_. do {
              d \<leftarrow> os_Chdir ''/'';
              or_fatal d (\<lambda>_. run) }) } }) }"

definition upgrade_components :: "upgrade_flags \<Rightarrow> (world, bool \<times> bool) state" where
  "upgrade_components u = do {
     s1 \<leftarrow> upgrade_component u (upgradeK3OS u) ''k3os'' (False, doRemount u);
     s2 \<leftarrow> upgrade_component u (upgradeK3S u) ''k3s'' s1;
     upgrade_component u (upgradeKernel u) ''kernel'' s2 }"

definition upgrade_Run :: "upgrade_env \<Rightarrow> upgrade_flags \<Rightarrow> (world, unit) state" where
  "upgrade_Run env u = do {
     v1 \<leftarrow> validateSystemRoot (sourceDir u);
     or_fatal v1 (\<lambda>_. do {
       v2 \<leftarrow> validateSystemRoot (destinationDir u);
       or_fatal v2 (\<lambda>_. do {
         lf \<leftarrow> os_OpenTrunc (lockFile u) 420;
         or_fatal lf (\<lambda>lf.
           (case u_flock env of
              Some e \<Rightarrow> fatal e
            | None \<Rightarrow> do {
                st \<leftarrow> upgrade_components u;
                _ \<leftarrow> (if fst st \<and> doSync u then emit EvSync else State_Monad.return ());
                let fin = (do { _ \<leftarrow> fd_Close lf; State_Monad.return () });
                if fst st \<and> doReboot u then upgrade_reboot env u fin else fin })) }) }) }"

lemma program_validateSystemRoot [program_intros]: "program (validateSystemRoot root)"
  unfolding validateSystemRoot_def by (intro program_intros)

lemma program_upgrade_component [program_intros]: "program (upgrade_component u b key st)"
  unfolding upgrade_component_def by (intro program_intros)

lemma program_upgrade_reboot [program_intros]: "program fin \<Longrightarrow> program (upgrade_reboot env u fin)"
  unfolding upgrade_reboot_def Let_def by (intro program_intros)

lemma program_upgrade_Run [program_intros]: "program (upgrade_Run env u)"
  unfolding upgrade_Run_def upgrade_components_def Let_def by (intro program_intros)

section \<open>Several components\<close>

text \<open>What an upgrade of one component asks of the two trees.\<close>

definition upgradable :: "path \<Rightarrow> path \<Rightarrow> (string \<Rightarrow> string) \<Rightarrow> fs \<Rightarrow> string \<Rightarrow> bool" where
  "upgradable S D vs f key = (component_dir f (D @ [key]) \<and> component_dir f (S @ [key])
     \<and> (\<exists>i. fs_get f (S @ [key, VersionCurrent]) = Some i \<and> i_kind i = KLink (vs key))
     \<and> plain (vs key) \<and> vs key \<notin> {VersionCurrent, VersionPrevious, currentTemp}
     \<and> (\<forall>i. fs_get f (D @ [key, VersionCurrent]) = Some i \<longrightarrow> (\<exists>t. i_kind i = KLink t)))"

definition same_current :: "path \<Rightarrow> string \<Rightarrow> fs \<Rightarrow> fs \<Rightarrow> bool" where
  "same_current D key f g = (fs_get g (D @ [key, VersionCurrent]) = fs_get f (D @ [key, VersionCurrent]))"

definition is_current :: "path \<Rightarrow> string \<Rightarrow> string \<Rightarrow> fs \<Rightarrow> bool" where
  "is_current D key V f = ((\<exists>i. fs_get f (D @ [key, VersionCurrent]) = Some i \<and> i_kind i = KLink V)
     \<and> is_dir f (D @ [key, V]))"

text \<open>The worlds an upgrade may meet: whatever fails, remounting changes no file.\<close>

definition fit_world :: "world \<Rightarrow> bool" where
  "fit_world w = (wf_world w \<and> good_rand w \<and> remount_spares_files w)"

lemma kstep_remount: "kstep w v \<Longrightarrow> remount_spares_files v = remount_spares_files w"
  by (induction rule: kstep.induct) (simp_all add: remount_spares_files_def tick_def)

lemma kstep_good_rand: "kstep w v \<Longrightarrow> good_rand v = good_rand w"
  by (induction rule: kstep.induct) (simp_all add: good_rand_def tick_def)

interpretation fit: kernel_invariant fit_world
  by unfold_locales (simp add: fit_world_def kstep_wf_world kstep_remount kstep_good_rand)

lemma fit_parts: "fit_world w \<Longrightarrow> wf_world w" "fit_world w \<Longrightarrow> good_rand w"
  "fit_world w \<Longrightarrow> remount_spares_files w"
  by (simp_all add: fit_world_def)

lemma upgrade_CopyComponent:
  assumes "fit_world w" "upgradable S D vs (w_fs w) key"
  shows "wp (CopyComponent (abs_path S) (abs_path D) remount key)
     (\<lambda>r v. switched w (D @ [key]) (vs key) r v \<and> fit_world v) w"
proof (rule fit.wp_keeps [OF program_CopyComponent assms(1)])
  obtain i where "fs_get (w_fs w) (S @ [key, VersionCurrent]) = Some i" "i_kind i = KLink (vs key)"
    using assms(2) by (auto simp: upgradable_def)
  then show "wp (CopyComponent (abs_path S) (abs_path D) remount key) (switched w (D @ [key]) (vs key)) w"
    using assms by (intro CopyComponent_outcome [of w D key S i "vs key"]) (auto simp: fit_world_def upgradable_def)
qed

text \<open>Apart from each other: the trees, and so the directories of the components.\<close>

lemma not_below_other: "key \<noteq> k \<Longrightarrow> \<not> prefix (D @ [key]) (D @ k # q)"
  by (simp add: prefix_def)

lemma not_below_apart: "\<not> prefix D S \<Longrightarrow> \<not> prefix S D \<Longrightarrow> \<not> prefix (D @ [key]) (S @ q)"
  by (meson append_prefixD prefix_same_cases prefixI prefix_order.trans)

lemma component_dir_same:
  assumes "component_dir f B" "\<And>q. prefix q B \<Longrightarrow> fs_get g q = fs_get f q"
  shows "component_dir g B"
  using assms(1) by (simp add: component_dir_def direct_def is_dir_def assms(2) take_is_prefix)

lemma upgradable_kept:
  assumes "upgradable S D vs f k" "spares {} (D @ [key]) f g" "key \<noteq> k" "\<not> prefix D S" "\<not> prefix S D"
  shows "upgradable S D vs g k"
proof -
  have get: "fs_get g q = fs_get f q" if "\<not> prefix (D @ [key]) q" for q
    using assms(2) that by (auto simp: spares_def strict_prefix_def)
  have D: "component_dir g (D @ [k])"
  proof (rule component_dir_same [OF _ get])
    show "component_dir f (D @ [k])" using assms(1) by (simp add: upgradable_def)
    show "\<not> prefix (D @ [key]) q" if "prefix q (D @ [k])" for q
      using that assms(3) not_below_other [of key k D "[]"] prefix_order.trans by blast
  qed
  have S: "component_dir g (S @ [k])"
  proof (rule component_dir_same [OF _ get])
    show "component_dir f (S @ [k])" using assms(1) by (simp add: upgradable_def)
    show "\<not> prefix (D @ [key]) q" if "prefix q (S @ [k])" for q
      using that not_below_apart [OF assms(4,5), of key "[k]"] prefix_order.trans by blast
  qed
  have "fs_get g (S @ [k, VersionCurrent]) = fs_get f (S @ [k, VersionCurrent])"
    by (rule get) (rule not_below_apart [OF assms(4,5)])
  moreover have "fs_get g (D @ [k, VersionCurrent]) = fs_get f (D @ [k, VersionCurrent])"
    by (rule get) (rule not_below_other [OF assms(3)])
  ultimately show ?thesis
    using assms(1) D S by (simp add: upgradable_def)
qed

lemma same_current_kept: "spares {} (D @ [key]) f g \<Longrightarrow> key \<noteq> k \<Longrightarrow> same_current D k f g"
  using not_below_other [of key k D "[VersionCurrent]"]
  by (auto simp: same_current_def spares_def strict_prefix_def)

lemma is_current_kept: "spares {} (D @ [key]) f g \<Longrightarrow> key \<noteq> k \<Longrightarrow> is_current D k V g = is_current D k V f"
  using not_below_other [of key k D "[VersionCurrent]"] not_below_other [of key k D "[V]"]
  by (auto simp: is_current_def is_dir_def spares_def strict_prefix_def)

text \<open>
  After the components \<open>ks\<close>: no flag, no change of a link; with the flag, one of the wanted ones has been
  switched.
\<close>

definition upgraded :: "path \<Rightarrow> path \<Rightarrow> (string \<Rightarrow> string) \<Rightarrow> string list \<Rightarrow> string set \<Rightarrow> fs \<Rightarrow> bool \<times> bool \<Rightarrow> world \<Rightarrow> bool" where
  "upgraded S D vs ks todo f st v = (fit_world v \<and> (\<forall>k \<in> todo. upgradable S D vs (w_fs v) k)
     \<and> (\<forall>k \<in> todo. same_current D k f (w_fs v))
     \<and> (\<forall>k \<in> set ks. same_current D k f (w_fs v) \<or> is_current D k (vs k) (w_fs v))
     \<and> (\<forall>q. (\<forall>k \<in> set ks. \<not> strict_prefix (D @ [k]) q) \<longrightarrow> fs_get (w_fs v) q = fs_get f q)
     \<and> (if fst st then \<exists>k \<in> set ks. is_current D k (vs k) (w_fs v) else \<forall>k \<in> set ks. same_current D k f (w_fs v)))"

lemma upgraded_trace [simp]: "upgraded S D vs ks todo f st (v\<lparr>w_trace := t\<rparr>) = upgraded S D vs ks todo f st v"
  by (simp add: upgraded_def fit_world_def wf_world_def sane_outside_def good_rand_def remount_spares_files_def)

text \<open>One component more: what an upgrade of it leaves.\<close>

lemma upgraded_after_switch:
  assumes v: "upgraded S D vs ks (insert key todo) f st v" and new: "key \<notin> set ks" "key \<notin> todo"
    and apart: "\<not> prefix D S" "\<not> prefix S D"
    and x: "switched v (D @ [key]) (vs key) r x \<and> fit_world x"
    and st': "st' = (if r = Inr True then (True, False) else st)"
  shows "upgraded S D vs (key # ks) todo f st' x"
proof -
  have sp: "spares {} (D @ [key]) (w_fs v) (w_fs x)" using x by (simp add: switched_def)
  have key: "if r = Inr True then is_current D key (vs key) (w_fs x) else same_current D key f (w_fs x)"
  proof (cases "r = Inr True")
    case False
    then have "fs_get (w_fs x) ((D @ [key]) @ [VersionCurrent]) = fs_get (w_fs v) ((D @ [key]) @ [VersionCurrent])"
      using x by (intro spares_get [of "{VersionCurrent}"]) (simp_all add: switched_def)
    then show ?thesis using False v by (simp add: same_current_def upgraded_def)
  qed (use x in \<open>simp add: switched_def is_current_def\<close>)
  have old: "same_current D k f (w_fs x) = same_current D k f (w_fs v)"
      "is_current D k (vs k) (w_fs x) = is_current D k (vs k) (w_fs v)" if "k \<noteq> key" for k
    using same_current_kept [OF sp that [symmetric]] is_current_kept [OF sp that [symmetric]]
    by (simp_all add: same_current_def)
  have ne: "k \<noteq> key" if "k \<in> set ks \<union> todo" for k using that new by blast
  have "fs_get (w_fs x) q = fs_get f q" if "\<forall>k \<in> set (key # ks). \<not> strict_prefix (D @ [k]) q" for q
    using that sp v by (simp add: upgraded_def spares_def)
  moreover have "upgradable S D vs (w_fs x) k" if "k \<in> todo" for k
  proof (rule upgradable_kept [OF _ sp _ apart])
    show "upgradable S D vs (w_fs v) k" using v that by (simp add: upgraded_def)
    show "key \<noteq> k" using ne [of k] that by blast
  qed
  moreover have "same_current D k f (w_fs x)" if "k \<in> todo" for k
    using old(1) [OF ne [of k]] v that by (simp add: upgraded_def)
  moreover have "same_current D k f (w_fs x) \<or> is_current D k (vs k) (w_fs x)" if "k \<in> set ks" for k
    using old [OF ne [of k]] v that by (simp add: upgraded_def)
  moreover have "if fst st' then \<exists>k \<in> set (key # ks). is_current D k (vs k) (w_fs x)
      else \<forall>k \<in> set (key # ks). same_current D k f (w_fs x)"
    using v key old ne unfolding upgraded_def st' by (cases "r = Inr True"; cases "fst st") auto
  ultimately show ?thesis
    using x key unfolding upgraded_def by (cases "r = Inr True") auto
qed

lemma upgrade_component_upgraded:
  assumes v: "upgraded S D vs ks (insert key todo) f st v" and new: "key \<notin> set ks" "key \<notin> todo"
    and apart: "\<not> prefix D S" "\<not> prefix S D" and u: "sourceDir u = abs_path S" "destinationDir u = abs_path D"
  shows "wp (upgrade_component u wanted key st)
     (\<lambda>st' x. upgraded S D vs (if wanted then key # ks else ks) todo f st' x) v"
proof (cases wanted)
  case True
  have up: "fit_world v" "upgradable S D vs (w_fs v) key" using v by (simp_all add: upgraded_def)
  have "wp (CopyComponent (abs_path S) (abs_path D) (snd st) key)
      (\<lambda>r. wp (case r of
           Inl e \<Rightarrow> do { _ \<leftarrow> emit (EvLog e); State_Monad.return st }
         | Inr True \<Rightarrow> State_Monad.return (True, False)
         | Inr False \<Rightarrow> State_Monad.return st) (upgraded S D vs (key # ks) todo f)) v"
  proof (rule wp_mono [OF upgrade_CopyComponent [OF up]])
    fix r x
    assume "switched v (D @ [key]) (vs key) r x \<and> fit_world x"
    from upgraded_after_switch [OF v new apart this refl]
    show "wp (case r of
           Inl e \<Rightarrow> do { _ \<leftarrow> emit (EvLog e); State_Monad.return st }
         | Inr True \<Rightarrow> State_Monad.return (True, False)
         | Inr False \<Rightarrow> State_Monad.return st) (upgraded S D vs (key # ks) todo f) x"
      by (cases r) (auto simp: emit_def split: bool.split)
  qed
  then show ?thesis using True by (simp add: upgrade_component_def u)
next
  case False
  then show ?thesis using v by (auto simp: upgrade_component_def upgraded_def)
qed

definition wanted_components :: "upgrade_flags \<Rightarrow> string list" where
  "wanted_components u = (if upgradeKernel u then [''kernel''] else []) @ (if upgradeK3S u then [''k3s''] else [])
     @ (if upgradeK3OS u then [''k3os''] else [])"

lemma upgrade_components_upgraded:
  assumes "fit_world w" "\<forall>k \<in> set (wanted_components u). upgradable S D vs (w_fs w) k"
    and "\<not> prefix D S" "\<not> prefix S D" "sourceDir u = abs_path S" "destinationDir u = abs_path D"
  shows "wp (upgrade_components u) (upgraded S D vs (wanted_components u) {} (w_fs w)) w"
proof -
  let ?on = "\<lambda>b k. if b then [k] else [] :: string list"
  let ?s = "\<lambda>b k. if b then {k} else {} :: string set"
  note step = upgrade_component_upgraded [OF _ _ _ assms(3-6)]
  have one: "wp (upgrade_component u b key st)
      (\<lambda>st' x. upgraded S D vs (?on b key @ ks) todo (w_fs w) st' x) v"
    if "upgraded S D vs ks (?s b key \<union> todo) (w_fs w) st v" "key \<notin> set ks" "key \<notin> todo" for b key st ks todo v
  proof (cases b)
    case True
    have "upgraded S D vs ks (insert key todo) (w_fs w) st v" using that(1) True by simp
    from step [OF this that(2,3), of b] show ?thesis using True by simp
  next
    case False
    then show ?thesis using that(1) by (simp add: upgrade_component_def)
  qed
  have 0: "upgraded S D vs [] (?s (upgradeK3OS u) ''k3os'' \<union> (?s (upgradeK3S u) ''k3s'' \<union> ?s (upgradeKernel u) ''kernel''))
      (w_fs w) (False, doRemount u) w"
    using assms(1,2) by (simp add: upgraded_def same_current_def wanted_components_def)
  show ?thesis
    unfolding upgrade_components_def wp_bind
  proof (rule wp_mono [OF one [OF 0]])
    fix st1 v1
    assume "upgraded S D vs (?on (upgradeK3OS u) ''k3os'' @ []) (?s (upgradeK3S u) ''k3s'' \<union> ?s (upgradeKernel u) ''kernel'')
        (w_fs w) st1 v1"
    from one [OF this]
    show "wp (upgrade_component u (upgradeK3S u) ''k3s'' st1)
        (\<lambda>st2. wp (upgrade_component u (upgradeKernel u) ''kernel'' st2)
          (upgraded S D vs (wanted_components u) {} (w_fs w))) v1"
    proof (rule wp_mono)
      fix st2 v2
      assume "upgraded S D vs (?on (upgradeK3S u) ''k3s'' @ ?on (upgradeK3OS u) ''k3os'' @ [])
          (?s (upgradeKernel u) ''kernel'') (w_fs w) st2 v2"
      then have "upgraded S D vs (?on (upgradeK3S u) ''k3s'' @ ?on (upgradeK3OS u) ''k3os'' @ [])
          (?s (upgradeKernel u) ''kernel'' \<union> {}) (w_fs w) st2 v2" by simp
      from one [OF this]
      show "wp (upgrade_component u (upgradeKernel u) ''kernel'' st2)
          (upgraded S D vs (wanted_components u) {} (w_fs w)) v2"
        by (rule wp_mono) (auto simp: wanted_components_def)
    qed auto
  qed auto
qed

section \<open>Properties\<close>

text \<open>
  C15. The upgrade of several components, whatever calls fail: the flag that lets the command sync and
  reboot is set only if the link \<^verbatim>\<open>current\<close> of some wanted component names the version of the source, and
  without it every link is what it was; nothing outside the wanted components' directories changes.
\<close>

theorem upgrade_components_flag:
  assumes "fit_world w" "\<forall>k \<in> set (wanted_components u). upgradable S D vs (w_fs w) k"
    and "\<not> prefix D S" "\<not> prefix S D" "sourceDir u = abs_path S" "destinationDir u = abs_path D"
    and "run_state (upgrade_components u) w = ((copied, remount), w')"
  shows "(if copied then \<exists>k \<in> set (wanted_components u). is_current D k (vs k) (w_fs w')
          else \<forall>k \<in> set (wanted_components u). same_current D k (w_fs w) (w_fs w'))
     \<and> (\<forall>q. (\<forall>k \<in> set (wanted_components u). \<not> strict_prefix (D @ [k]) q) \<longrightarrow>
           fs_get (w_fs w') q = fs_get (w_fs w) q)"
  using wpD [OF upgrade_components_upgraded [OF assms(1-6)] assms(7)] by (simp add: upgraded_def)

definition upgrade_demo :: upgrade_flags where
  "upgrade_demo = \<lparr>upgradeK3OS = True, upgradeK3S = False, upgradeKernel = False, upgradeRootFS = False,
     doRemount = True, doSync = True, doReboot = False, sourceDir = ''/s'', destinationDir = ''/d'',
     lockFile = ''/lock''\<rparr>"

lemma upgrade_fs_fit:
  "fit_world (fails_at n (calm_world upgrade_fs))"
  "upgradable [''s''] [''d''] (\<lambda>_. ''v2'') upgrade_fs ''k3os''"
proof -
  have "wf_fs upgrade_fs"
    by (simp add: upgrade_fs_def wf_fs_def is_dir_def mkdir_inode_def)
  then show "fit_world (fails_at n (calm_world upgrade_fs))"
    by (simp add: fit_world_def wf_world_def sane_outside_def good_rand_def remount_spares_files_def fails_at_def
        calm_world_def is_digit_def)
  show "upgradable [''s''] [''d''] (\<lambda>_. ''v2'') upgrade_fs ''k3os''"
    by (auto simp: upgradable_def upgrade_fs_def component_dir_def direct_def is_dir_def mkdir_inode_def link_inode_def
        plain_def less_Suc_eq VersionCurrent_def VersionPrevious_def)
qed

theorem upgrade_components_flag_witness:
  "let ((copied, _), w') = run_state (upgrade_components upgrade_demo) (fails_at 12 (calm_world upgrade_fs))
   in copied \<or> fs_get (w_fs w') [''d'', ''k3os'', ''current''] = Some (link_inode ''v1'')"
proof -
  let ?w = "fails_at 12 (calm_world upgrade_fs)"
  obtain copied remount w' where run: "run_state (upgrade_components upgrade_demo) ?w = ((copied, remount), w')"
    by (metis surj_pair)
  have fs: "w_fs ?w = upgrade_fs" by (simp add: fails_at_def)
  have k: "wanted_components upgrade_demo = [''k3os'']" by (simp add: wanted_components_def upgrade_demo_def)
  have "(if copied then \<exists>k \<in> set (wanted_components upgrade_demo). is_current [''d''] k ''v2'' (w_fs w')
          else \<forall>k \<in> set (wanted_components upgrade_demo). same_current [''d''] k (w_fs ?w) (w_fs w'))
     \<and> (\<forall>q. (\<forall>k \<in> set (wanted_components upgrade_demo). \<not> strict_prefix ([''d''] @ [k]) q) \<longrightarrow>
           fs_get (w_fs w') q = fs_get (w_fs ?w) q)"
    by (rule upgrade_components_flag [OF upgrade_fs_fit(1) _ _ _ _ _ run, where S = "[''s'']" and vs = "\<lambda>_. ''v2''"])
      (simp_all only: k fs, simp_all add: upgrade_fs_fit(2) upgrade_demo_def abs_path_def)
  then have "\<not> copied \<longrightarrow> fs_get (w_fs w') [''d'', ''k3os'', ''current''] = fs_get upgrade_fs [''d'', ''k3os'', ''current'']"
    by (cases copied) (simp_all add: fs k same_current_def VersionCurrent_def)
  then have "copied \<or> fs_get (w_fs w') [''d'', ''k3os'', ''current''] = Some (link_inode ''v1'')"
    by (simp add: upgrade_fs_def disj_imp)
  then show ?thesis using run by simp
qed

text \<open>The command exits with a message and touches nothing but the lock file.\<close>

definition gave_up :: "upgrade_flags \<Rightarrow> world \<Rightarrow> world \<Rightarrow> bool" where
  "gave_up u w v = ((\<exists>e. w_trace v = w_trace w @ [EvLog e, EvExit 1])
     \<and> (\<forall>q. resolve w True (lockFile u) \<noteq> Inr q \<longrightarrow> fs_get (w_fs v) q = fs_get (w_fs w) q))"

lemma wp_fatal:
  "w_trace v = w_trace w \<Longrightarrow> \<forall>q. resolve w True (lockFile u) \<noteq> Inr q \<longrightarrow> fs_get (w_fs v) q = fs_get (w_fs w) q \<Longrightarrow>
   wp (fatal e) (\<lambda>_. gave_up u w) v"
  by (simp add: fatal_def emit_def gave_up_def)

lemma wp_validateSystemRoot: "(\<And>r. Q r (tick v)) \<Longrightarrow> wp (validateSystemRoot root) Q v"
  unfolding validateSystemRoot_def wp_bind wp_fun by (rule wp_os_Stat) simp_all

text \<open>
  C34. While another process holds the lock, \<open>upgrade\<close> upgrades nothing: it exits with status 1, and no file
  but the lock file itself has changed.
\<close>

theorem upgrade_Run_locked:
  assumes "u_flock env = Some e" "run_state (upgrade_Run env u) w = ((), w')"
  shows "(\<exists>e. w_trace w' = w_trace w @ [EvLog e, EvExit 1])
     \<and> (\<forall>q. resolve w True (lockFile u) \<noteq> Inr q \<longrightarrow> fs_get (w_fs w') q = fs_get (w_fs w) q)"
proof -
  let ?G = "\<lambda>_ :: unit. gave_up u w"
  have locked: "wp (do { lf \<leftarrow> os_OpenTrunc (lockFile u) 420; or_fatal lf (\<lambda>lf. case u_flock env of
              Some e \<Rightarrow> fatal e | None \<Rightarrow> k lf) }) ?G (tick (tick w))" for k
    unfolding wp_bind
  proof (rule wp_os_OpenTrunc, goal_cases)
    case (1 e)
    show ?case unfolding or_fatal_def sum.case by (rule wp_fatal) simp_all
  next
    case (2 p i c)
    show ?case unfolding or_fatal_def sum.case assms(1) option.case by (rule wp_fatal) (use 2 in auto)
  next
    case (3 p)
    show ?case unfolding or_fatal_def sum.case assms(1) option.case by (rule wp_fatal) simp_all
  qed
  have "wp (upgrade_Run env u) ?G w"
    unfolding upgrade_Run_def wp_bind [of "validateSystemRoot _"]
  proof (rule wp_validateSystemRoot)
    fix r
    have "wp (do { v2 \<leftarrow> validateSystemRoot (destinationDir u); or_fatal v2 (\<lambda>_. do {
         lf \<leftarrow> os_OpenTrunc (lockFile u) 420; or_fatal lf (\<lambda>lf. case u_flock env of
              Some e \<Rightarrow> fatal e | None \<Rightarrow> k lf) }) }) ?G (tick w)" for k
      unfolding wp_bind [of "validateSystemRoot _"]
    proof (rule wp_validateSystemRoot)
      fix r
      show "wp (or_fatal r (\<lambda>_. do {
         lf \<leftarrow> os_OpenTrunc (lockFile u) 420; or_fatal lf (\<lambda>lf. case u_flock env of
              Some e \<Rightarrow> fatal e | None \<Rightarrow> k lf) })) ?G (tick (tick w))"
        using locked wp_fatal [of "tick (tick w)" w u] by (cases r) (simp_all add: or_fatal_def)
    qed
    note go = this
    show "wp (or_fatal r (\<lambda>_. do {
       v2 \<leftarrow> validateSystemRoot (destinationDir u);
       or_fatal v2 (\<lambda>_. do {
         lf \<leftarrow> os_OpenTrunc (lockFile u) 420;
         or_fatal lf (\<lambda>lf.
           (case u_flock env of
              Some e \<Rightarrow> fatal e
            | None \<Rightarrow> do {
                st \<leftarrow> upgrade_components u;
                _ \<leftarrow> (if fst st \<and> doSync u then emit EvSync else State_Monad.return ());
                let fin = (do { _ \<leftarrow> fd_Close lf; State_Monad.return () });
                if fst st \<and> doReboot u then upgrade_reboot env u fin else fin })) }) })) ?G (tick w)"
    proof (cases r)
      case (Inl e)
      show ?thesis unfolding Inl or_fatal_def [of "Inl e"] sum.case by (rule wp_fatal) simp_all
    next
      case (Inr x)
      show ?thesis unfolding Inr or_fatal_def [of "Inr x"] sum.case by (rule go)
    qed
  qed
  from wpD [OF this assms(2)] show ?thesis by (simp add: gave_up_def)
qed

theorem upgrade_Run_locked_witness:
  "\<exists>e. w_trace (snd (run_state (upgrade_Run \<lparr>u_flock = Some (Errno EWOULDBLOCK), u_lookpath = None\<rparr> upgrade_demo)
      (calm_world upgrade_fs))) = [EvLog e, EvExit 1]"
proof -
  let ?m = "run_state (upgrade_Run \<lparr>u_flock = Some (Errno EWOULDBLOCK), u_lookpath = None\<rparr> upgrade_demo) (calm_world upgrade_fs)"
  have "?m = ((), snd ?m)" by (cases ?m) simp
  from upgrade_Run_locked [OF _ this, of "Errno EWOULDBLOCK"] show ?thesis by (simp add: calm_world_def)
qed

end
