(* ===== verification/Prompt.thy ===== *)
theory Prompt
  imports GoOS
begin

text \<open>
  The masked password prompt of \<^verbatim>\<open>pkg/util/prompt.go\<close>, and the line editor it amounts to.
\<close>

section \<open>The code\<close>

text \<open>
  Standard input is the list of the chunks the coming \<open>read\<close> calls return, then end of file.
  \<open>getCharacter\<close> reads one byte; the rest of its chunk stays for the next read.
\<close>

fun getCharacter :: "string list \<Rightarrow> (goerror + char) \<times> string list" where
  "getCharacter [] = (Inl ErrEOF, [])"
| "getCharacter ([] # cs) = getCharacter cs"
| "getCharacter ((c # s) # cs) = (Inr c, if s = [] then cs else s # cs)"

definition maxBytes :: nat where "maxBytes = 512"

text \<open>
  The loop of \<open>MaskPassword\<close>: \<open>n\<close> is the number of rounds left (the counter \<open>i\<close> runs from 0 to
  \<open>maxBytes\<close>), \<open>p\<close> the password so far, \<open>out\<close> what was echoed. The value is the password with the
  error, if any.
\<close>

primrec mask_loop :: "nat \<Rightarrow> string list \<Rightarrow> string \<Rightarrow> string
    \<Rightarrow> (string \<times> goerror option) \<times> string list \<times> string" where
  "mask_loop 0 inp p out =
     ((p, Some (ErrMsg (''maximum password length is '' @ Itoa (int maxBytes) @ '' bytes''))), inp, out)"
| "mask_loop (Suc n) inp p out =
     (case getCharacter inp of
        (Inl e, inp') \<Rightarrow> ((p, Some e), inp', out)
      | (Inr v, inp') \<Rightarrow>
          if v = CHR 0x7F \<or> v = CHR 0x08 then
            (if p \<noteq> [] then mask_loop n inp' (butlast p) (out @ [CHR 0x08, CHR '' '', CHR 0x08])
             else mask_loop n inp' p out)
          else if v = CHR 0x0D \<or> v = CHR 0x0A then ((p, None), inp', out)
          else if v = CHR 0x03 then ((p, Some (ErrMsg ''interrupted'')), inp', out)
          else if v \<noteq> CHR 0x00 then mask_loop n inp' (p @ [v]) (out @ ''*'')
          else mask_loop n inp' p out)"

text \<open>\<open>tty\<close>: what \<open>terminal.IsTerminal\<close> and \<open>MakeRaw\<close> say of the input: not a terminal, or a
  terminal whose raw mode could or could not be set. On a terminal a newline is printed at the end.\<close>

datatype tty = NoTerminal | RawTerminal | BadTerminal goerror

definition MaskPassword :: "tty \<Rightarrow> string list \<Rightarrow> (goerror + string) \<times> string list \<times> string" where
  "MaskPassword t inp =
     (case t of
        BadTerminal e \<Rightarrow> (Inl e, inp, [])
      | _ \<Rightarrow>
        (case mask_loop (Suc maxBytes) inp [] [] of
           ((p, err), inp', out) \<Rightarrow>
             (case err of None \<Rightarrow> Inr p | Some e \<Rightarrow> Inl e, inp',
              out @ (if t = RawTerminal then [newline] else []))))"

definition PromptPassword :: "tty \<Rightarrow> string list \<Rightarrow> (goerror + string \<times> bool) \<times> string list \<times> string" where
  "PromptPassword t inp =
     (let out0 = ''Please enter password for [rancher]: '' in
      case MaskPassword t inp of
        (Inl e, inp1, out1) \<Rightarrow> (Inl (ErrWrap ''failed to set password: '' e), inp1, out0 @ out1)
      | (Inr p, inp1, out1) \<Rightarrow>
         (let out2 = out0 @ out1 @ ''Confirm password for [rancher]: '' in
          case MaskPassword t inp1 of
            (Inl e, inp2, out3) \<Rightarrow> (Inl (ErrWrap ''failed to confirm password: '' e), inp2, out2 @ out3)
          | (Inr c, inp2, out3) \<Rightarrow> (Inr (c, p = c), inp2, out2 @ out3)))"

section \<open>The reference editor\<close>

text \<open>
  The reference: the keys up to the first end of line or interrupt, edited one by one; at most
  \<open>maxBytes\<close> of them. It sees the input as one string, however it is cut into chunks.
\<close>

definition is_stop :: "char \<Rightarrow> bool" where
  "is_stop v = (v \<in> {CHR 0x0D, CHR 0x0A, CHR 0x03})"

definition edit_key :: "string \<Rightarrow> char \<Rightarrow> string" where
  "edit_key p v = (if v \<in> {CHR 0x7F, CHR 0x08} then butlast p else if v = CHR 0x00 then p else p @ [v])"

definition password_spec :: "nat \<Rightarrow> string \<Rightarrow> string \<Rightarrow> goerror + string" where
  "password_spec n p keys =
     (let line = takeWhile (\<lambda>v. \<not> is_stop v) keys in
      if length line \<ge> n then Inl (ErrMsg (''maximum password length is '' @ Itoa (int maxBytes) @ '' bytes''))
      else if length line = length keys then Inl ErrEOF
      else if keys ! length line = CHR 0x03 then Inl (ErrMsg ''interrupted'')
      else Inr (foldl edit_key p line))"

definition password_rest :: "nat \<Rightarrow> string \<Rightarrow> string" where
  "password_rest n keys = drop (min n (Suc (length (takeWhile (\<lambda>v. \<not> is_stop v) keys)))) keys"

lemma getCharacter_Nil: "concat inp = [] \<Longrightarrow> getCharacter inp = (Inl ErrEOF, [])"
  by (induction inp rule: getCharacter.induct) auto

lemma getCharacter_Cons:
  "concat inp = c # s \<Longrightarrow> \<exists>inp'. getCharacter inp = (Inr c, inp') \<and> concat inp' = s"
  by (induction inp rule: getCharacter.induct) auto

definition mask_result :: "string \<times> goerror option \<Rightarrow> goerror + string" where
  "mask_result r = (case snd r of None \<Rightarrow> Inr (fst r) | Some e \<Rightarrow> Inl e)"

lemma mask_loop_step:
  assumes "getCharacter inp = (Inr c, inp1)" "\<not> is_stop c"
  shows "\<exists>out1. mask_loop (Suc n) inp p out = mask_loop n inp1 (edit_key p c) out1"
proof -
  have ns: "c \<noteq> CHR 0x0D" "c \<noteq> CHR 0x0A" "c \<noteq> CHR 0x03" using assms(2) by (simp_all add: is_stop_def)
  consider "c = CHR 0x7F \<or> c = CHR 0x08" | "c = CHR 0x00" | "c \<noteq> CHR 0x7F" "c \<noteq> CHR 0x08" "c \<noteq> CHR 0x00"
    by blast
  then show ?thesis
  proof cases
    case 1
    then have "edit_key p c = butlast p" by (simp add: edit_key_def)
    then show ?thesis using 1 assms(1) by (cases "p = []") auto
  next
    case 2
    then have "edit_key p c = p" by (simp add: edit_key_def)
    then show ?thesis using 2 assms(1) by auto
  next
    case 3
    then have "edit_key p c = p @ [c]" by (simp add: edit_key_def)
    then show ?thesis using 3 ns assms(1) by auto
  qed
qed

lemma mask_loop_spec:
  "mask_loop n inp p out = (r, inp', out') \<Longrightarrow>
     mask_result r = password_spec n p (concat inp) \<and> concat inp' = password_rest n (concat inp)"
proof (induction n arbitrary: inp p out)
  case 0
  then show ?case by (auto simp: password_spec_def mask_result_def password_rest_def)
next
  case (Suc n)
  show ?case
  proof (cases "concat inp")
    case Nil
    then have "r = (p, Some ErrEOF)" "inp' = []" using Suc.prems by (auto simp: getCharacter_Nil)
    then show ?thesis unfolding Nil by (simp add: password_spec_def mask_result_def password_rest_def)
  next
    case (Cons c s)
    then obtain inp1 where g: "getCharacter inp = (Inr c, inp1)" "concat inp1 = s"
      using getCharacter_Cons by blast
    show ?thesis
    proof (cases "is_stop c")
      case True
      then show ?thesis using Suc.prems g Cons
        by (auto simp: password_spec_def mask_result_def password_rest_def is_stop_def split: if_splits)
    next
      case False
      have step: "password_spec (Suc n) p (c # s) = password_spec n (edit_key p c) s"
        "password_rest (Suc n) (c # s) = password_rest n s"
        using False by (simp_all add: password_spec_def password_rest_def Let_def)
      have "\<exists>out1. mask_loop n inp1 (edit_key p c) out1 = (r, inp', out')"
        using mask_loop_step [OF g(1) False, of n p out] Suc.prems by metis
      then show ?thesis using Suc.IH g(2) step Cons by metis
    qed
  qed
qed

lemma MaskPassword_result:
  assumes "MaskPassword t inp = (r, inp', out)" "\<forall>e. t \<noteq> BadTerminal e"
  shows "r = password_spec (Suc maxBytes) [] (concat inp)"
    "concat inp' = password_rest (Suc maxBytes) (concat inp)"
proof -
  obtain p err i o' where m: "mask_loop (Suc maxBytes) inp [] [] = ((p, err), i, o')"
    by (metis prod.collapse)
  have "r = mask_result (p, err)" "inp' = i"
    using assms m
    by (auto simp: MaskPassword_def mask_result_def simp del: mask_loop.simps split: tty.splits option.splits)
  then show "r = password_spec (Suc maxBytes) [] (concat inp)"
    "concat inp' = password_rest (Suc maxBytes) (concat inp)"
    using mask_loop_spec [OF m] by simp_all
qed

lemma length_edit: "length (foldl edit_key p line) \<le> length p + length line"
proof (induction line arbitrary: p)
  case (Cons v line)
  have "length (edit_key p v) \<le> Suc (length p)" by (simp add: edit_key_def le_Suc_eq)
  then show ?case using Cons [of "edit_key p v"] by simp
qed simp

lemma password_spec_bound: "password_spec (Suc n) [] keys = Inr p \<Longrightarrow> length p \<le> n"
  using length_edit [of "[]"]
  by (auto simp: password_spec_def Let_def not_less_eq_eq split: if_splits intro: order_trans)

section \<open>Properties\<close>

text \<open>
  C27. Whatever way the terminal cuts the input into reads, \<open>MaskPassword\<close> gives the keys up to the
  end of the line, edited by delete and backspace; it consumes that line and no more, and never
  accepts more than \<open>maxBytes\<close> bytes.
\<close>

theorem MaskPassword_edits_line:
  assumes "MaskPassword t inp = (r, inp', out)" "\<forall>e. t \<noteq> BadTerminal e"
  shows "r = password_spec (Suc maxBytes) [] (concat inp)
    \<and> concat inp' = password_rest (Suc maxBytes) (concat inp)
    \<and> (\<forall>p. r = Inr p \<longrightarrow> length p \<le> maxBytes)"
  using MaskPassword_result [OF assms] password_spec_bound by auto

theorem MaskPassword_edits_line_witness:
  "fst (MaskPassword RawTerminal [''ab'', [CHR 0x7F], ''c'' @ [CHR 0x0A], ''rest'']) = Inr ''ac''"
proof -
  let ?inp = "[''ab'', [CHR 0x7F], ''c'' @ [CHR 0x0A], ''rest'']"
  obtain r inp' out where m: "MaskPassword RawTerminal ?inp = (r, inp', out)" by (metis prod.collapse)
  have "r = password_spec (Suc maxBytes) [] (concat ?inp)"
    using MaskPassword_edits_line [OF m] by simp
  also have "\<dots> = Inr ''ac''"
    by (simp add: password_spec_def is_stop_def edit_key_def maxBytes_def)
  finally show ?thesis using m by simp
qed

text \<open>
  \<open>PromptPassword\<close> reads two lines and accepts exactly when both give the same password; the
  password it returns is then that one.
\<close>

theorem PromptPassword_confirms:
  assumes "PromptPassword t inp = (Inr (p, same), inp', out)" "\<forall>e. t \<noteq> BadTerminal e"
  shows "\<exists>q. password_spec (Suc maxBytes) [] (concat inp) = Inr q
    \<and> password_spec (Suc maxBytes) [] (password_rest (Suc maxBytes) (concat inp)) = Inr p
    \<and> (same \<longleftrightarrow> p = q)"
proof -
  obtain r1 i1 o1 where m1: "MaskPassword t inp = (r1, i1, o1)" by (metis prod.collapse)
  obtain r2 i2 o2 where m2: "MaskPassword t i1 = (r2, i2, o2)" by (metis prod.collapse)
  obtain q where q: "r1 = Inr q" "r2 = Inr p" "same \<longleftrightarrow> q = p"
    using assms(1) m1 m2 by (auto simp: PromptPassword_def Let_def split: sum.splits)
  show ?thesis
    using MaskPassword_result [OF m1 assms(2)] MaskPassword_result [OF m2 assms(2)] q by fastforce
qed

theorem PromptPassword_confirms_witness:
  "fst (PromptPassword NoTerminal [''x'' @ [CHR 0x0A], ''x'' @ [CHR 0x0A]]) = Inr (''x'', True)
   \<and> password_spec (Suc maxBytes) [] (''x'' @ [CHR 0x0A]) = Inr ''x''"
proof -
  let ?inp = "[''x'' @ [CHR 0x0A], ''x'' @ [CHR 0x0A]]"
  have f: "fst (PromptPassword NoTerminal ?inp) = Inr (''x'', True)"
    by code_simp
  then obtain i o' where "PromptPassword NoTerminal ?inp = (Inr (''x'', True), i, o')"
    by (metis prod.collapse fst_conv)
  from PromptPassword_confirms [OF this] f
  show ?thesis by (auto simp: password_rest_def is_stop_def maxBytes_def)
qed

end
