(* ===== verification/Questions.thy ===== *)
theory Questions
  imports Prompt Kernel
begin

text \<open>
  \<^verbatim>\<open>pkg/questions/questions.go\<close>: questions on the terminal. Each question reads a line with a buffered reader
  of its own; what the reader got after the end of the line is lost with it.
\<close>

section \<open>Reading a line\<close>

text \<open>
  \<open>ReadString\<close> of a new \<open>bufio.Reader\<close>: a read asks for as many bytes as the buffer of 4096 has room
  (\<open>room\<close>); \<open>acc\<close> is the line so far.
\<close>

definition input_size :: "string list \<Rightarrow> nat" where
  "input_size inp = length inp + length (concat inp)"

function (sequential) read_line :: "nat \<Rightarrow> string \<Rightarrow> string list \<Rightarrow> (goerror + string) \<times> string list" where
  "read_line room acc [] = (Inl ErrEOF, [])"
| "read_line room acc (c # cs) =
     (let got = take room c; inp = (if drop room c = [] then cs else drop room c # cs)
      in if newline \<in> set got then (Inr (acc @ takeWhile (\<lambda>b. b \<noteq> newline) got @ [newline]), inp)
         else read_line (if length got \<ge> room then 4096 else room - length got) (acc @ got) inp)"
  by pat_completeness auto

termination
  by (relation "measure (\<lambda>(room, acc, inp). 2 * input_size inp + (if room = 0 then 1 else 0))")
    (auto simp: input_size_def not_le)

definition ReadString :: "string list \<Rightarrow> (goerror + string) \<times> string list" where
  "ReadString inp = read_line 4096 [] inp"

lemma read_line_shorter: "read_line room acc inp = (Inr l, inp') \<Longrightarrow> room > 0 \<Longrightarrow> input_size inp' < input_size inp"
proof (induction room acc inp rule: read_line.induct)
  case (2 room acc c cs)
  let ?inp = "if drop room c = [] then cs else drop room c # cs"
  have s: "input_size ?inp < input_size (c # cs)"
  proof -
    have "length c = length (take room c) + length (drop room c)" by simp
    moreover have "drop room c \<noteq> [] \<Longrightarrow> take room c \<noteq> []" using "2.prems"(2) by (cases c; cases room) simp_all
    ultimately show ?thesis by (auto simp: input_size_def)
  qed
  show ?case
  proof (cases "newline \<in> set (take room c)")
    case True
    then show ?thesis using "2.prems"(1) s by (simp add: Let_def split: if_splits)
  next
    case False
    then have "input_size inp' < input_size ?inp"
      using "2.IH" [OF refl refl False] "2.prems" by (simp add: Let_def not_le split: if_splits)
    then show ?thesis using s by simp
  qed
qed simp

lemma ReadString_shorter: "ReadString inp = (Inr l, inp') \<Longrightarrow> input_size inp' < input_size inp"
  unfolding ReadString_def by (erule read_line_shorter) simp

section \<open>The questions\<close>

text \<open>A question takes the input and gives an answer or an error, the rest of the input, and what it printed.\<close>

type_synonym 'a question = "string list \<Rightarrow> (goerror + 'a) \<times> string list \<times> string"

function Prompt :: "string \<Rightarrow> string \<Rightarrow> string question" where
  "Prompt msg def inp =
     (case ReadString inp of
        (Inl e, inp') \<Rightarrow> (Inl e, inp', msg)
      | (Inr line, inp') \<Rightarrow>
          (let answer = (if TrimSpace line = [] then def else TrimSpace line)
           in if answer = []
              then (case Prompt msg def inp' of (r, inp'', out) \<Rightarrow> (r, inp'', msg @ out))
              else (Inr answer, inp', msg)))"
  by pat_completeness auto
termination
  by (relation "measure (\<lambda>(t, d, inp). input_size inp)") (auto dest!: ReadString_shorter [OF sym])

declare Prompt.simps [simp del]

definition PromptOptional :: "string \<Rightarrow> string \<Rightarrow> string question" where
  "PromptOptional msg def inp =
     (case ReadString inp of
        (Inl e, inp') \<Rightarrow> (Inl e, inp', msg)
      | (Inr line, inp') \<Rightarrow> (Inr (if TrimSpace line = [] then def else TrimSpace line), inp', msg))"

lemma Prompt_shorter: "Prompt msg def inp = (Inr l, inp', out) \<Longrightarrow> input_size inp' < input_size inp"
proof (induction msg def inp arbitrary: out rule: Prompt.induct)
  case (1 msg def inp)
  obtain r i where rd: "ReadString inp = (r, i)" by fastforce
  show ?case
  proof (cases r)
    case (Inl e)
    then show ?thesis using "1.prems" by (subst (asm) Prompt.simps) (simp add: rd)
  next
    case (Inr line)
    have s: "input_size i < input_size inp" using rd Inr by (intro ReadString_shorter) simp
    let ?a = "if TrimSpace line = [] then def else TrimSpace line"
    show ?thesis
    proof (cases "?a = []")
      case True
      then obtain out' where "Prompt msg def i = (Inr l, inp', out')"
        using "1.prems" by (subst (asm) Prompt.simps) (auto simp: rd Inr Let_def split: prod.splits)
      then show ?thesis using "1.IH" [OF rd [symmetric] Inr refl True] s by fastforce
    next
      case False
      then show ?thesis using "1.prems" s by (subst (asm) Prompt.simps) (simp add: rd Inr)
    qed
  qed
qed

text \<open>The loop of \<open>PromptOptions\<close>: until a number from 1 to the number of options is given.\<close>

definition select_text :: "string \<Rightarrow> string" where
  "select_text defString = ''Select Number ['' @ defString @ '']: ''"

function ask_number :: "nat \<Rightarrow> string \<Rightarrow> nat question" where
  "ask_number n defString inp =
     (case Prompt (select_text defString) defString inp of
        (Inl e, inp', out) \<Rightarrow> (Inl e, inp', out)
      | (Inr ans, inp', out) \<Rightarrow>
          (case Atoi ans of
             None \<Rightarrow>
               (case ask_number n defString inp' of
                  (r, inp'', out') \<Rightarrow> (r, inp'', out @ ''Invalid number: '' @ ans @ [newline] @ out'))
           | Some num \<Rightarrow>
               if num - 1 < 0 \<or> num - 1 \<ge> int n
               then (case ask_number n defString inp' of
                  (r, inp'', out') \<Rightarrow> (r, inp'', out @ ''Select a number between 1 and '' @ Itoa_nat n @ [newline] @ out'))
               else (Inr (nat (num - 1)), inp', out)))"
  by pat_completeness auto
termination
  by (relation "measure (\<lambda>(n, d, inp). input_size inp)") (auto dest!: Prompt_shorter [OF sym])

declare ask_number.simps [simp del]

definition PromptOptions :: "string \<Rightarrow> int \<Rightarrow> string list \<Rightarrow> nat question" where
  "PromptOptions msg dflt options inp =
     (if length options = 1 then (Inr 0, inp, [])
      else case ask_number (length options) (if dflt \<ge> 0 then Itoa (dflt + 1) else []) inp of
        (r, inp', out) \<Rightarrow> (r, inp', msg @ concat options @ out))"

primrec number_options :: "nat \<Rightarrow> string list \<Rightarrow> string list" where
  "number_options i [] = []"
| "number_options i (opt # options) = (Itoa_nat (i + 1) @ ''. '' @ opt @ [newline]) # number_options (i + 1) options"

definition PromptFormattedOptions :: "string \<Rightarrow> int \<Rightarrow> string list \<Rightarrow> nat question" where
  "PromptFormattedOptions msg dflt options = PromptOptions (msg @ [newline]) dflt (number_options 0 options)"

text \<open>The loop of \<open>PromptBool\<close>.\<close>

function ask_bool :: "string \<Rightarrow> string \<Rightarrow> bool question" where
  "ask_bool msg defStr inp =
     (case Prompt msg defStr inp of
        (Inl e, inp', out) \<Rightarrow> (Inl e, inp', out)
      | (Inr yn, inp', out) \<Rightarrow>
          if ToLower yn = ''y'' then (Inr True, inp', out)
          else if ToLower yn = ''n'' then (Inr False, inp', out)
          else (case ask_bool msg defStr inp' of
                  (r, inp'', out') \<Rightarrow> (r, inp'', out @ ''Enter y or n'' @ [newline] @ out')))"
  by pat_completeness auto
termination
  by (relation "measure (\<lambda>(m, d, inp). input_size inp)") (auto dest!: Prompt_shorter [OF sym])

declare ask_bool.simps [simp del]

definition PromptBool :: "string \<Rightarrow> bool \<Rightarrow> bool question" where
  "PromptBool msg dflt =
     ask_bool (msg @ (if dflt then '' [Y/n]: '' else '' [y/N]: '')) (if dflt then ''y'' else ''n'')"

section \<open>Reading lines\<close>

text \<open>A chunk that ends a line, as a terminal delivers it, is read whole.\<close>

lemma ReadString_line:
  "newline \<notin> set l \<Longrightarrow> length l < 4096 \<Longrightarrow> ReadString ((l @ newline # t) # inp)
     = (Inr (l @ [newline]), if length l + length t < 4096 then inp else drop 4096 (l @ newline # t) # inp)"
proof -
  assume l: "newline \<notin> set l" "length l < 4096"
  have t: "take 4096 (l @ newline # t) = l @ newline # take (4095 - length l) t"
    using l(2) by (simp add: take_Cons' Suc_diff_Suc numeral_eq_Suc)
  have "takeWhile (\<lambda>b. b \<noteq> newline) (l @ newline # take (4095 - length l) t) = l"
    using l(1) by (subst takeWhile_append2) auto
  then show ?thesis unfolding ReadString_def using t l(2) by (auto simp: Let_def)
qed

lemma ReadString_terminal:
  "newline \<notin> set l \<Longrightarrow> length l < 4096 \<Longrightarrow> ReadString ((l @ [newline]) # inp) = (Inr (l @ [newline]), inp)"
  by (simp add: ReadString_line)

lemma TrimSpace_newline: "TrimSpace (l @ [newline]) = TrimSpace l"
proof (cases "TrimLeft is_space l = []")
  case True
  then have d: "dropWhile is_space l = []" by (simp only: TrimLeft_def)
  then have "dropWhile is_space (l @ [newline]) = []" by (simp add: is_space_def)
  with d show ?thesis by (simp only: TrimSpace_def TrimFunc_def TrimLeft_def)
next
  case False
  then have "dropWhile is_space (l @ [newline]) = dropWhile is_space l @ [newline]"
    by (simp add: TrimLeft_def dropWhile_append)
  then show ?thesis
    by (simp add: TrimSpace_def TrimFunc_def TrimLeft_def TrimRight_append is_space_def)
qed

lemma Prompt_answer:
  "newline \<notin> set l \<Longrightarrow> length l < 4096 \<Longrightarrow> TrimSpace l \<noteq> [] \<Longrightarrow>
   Prompt msg dflt ((l @ [newline]) # inp) = (Inr (TrimSpace l), inp, msg)"
  by (subst Prompt.simps) (simp add: ReadString_terminal TrimSpace_newline)

definition terminal_lines :: "string list \<Rightarrow> string list" where
  "terminal_lines ls = map (\<lambda>l. l @ [newline]) ls"

definition typed :: "string list \<Rightarrow> bool" where
  "typed ls \<longleftrightarrow> list_all (\<lambda>l. newline \<notin> set l \<and> length l < 4096) ls"

text \<open>
  On a terminal, which hands over one line at a time, \<open>Prompt\<close> without a default skips blank lines and
  returns the first other line, trimmed, leaving the lines after it for the next question.
\<close>

theorem Prompt_first_answer:
  assumes "typed ls" "\<forall>l \<in> set blanks. TrimSpace l = []" "TrimSpace l \<noteq> []" "typed (blanks @ [l])"
  shows "\<exists>out. Prompt msg [] (terminal_lines (blanks @ l # ls)) = (Inr (TrimSpace l), terminal_lines ls, out)"
  using assms(2,4)
proof (induction blanks)
  case Nil
  then show ?case using assms(3)
    by (subst Prompt.simps) (simp add: terminal_lines_def typed_def ReadString_terminal TrimSpace_newline)
next
  case (Cons b blanks)
  then show ?case
    by (subst Prompt.simps) (auto simp: terminal_lines_def typed_def ReadString_terminal TrimSpace_newline)
qed

theorem Prompt_first_answer_witness:
  "\<exists>out. Prompt ''URL of server: '' [] (terminal_lines ['''', '' https://a '', ''tok'']) = (Inr ''https://a'', terminal_lines [''tok''], out)"
proof -
  have t: "TrimSpace '' https://a '' = ''https://a''" "TrimSpace '''' = ''''" by code_simp+
  have "typed [''tok'']" "typed ([''''] @ ['' https://a ''])" by code_simp+
  then show ?thesis using Prompt_first_answer [of "[''tok'']" "['''']" "'' https://a ''" "''URL of server: ''"] t by simp
qed

text \<open>Input that comes in one piece, as from a pipe, is lost after its first line.\<close>

lemma piped_answers_lost:
  assumes "newline \<notin> set l" "length l + length t < 4096" "TrimSpace l \<noteq> []"
  shows "\<exists>out. Prompt msg [] [l @ newline # t] = (Inr (TrimSpace l), [], out)"
  using assms by (subst Prompt.simps) (simp add: ReadString_line TrimSpace_newline [of l, simplified])

section \<open>Choosing\<close>

lemma length_number_options [simp]: "length (number_options i opts) = length opts"
  by (induction opts arbitrary: i) simp_all

lemma ask_number_range: "ask_number n d inp = (Inr i, inp', out) \<Longrightarrow> i < n"
proof (induction n d inp arbitrary: out rule: ask_number.induct)
  case (1 n d inp)
  obtain r inp1 out1 where p: "Prompt (select_text d) d inp = (r, inp1, out1)" by (metis prod_cases3)
  show ?case
  proof (cases r)
    case (Inl e)
    then show ?thesis using "1.prems" by (subst (asm) ask_number.simps) (simp add: p)
  next
    case (Inr ans)
    note step = "1.prems" [unfolded ask_number.simps [of n d inp] p Inr prod.case sum.case]
    show ?thesis
    proof (cases "Atoi ans")
      case None
      then obtain out' where "ask_number n d inp1 = (Inr i, inp', out')"
        using step by (auto split: prod.splits)
      then show ?thesis using "1.IH"(1) [OF p [symmetric] Inr refl None] by blast
    next
      case (Some num)
      show ?thesis
      proof (cases "num - 1 < 0 \<or> num - 1 \<ge> int n")
        case True
        then obtain out' where "ask_number n d inp1 = (Inr i, inp', out')"
          using step Some by (auto split: prod.splits)
        then show ?thesis using "1.IH"(2) [OF p [symmetric] Inr refl Some True] by blast
      qed (use step Some in auto)
    qed
  qed
qed

text \<open>
  C37. \<open>PromptOptions\<close> returns an index into its options, whatever is typed; so without options it never
  returns one.
\<close>

theorem PromptOptions_range:
  "PromptOptions msg dflt options inp = (Inr i, inp', out) \<Longrightarrow> i < length options"
  by (auto simp: PromptOptions_def split: if_splits prod.splits dest: ask_number_range)

theorem PromptOptions_range_witness:
  "\<exists>inp' out. PromptOptions [] 0 [''a'', ''b''] (terminal_lines [''2'']) = (Inr 1, inp', out) \<and> (1 :: nat) < length [''a'', ''b'']"
proof -
  have t: "TrimSpace ''2'' = ''2''" by code_simp
  have a: "Atoi ''2'' = Some 2" by (simp add: Atoi_def ParseInt_def is_digit_def)
  have "Prompt (select_text ''1'') ''1'' ((''2'' @ [newline]) # []) = (Inr ''2'', [], select_text ''1'')"
    by (rule Prompt_answer [of "''2''", unfolded t]) simp_all
  moreover have "Itoa 1 = ''1''" by (simp add: Itoa_def Itoa_nat.simps digit_char_def char_of_def bit_iff_odd)
  ultimately obtain out where r: "PromptOptions [] 0 [''a'', ''b''] (terminal_lines [''2'']) = (Inr 1, [], out)"
    by (simp add: PromptOptions_def ask_number.simps a terminal_lines_def)
  with PromptOptions_range [OF r] show ?thesis by blast
qed

end
