(* ===== verification/GoValues.thy ===== *)
theory GoValues
  imports GoStrings
begin

text \<open>
  The untyped values a configuration passes through (\<^verbatim>\<open>map[string]interface{}\<close> and what is in it), and the
  parts of the vendored \<^verbatim>\<open>rancher/mapper\<close> the program calls: \<^verbatim>\<open>values\<close>, \<^verbatim>\<open>convert\<close> and \<^verbatim>\<open>convert/merge\<close>.
  A map is an association list with distinct keys, in the order a \<open>range\<close> happens to take.
\<close>

section \<open>Values\<close>

text \<open>A number is \<open>GNum m e\<close>, the value \<open>m * 10 ^ e\<close> in the shortest decimal digits that identify it.\<close>

datatype gval = GNull | GBool bool | GNum int int | GStr string | GStrs "string list"
  | GStrMap "(string \<times> string) list" | GList "gval list" | GMap "(string \<times> gval) list"

type_synonym gmap = "(string \<times> gval) list"

section \<open>Package values\<close>

fun GetValue :: "gmap \<Rightarrow> string list \<Rightarrow> gval option" where
  "GetValue data [] = None"
| "GetValue data [key] = map_of data key"
| "GetValue data (key # keys) =
     (case map_of data key of Some (GMap m) \<Rightarrow> GetValue m keys | _ \<Rightarrow> GetValue [] keys)"

fun PutValue :: "gmap \<Rightarrow> gval \<Rightarrow> string list \<Rightarrow> gmap" where
  "PutValue data val [] = data"
| "PutValue data val [key] = AList.update key val data"
| "PutValue data val (key # keys) =
     (case map_of data key of
        Some (GMap m) \<Rightarrow> AList.update key (GMap (PutValue m val keys)) data
      | Some _ \<Rightarrow> data
      | None \<Rightarrow> AList.update key (GMap (PutValue [] val keys)) data)"

section \<open>Package convert\<close>

definition Singular :: "gval \<Rightarrow> gval" where
  "Singular v = (case v of
     GStrs [] \<Rightarrow> GNull | GStrs (s # _) \<Rightarrow> GStr s
   | GList [] \<Rightarrow> GNull | GList (x # _) \<Rightarrow> x
   | _ \<Rightarrow> v)"

text \<open>A floating point number as \<^verbatim>\<open>%v\<close> prints it: with an exponent from a million on.\<close>

definition two_digits :: "nat \<Rightarrow> string" where
  "two_digits n = (if n < 10 then CHR ''0'' # Itoa_nat n else Itoa_nat n)"

definition sprint_num :: "int \<Rightarrow> int \<Rightarrow> string" where
  "sprint_num m e =
     (let s = Itoa_nat (nat \<bar>m\<bar>); dp = int (length s) + e; x = dp - 1
      in (if m < 0 then ''-'' else [])
         @ (if m = 0 then ''0''
            else if x < - 4 \<or> x \<ge> 6 then
              [hd s] @ (if tl s = [] then [] else CHR ''.'' # tl s)
              @ (if x < 0 then ''e-'' else ''e+'') @ two_digits (nat \<bar>x\<bar>)
            else if dp \<le> 0 then ''0.'' @ replicate (nat (- dp)) (CHR ''0'') @ s
            else if int (length s) \<le> dp then s @ replicate (nat (dp - int (length s))) (CHR ''0'')
            else take (nat dp) s @ CHR ''.'' # drop (nat dp) s))"

text \<open>\<^verbatim>\<open>fmt.Sprint\<close> of a value; maps are printed in the order of their keys.\<close>

definition show_map :: "(string \<times> string) list \<Rightarrow> string" where
  "show_map kvs = ''map['' @ Join (map (\<lambda>(k, s). k @ '':'' @ s) (sort_key fst kvs)) '' '' @ '']''"

primrec Sprint :: "gval \<Rightarrow> string" where
  "Sprint GNull = ''<nil>''"
| "Sprint (GBool b) = (if b then ''true'' else ''false'')"
| "Sprint (GNum m e) = sprint_num m e"
| "Sprint (GStr s) = s"
| "Sprint (GStrs ss) = ''['' @ Join ss '' '' @ '']''"
| "Sprint (GStrMap kvs) = show_map kvs"
| "Sprint (GList vs) = ''['' @ Join (map Sprint vs) '' '' @ '']''"
| "Sprint (GMap kvs) = show_map (map (map_prod (\<lambda>k. k) Sprint) kvs)"

definition ToStringNoTrim :: "gval \<Rightarrow> string" where
  "ToStringNoTrim v = (case Singular v of GNull \<Rightarrow> [] | single \<Rightarrow> Sprint single)"

definition ToString :: "gval \<Rightarrow> string" where
  "ToString v = TrimSpace (ToStringNoTrim v)"

text \<open>The loop of \<open>ToYAMLKey\<close> after the first character; \<open>cap\<close>: only capitals so far.\<close>

fun yaml_key_tail :: "bool \<Rightarrow> string \<Rightarrow> string" where
  "yaml_key_tail cap [] = []"
| "yaml_key_tail cap (c # s) =
     (if is_upper c then (if cap then [to_lower c] else [CHR ''_'', to_lower c]) @ yaml_key_tail cap s
      else c # yaml_key_tail False s)"

definition ToYAMLKey :: "string \<Rightarrow> string" where
  "ToYAMLKey s = (case s of [] \<Rightarrow> [] | c # t \<Rightarrow> to_lower c # yaml_key_tail (is_upper c) t)"

section \<open>Schemas\<close>

text \<open>
  What the reflection on the configuration types yields: the JSON names of the fields and their types,
  with the schemas of the structures in place.
\<close>

datatype ftype = FString | FBool | FStrings | FStrMap | FObj "(string \<times> ftype) list" | FObjs "(string \<times> ftype) list"

type_synonym schema = "(string \<times> ftype) list"

section \<open>Package merge\<close>

definition isMap :: "string \<Rightarrow> schema option \<Rightarrow> bool" where
  "isMap field sch = (case sch of None \<Rightarrow> False | Some fs \<Rightarrow> map_of fs field = Some FStrMap)"

definition getSchema :: "string \<Rightarrow> schema option \<Rightarrow> schema option" where
  "getSchema field sch = (case sch of
     None \<Rightarrow> None
   | Some fs \<Rightarrow> (case map_of fs field of Some (FObj s) \<Rightarrow> Some s | _ \<Rightarrow> None))"

text \<open>\<open>mergeMaps\<close> copies \<open>dest\<close> and then runs over \<open>src\<close>; \<open>result\<close> is the copy.\<close>

function (sequential) merge_value :: "string \<Rightarrow> schema option \<Rightarrow> gval option \<Rightarrow> gval \<Rightarrow> gval"
  and merge_into :: "schema option \<Rightarrow> gmap \<Rightarrow> gmap \<Rightarrow> gmap \<Rightarrow> gmap" where
  "merge_value field sch dest (GMap sm) =
     (if isMap field sch then GMap sm
      else case dest of
        Some (GMap dm) \<Rightarrow> GMap (merge_into (getSchema field sch) dm dm sm)
      | _ \<Rightarrow> GMap sm)"
| "merge_value field sch dest src = src"
| "merge_into sch dest result [] = result"
| "merge_into sch dest result ((k, v) # src) =
     merge_into sch dest (AList.update k (merge_value k sch (map_of dest k) v) result) src"
  by pat_completeness auto
termination
  by (relation "measure (\<lambda>x. case x of Inl (_, _, _, v) \<Rightarrow> size v | Inr (_, _, _, src) \<Rightarrow> size_list (size_prod (\<lambda>_. 0) size) src)")
    auto

definition mergeMaps :: "schema option \<Rightarrow> gmap \<Rightarrow> gmap \<Rightarrow> gmap" where
  "mergeMaps sch dest src = merge_into sch dest dest src"

definition UpdateMerge :: "schema \<Rightarrow> gmap \<Rightarrow> gmap \<Rightarrow> gmap" where
  "UpdateMerge sch dest src = mergeMaps (Some sch) dest src"

section \<open>Laws\<close>

subsection \<open>Paths\<close>

lemma GetValue_Nil [simp]: "GetValue [] ks = None"
  by (induction "[] :: gmap" ks rule: GetValue.induct) simp_all

text \<open>Nothing but maps on the way to the last key: the paths \<open>PutValue\<close> can write.\<close>

fun open_path :: "gmap \<Rightarrow> string list \<Rightarrow> bool" where
  "open_path data [] = False"
| "open_path data [key] = True"
| "open_path data (key # keys) =
     (case map_of data key of Some (GMap m) \<Rightarrow> open_path m keys | Some _ \<Rightarrow> False | None \<Rightarrow> True)"

lemma open_path_Nil: "ks \<noteq> [] \<Longrightarrow> open_path [] ks"
  by (cases ks rule: remdups_adj.cases) simp_all

lemma GetValue_PutValue: "open_path data ks \<Longrightarrow> GetValue (PutValue data v ks) ks = Some v"
proof (induction data v ks rule: PutValue.induct)
  case (3 data val key k ks)
  show ?case
  proof (cases "map_of data key")
    case None
    then show ?thesis using "3.IH"(1) [OF None] open_path_Nil [of "k # ks"] by simp
  next
    case (Some x)
    then show ?thesis using "3.IH"(2) [OF Some] "3.prems" by (cases x) simp_all
  qed
qed simp_all

text \<open>Other paths are left alone, unless one is a beginning of the other.\<close>

lemma GetValue_PutValue_other:
  "\<not> prefix ks ls \<Longrightarrow> \<not> prefix ls ks \<Longrightarrow> GetValue (PutValue data v ks) ls = GetValue data ls"
proof (induction data v ks arbitrary: ls rule: PutValue.induct)
  case (2 data val key)
  then show ?case by (cases ls rule: remdups_adj.cases) (auto split: option.split gval.split)
next
  case (3 data val key k ks)
  show ?case
  proof (cases ls rule: remdups_adj.cases)
    case (3 l m ms)
    show ?thesis
    proof (cases "l = key")
      case True
      have p: "\<not> prefix (k # ks) (m # ms)" "\<not> prefix (m # ms) (k # ks)"
        using "3.prems" 3 True by simp_all
      show ?thesis
      proof (cases "map_of data key")
        case None
        then show ?thesis using "3.IH"(1) [OF None p] 3 True by simp
      next
        case (Some x)
        then show ?thesis using "3.IH"(2) [OF Some _ p] 3 True by (cases x) simp_all
      qed
    qed (use 3 in \<open>auto split: option.split gval.split\<close>)
  qed (use "3.prems" in \<open>auto split: option.split gval.split\<close>)
qed simp

lemma open_path_PutValue:
  "(prefix ks ls \<Longrightarrow> ls = ks) \<Longrightarrow> (prefix ls ks \<Longrightarrow> ls = ks) \<Longrightarrow> open_path data ls \<Longrightarrow>
   open_path (PutValue data v ks) ls"
proof (induction data v ks arbitrary: ls rule: PutValue.induct)
  case (2 data val key)
  then show ?case by (cases ls rule: remdups_adj.cases) (auto split: option.split)
next
  case (3 data val key k ks)
  show ?case
  proof (cases ls rule: remdups_adj.cases)
    case (3 l m ms)
    show ?thesis
    proof (cases "l = key")
      case True
      have p: "prefix (k # ks) (m # ms) \<Longrightarrow> m # ms = k # ks" "prefix (m # ms) (k # ks) \<Longrightarrow> m # ms = k # ks"
        using "3.prems"(1,2) 3 True by simp_all
      show ?thesis
      proof (cases "map_of data key")
        case None
        then show ?thesis using "3.IH"(1) [OF None p] open_path_Nil [of "m # ms"] 3 True by simp
      next
        case (Some x)
        then show ?thesis using "3.IH"(2) [OF Some _ p] "3.prems"(3) 3 True by (cases x) simp_all
      qed
    qed (use 3 "3.prems"(3) in \<open>auto split: option.split gval.split\<close>)
  qed (use "3.prems" in \<open>auto split: option.split gval.split\<close>)
qed simp

end
