(* ===== verification/ConfigMap.thy ===== *)
theory ConfigMap
  imports GoValues
begin

text \<open>
  \<^verbatim>\<open>pkg/config/rename.go\<close> and \<^verbatim>\<open>pkg/config/coerce.go\<close>: the names a configuration file may use for a field and
  the values it may give it, brought to what the configuration types expect; and the schemas of those
  types, as the reflection of \<^verbatim>\<open>rancher/mapper\<close> reads them off \<^verbatim>\<open>pkg/config/config.go\<close>.
\<close>

section \<open>The schemas\<close>

definition wifi_schema :: schema where
  "wifi_schema = [(''name'', FString), (''passphrase'', FString)]"

definition file_schema :: schema where
  "file_schema = [(''encoding'', FString), (''content'', FString), (''owner'', FString), (''path'', FString),
     (''permissions'', FString)]"

definition install_schema :: schema where
  "install_schema = [(''forceEfi'', FBool), (''device'', FString), (''configUrl'', FString), (''silent'', FBool),
     (''isoUrl'', FString), (''powerOff'', FBool), (''noFormat'', FBool), (''debug'', FBool), (''tty'', FString)]"

definition k3os_schema :: schema where
  "k3os_schema = [(''dataSources'', FStrings), (''modules'', FStrings), (''sysctls'', FStrMap),
     (''ntpServers'', FStrings), (''dnsNameservers'', FStrings), (''wifi'', FObjs wifi_schema),
     (''password'', FString), (''serverUrl'', FString), (''token'', FString), (''labels'', FStrMap),
     (''k3sArgs'', FStrings), (''environment'', FStrMap), (''taints'', FStrings),
     (''install'', FObj install_schema)]"

definition cloudConfig_schema :: schema where
  "cloudConfig_schema = [(''sshAuthorizedKeys'', FStrings), (''writeFiles'', FObjs file_schema),
     (''hostname'', FString), (''k3os'', FObj k3os_schema), (''runCmd'', FStrings), (''bootCmd'', FStrings),
     (''initCmd'', FStrings)]"

lemmas schema_defs = wifi_schema_def file_schema_def install_schema_def k3os_schema_def cloudConfig_schema_def

section \<open>rename.go\<close>

type_synonym names = "(string \<times> string) list"

definition addName :: "string \<Rightarrow> string \<Rightarrow> names \<Rightarrow> names" where
  "addName name toName names =
     AList.update (ToLower (ToYAMLKey name)) toName
       (AList.update (ToYAMLKey name) toName (AList.update (ToLower name) toName names))"

definition field_names :: "string \<Rightarrow> names \<Rightarrow> names" where
  "field_names name names =
     (let n1 = (if HasSuffix name ''s'' \<and> length name > 1
                then addName (take (length name - 1) name) name names else names);
          n2 = (if HasSuffix name ''es'' \<and> length name > 2
                then addName (take (length name - 2) name) name n1 else n1)
      in addName name name n2)"

definition FuzzyNames :: "schema \<Rightarrow> names" where
  "FuzzyNames fs =
     AList.update ''password'' ''passphrase'' (AList.update ''pass'' ''passphrase'' (fold field_names (map fst fs) []))"

text \<open>The loop over the map; the entries it adds are fixed points of the renaming.\<close>

definition fuzzy_entry :: "names \<Rightarrow> string \<times> gval \<Rightarrow> gmap \<Rightarrow> gmap" where
  "fuzzy_entry names kv data =
     (case map_of names (fst kv) of
        Some newK \<Rightarrow> if newK \<noteq> fst kv then AList.update newK (snd kv) data else data
      | None \<Rightarrow> data)"

definition FuzzyNames_ToInternal :: "names \<Rightarrow> gmap \<Rightarrow> gmap" where
  "FuzzyNames_ToInternal names data = fold (fuzzy_entry names) data data"

section \<open>coerce.go\<close>

definition convert_field :: "(gval \<Rightarrow> gval) \<Rightarrow> string \<Rightarrow> gmap \<Rightarrow> gmap" where
  "convert_field converter fieldName data =
     (case map_of data fieldName of
        None \<Rightarrow> data
      | Some val \<Rightarrow> AList.update fieldName (converter val) data)"

text \<open>\<open>NewTypeConverter\<close>: one field converter per field of the type, from the last to the first.\<close>

definition type_converter :: "ftype \<Rightarrow> (gval \<Rightarrow> gval) \<Rightarrow> schema \<Rightarrow> gmap \<Rightarrow> gmap" where
  "type_converter fieldType converter fs data =
     fold (\<lambda>ft. convert_field converter (fst ft)) (rev (filter (\<lambda>ft. snd ft = fieldType) fs)) data"

definition NewToMap :: "gval \<Rightarrow> gval" where
  "NewToMap v = (case v of GMap m \<Rightarrow> GStrMap (map (\<lambda>(k, v). (k, ToString v)) m) | _ \<Rightarrow> v)"

definition NewToSlice :: "gval \<Rightarrow> gval" where
  "NewToSlice v = (case v of GStr s \<Rightarrow> GStrs [s] | _ \<Rightarrow> v)"

definition NewToBool :: "gval \<Rightarrow> gval" where
  "NewToBool v = (case v of GStr s \<Rightarrow> GBool (s = ''true'') | _ \<Rightarrow> v)"

text \<open>The mappers of a type, called from the last to the first: names, then the three conversions.\<close>

definition mappers_ToInternal :: "schema \<Rightarrow> gmap \<Rightarrow> gmap" where
  "mappers_ToInternal fs data =
     type_converter FStrMap NewToMap fs
       (type_converter FStrings NewToSlice fs
         (type_converter FBool NewToBool fs (FuzzyNames_ToInternal (FuzzyNames fs) data)))"

text \<open>\<open>typeMapper.ToInternal\<close>: the mappers of the type, then the values of structure types.\<close>

definition type_ToInternal :: "schema \<Rightarrow> (string \<times> (gval \<Rightarrow> gval)) list \<Rightarrow> gmap \<Rightarrow> gmap" where
  "type_ToInternal fs subs data =
     fold (\<lambda>sub. convert_field (snd sub) (fst sub)) subs (mappers_ToInternal fs data)"

definition on_map :: "(gmap \<Rightarrow> gmap) \<Rightarrow> gval \<Rightarrow> gval" where
  "on_map f v = (case v of GMap m \<Rightarrow> GMap (f m) | _ \<Rightarrow> v)"

primrec sub_ToInternal :: "ftype \<Rightarrow> gval \<Rightarrow> gval" where
  "sub_ToInternal FString = (\<lambda>v. v)"
| "sub_ToInternal FBool = (\<lambda>v. v)"
| "sub_ToInternal FStrings = (\<lambda>v. v)"
| "sub_ToInternal FStrMap = (\<lambda>v. v)"
| "sub_ToInternal (FObj fs) = on_map (type_ToInternal fs (map (map_prod (\<lambda>k. k) sub_ToInternal) fs))"
| "sub_ToInternal (FObjs fs) = (\<lambda>v. case v of
     GList vs \<Rightarrow> GList (map (on_map (type_ToInternal fs (map (map_prod (\<lambda>k. k) sub_ToInternal) fs))) vs)
   | _ \<Rightarrow> v)"

definition ToInternal :: "schema \<Rightarrow> gmap \<Rightarrow> gmap" where
  "ToInternal fs data = type_ToInternal fs (map (map_prod (\<lambda>k. k) sub_ToInternal) fs) data"

section \<open>Laws\<close>

lemma map_of_convert_field:
  "map_of (convert_field c n data) k = (if k = n then map_option c (map_of data k) else map_of data k)"
  by (auto simp: convert_field_def split: option.split)

lemma map_of_convert_fields:
  "distinct (map fst gs) \<Longrightarrow> map_of (fold (\<lambda>sub. convert_field (snd sub) (fst sub)) gs d) k
    = (case map_of gs k of None \<Rightarrow> map_of d k | Some f \<Rightarrow> map_option f (map_of d k))"
proof (induction gs arbitrary: d)
  case (Cons g gs)
  show ?case
  proof (cases "k = fst g")
    case True
    then have "map_of gs k = None" using Cons.prems by (simp add: map_of_eq_None_iff)
    then show ?thesis using Cons True by (simp add: map_of_convert_field)
  qed (use Cons in \<open>simp add: map_of_convert_field split: option.split\<close>)
qed simp

lemma map_of_type_converter:
  assumes "distinct (map fst fs)"
  shows "map_of (type_converter ty c fs data) k
    = (if map_of fs k = Some ty then map_option c (map_of data k) else map_of data k)"
proof -
  let ?gs = "map (\<lambda>ft. (fst ft, c)) (rev (filter (\<lambda>ft. snd ft = ty) fs))"
  have d: "distinct (map fst ?gs)"
    using assms by (simp add: comp_def rev_map [symmetric] distinct_map_filter)
  have eq: "type_converter ty c fs data = fold (\<lambda>sub. convert_field (snd sub) (fst sub)) ?gs data"
    by (simp add: type_converter_def fold_map comp_def)
  have "map_of ?gs k = (if map_of fs k = Some ty then Some c else None)"
  proof (cases "map_of fs k = Some ty")
    case True
    then have "(k, c) \<in> set ?gs" using assms by (force simp: map_of_eq_Some_iff)
    then show ?thesis using True d by (simp add: map_of_eq_Some_iff [OF d])
  next
    case False
    then have "k \<notin> fst ` set ?gs" using assms by (force simp: map_of_eq_Some_iff)
    then show ?thesis using False by (simp add: map_of_eq_None_iff)
  qed
  then show ?thesis unfolding eq map_of_convert_fields [OF d] by simp
qed

text \<open>What becomes of the value of a field, by its type.\<close>

definition conv_value :: "ftype \<Rightarrow> gval \<Rightarrow> gval" where
  "conv_value ty v = sub_ToInternal ty (case ty of
     FStrMap \<Rightarrow> NewToMap v | FStrings \<Rightarrow> NewToSlice v | FBool \<Rightarrow> NewToBool v | _ \<Rightarrow> v)"

lemma map_of_mappers_ToInternal:
  assumes "distinct (map fst fs)"
  shows "map_of (mappers_ToInternal fs data) k
    = map_option (case map_of fs k of
        Some FStrMap \<Rightarrow> NewToMap | Some FStrings \<Rightarrow> NewToSlice | Some FBool \<Rightarrow> NewToBool | _ \<Rightarrow> (\<lambda>v. v))
        (map_of (FuzzyNames_ToInternal (FuzzyNames fs) data) k)"
  using assms by (auto simp: mappers_ToInternal_def map_of_type_converter option.map_ident split: option.split ftype.split)

lemma map_of_ToInternal:
  assumes "distinct (map fst fs)"
  shows "map_of (ToInternal fs data) k
    = (case map_of fs k of
         None \<Rightarrow> map_of (FuzzyNames_ToInternal (FuzzyNames fs) data) k
       | Some ty \<Rightarrow> map_option (conv_value ty) (map_of (FuzzyNames_ToInternal (FuzzyNames fs) data) k))"
proof -
  let ?gs = "map (map_prod (\<lambda>k. k) sub_ToInternal) fs"
  have d: "distinct (map fst ?gs)" using assms by (simp add: comp_def)
  have "map_of ?gs k = map_option sub_ToInternal (map_of fs k)"
    by (induction fs) auto
  then show ?thesis
    unfolding ToInternal_def type_ToInternal_def map_of_convert_fields [OF d]
    by (cases "map_of (FuzzyNames_ToInternal (FuzzyNames fs) data) k")
      (simp_all add: map_of_mappers_ToInternal [OF assms] conv_value_def split: option.split ftype.split)
qed

end
