(* ===== verification/ConfigJSON.thy ===== *)
theory ConfigJSON
  imports ConfigMap Config
begin

text \<open>
  \<^verbatim>\<open>encoding/json\<close> between the configuration types and untyped values: \<open>convert.ToObj\<close> decodes into a
  structure, \<open>convert.EncodeToMap\<close> encodes one. A field is found by its name or else without regard to case;
  keys come sorted, so a later spelling of a field overrides an earlier one; a value of the wrong type is
  an error, after which decoding goes on.
\<close>

section \<open>Text\<close>

text \<open>
  The number of bytes after \<open>c\<close> that belong to the character it begins, \<open>None\<close> if \<open>c\<close> begins no
  well-formed UTF-8 sequence; each byte that does not becomes U+FFFD on the way through JSON.
\<close>

definition utf8_cont :: "nat \<Rightarrow> nat \<Rightarrow> string \<Rightarrow> nat \<Rightarrow> nat option" where
  "utf8_cont lo hi s n =
     (if length s \<ge> n \<and> lo \<le> (of_char (hd s) :: nat) \<and> (of_char (hd s) :: nat) \<le> hi
         \<and> list_all (\<lambda>c. 128 \<le> (of_char c :: nat) \<and> (of_char c :: nat) \<le> 191) (take (n - 1) (tl s))
      then Some n else None)"

definition utf8_more :: "char \<Rightarrow> string \<Rightarrow> nat option" where
  "utf8_more c s =
     (let b = (of_char c :: nat) in
      if b < 128 then Some 0
      else if 194 \<le> b \<and> b \<le> 223 then utf8_cont 128 191 s 1
      else if b = 224 then utf8_cont 160 191 s 2
      else if b = 237 then utf8_cont 128 159 s 2
      else if 225 \<le> b \<and> b \<le> 239 then utf8_cont 128 191 s 2
      else if b = 240 then utf8_cont 144 191 s 3
      else if 241 \<le> b \<and> b \<le> 243 then utf8_cont 128 191 s 3
      else if b = 244 then utf8_cont 128 143 s 3
      else None)"

function (sequential) json_text :: "string \<Rightarrow> string" where
  "json_text [] = []"
| "json_text (c # s) =
     (case utf8_more c s of
        Some n \<Rightarrow> c # take n s @ json_text (drop n s)
      | None \<Rightarrow> CHR 0xEF # CHR 0xBF # CHR 0xBD # json_text s)"
  by pat_completeness auto
termination
  by (relation "measure length") auto

definition utf8 :: "string \<Rightarrow> bool" where
  "utf8 s = (json_text s = s)"

lemma utf8_id [simp]: "utf8 s \<Longrightarrow> json_text s = s"
  by (simp add: utf8_def)

lemma ascii_utf8: "\<forall>c \<in> set s. (of_char c :: nat) < 128 \<Longrightarrow> utf8 s"
  unfolding utf8_def by (induction s) (auto simp: utf8_more_def)

section \<open>Decoding\<close>

definition json_error :: goerror where
  "json_error = ErrMsg ''json: cannot unmarshal value into Go struct field''"

definition first_error :: "goerror option \<Rightarrow> goerror option \<Rightarrow> goerror option" where
  "first_error e f = (case e of None \<Rightarrow> f | Some x \<Rightarrow> Some x)"

type_synonym 'a decoder = "gval \<Rightarrow> 'a \<Rightarrow> 'a \<times> goerror option"

definition as_object :: "gval \<Rightarrow> gmap option" where
  "as_object v = (case v of GMap m \<Rightarrow> Some m | GStrMap m \<Rightarrow> Some (map (\<lambda>(k, s). (k, GStr s)) m) | _ \<Rightarrow> None)"

definition as_array :: "gval \<Rightarrow> gval list option" where
  "as_array v = (case v of GList vs \<Rightarrow> Some vs | GStrs ss \<Rightarrow> Some (map GStr ss) | _ \<Rightarrow> None)"

definition dec_str :: "string decoder" where
  "dec_str v old = (case v of GStr s \<Rightarrow> (json_text s, None) | GNull \<Rightarrow> (old, None) | _ \<Rightarrow> (old, Some json_error))"

definition dec_bool :: "bool decoder" where
  "dec_bool v old = (case v of GBool b \<Rightarrow> (b, None) | GNull \<Rightarrow> (old, None) | _ \<Rightarrow> (old, Some json_error))"

text \<open>An element is decoded into the one that was at its place, or into a new one.\<close>

fun dec_elems :: "'a decoder \<Rightarrow> 'a \<Rightarrow> 'a list \<Rightarrow> gval list \<Rightarrow> 'a list \<times> goerror option" where
  "dec_elems d zero old [] = ([], None)"
| "dec_elems d zero old (v # vs) =
     (case d v (case old of [] \<Rightarrow> zero | x # _ \<Rightarrow> x) of
        (x, e) \<Rightarrow> (case dec_elems d zero (tl old) vs of (xs, f) \<Rightarrow> (x # xs, first_error e f)))"

definition dec_list :: "'a decoder \<Rightarrow> 'a \<Rightarrow> 'a list decoder" where
  "dec_list d zero v old =
     (case as_array v of
        Some vs \<Rightarrow> dec_elems d zero old vs
      | None \<Rightarrow> if v = GNull then ([], None) else (old, Some json_error))"

definition dec_entry :: "string \<times> gval \<Rightarrow> (string \<times> string) list \<times> goerror option \<Rightarrow> (string \<times> string) list \<times> goerror option" where
  "dec_entry kv st = (case dec_str (snd kv) [] of (s, e) \<Rightarrow> (AList.update (json_text (fst kv)) s (fst st), first_error (snd st) e))"

definition dec_map :: "(string \<times> string) list decoder" where
  "dec_map v old =
     (case as_object v of
        Some m \<Rightarrow> fold dec_entry (sort_key fst m) (old, None)
      | None \<Rightarrow> if v = GNull then ([], None) else (old, Some json_error))"

text \<open>The field a key stands for, and the values given for a field in the order of the keys.\<close>

definition json_field :: "string list \<Rightarrow> string \<Rightarrow> string option" where
  "json_field fnames k = (if k \<in> set fnames then Some k else find (\<lambda>n. ToLower n = ToLower k) fnames)"

definition hits :: "string list \<Rightarrow> string \<Rightarrow> gmap \<Rightarrow> gval list" where
  "hits fnames n m = map snd (filter (\<lambda>(k, _). json_field fnames k = Some n) (sort_key fst m))"

definition dec_field :: "string list \<Rightarrow> gmap \<Rightarrow> string \<Rightarrow> 'a decoder \<Rightarrow> 'a \<Rightarrow> 'a \<times> goerror option" where
  "dec_field fnames m n d old =
     fold (\<lambda>v st. case d v (fst st) of (x, e) \<Rightarrow> (x, first_error (snd st) e)) (hits fnames n m) (old, None)"

definition dec_struct :: "(gmap \<Rightarrow> 'a \<Rightarrow> 'a \<times> goerror option) \<Rightarrow> 'a decoder" where
  "dec_struct f v old =
     (case as_object v of
        Some m \<Rightarrow> f m old
      | None \<Rightarrow> (old, if v = GNull then None else Some json_error))"

abbreviation errors :: "goerror option list \<Rightarrow> goerror option" where
  "errors es \<equiv> foldr first_error es None"

definition dec_wifi :: "wifi decoder" where
  "dec_wifi = dec_struct (\<lambda>m old.
     let fnames = map fst wifi_schema;
         n = dec_field fnames m ''name'' dec_str (Wifi_Name old);
         p = dec_field fnames m ''passphrase'' dec_str (Passphrase old)
     in (\<lparr>Wifi_Name = fst n, Passphrase = fst p\<rparr>, errors [snd n, snd p]))"

definition dec_file :: "cfile decoder" where
  "dec_file = dec_struct (\<lambda>m old.
     let fnames = map fst file_schema;
         e = dec_field fnames m ''encoding'' dec_str (Encoding old);
         c = dec_field fnames m ''content'' dec_str (Content old);
         ow = dec_field fnames m ''owner'' dec_str (Owner old);
         p = dec_field fnames m ''path'' dec_str (Path old);
         r = dec_field fnames m ''permissions'' dec_str (RawFilePermissions old)
     in (\<lparr>Encoding = fst e, Content = fst c, Owner = fst ow, Path = fst p, RawFilePermissions = fst r\<rparr>,
         errors [snd e, snd c, snd ow, snd p, snd r]))"

definition dec_install :: "install decoder" where
  "dec_install = dec_struct (\<lambda>m old.
     let fnames = map fst install_schema;
         fe = dec_field fnames m ''forceEfi'' dec_bool (ForceEFI old);
         dv = dec_field fnames m ''device'' dec_str (Device old);
         cu = dec_field fnames m ''configUrl'' dec_str (ConfigURL old);
         si = dec_field fnames m ''silent'' dec_bool (Silent old);
         iu = dec_field fnames m ''isoUrl'' dec_str (ISOURL old);
         po = dec_field fnames m ''powerOff'' dec_bool (PowerOff old);
         nf = dec_field fnames m ''noFormat'' dec_bool (NoFormat old);
         db = dec_field fnames m ''debug'' dec_bool (Debug old);
         ty = dec_field fnames m ''tty'' dec_str (TTY old)
     in (\<lparr>ForceEFI = fst fe, Device = fst dv, ConfigURL = fst cu, Silent = fst si, ISOURL = fst iu,
          PowerOff = fst po, NoFormat = fst nf, Debug = fst db, TTY = fst ty\<rparr>,
         errors [snd fe, snd dv, snd cu, snd si, snd iu, snd po, snd nf, snd db, snd ty]))"

text \<open>A pointer: null clears it, any other value is decoded into what it points to.\<close>

definition dec_ptr :: "'a decoder \<Rightarrow> 'a \<Rightarrow> 'a option decoder" where
  "dec_ptr d zero v old =
     (if v = GNull then (None, None)
      else case d v (case old of None \<Rightarrow> zero | Some x \<Rightarrow> x) of (x, e) \<Rightarrow> (Some x, e))"

definition emptyWifi :: wifi where "emptyWifi = \<lparr>Wifi_Name = [], Passphrase = []\<rparr>"

definition emptyFile :: cfile where
  "emptyFile = \<lparr>Encoding = [], Content = [], Owner = [], Path = [], RawFilePermissions = []\<rparr>"

definition dec_k3os :: "k3os decoder" where
  "dec_k3os = dec_struct (\<lambda>m old.
     let fnames = map fst k3os_schema;
         strs = (\<lambda>n. dec_field fnames m n (dec_list dec_str []));
         str = (\<lambda>n. dec_field fnames m n dec_str);
         smap = (\<lambda>n. dec_field fnames m n dec_map);
         ds = strs ''dataSources'' (DataSources old);
         mo = strs ''modules'' (Modules old);
         sy = smap ''sysctls'' (Sysctls old);
         nt = strs ''ntpServers'' (NTPServers old);
         dn = strs ''dnsNameservers'' (DNSNameservers old);
         wi = dec_field fnames m ''wifi'' (dec_list dec_wifi emptyWifi) (Wifi old);
         pw = str ''password'' (Password old);
         su = str ''serverUrl'' (ServerURL old);
         tk = str ''token'' (Token old);
         la = smap ''labels'' (Labels old);
         ka = strs ''k3sArgs'' (K3sArgs old);
         en = smap ''environment'' (Environment old);
         ta = strs ''taints'' (Taints old);
         ins = dec_field fnames m ''install'' (dec_ptr dec_install emptyInstall) (Install old)
     in (\<lparr>DataSources = fst ds, Modules = fst mo, Sysctls = fst sy, NTPServers = fst nt, DNSNameservers = fst dn,
          Wifi = fst wi, Password = fst pw, ServerURL = fst su, Token = fst tk, Labels = fst la, K3sArgs = fst ka,
          Environment = fst en, Taints = fst ta, Install = fst ins\<rparr>,
         errors [snd ds, snd mo, snd sy, snd nt, snd dn, snd wi, snd pw, snd su, snd tk, snd la, snd ka, snd en,
           snd ta, snd ins]))"

definition dec_config :: "CloudConfig decoder" where
  "dec_config = dec_struct (\<lambda>m old.
     let fnames = map fst cloudConfig_schema;
         strs = (\<lambda>n. dec_field fnames m n (dec_list dec_str []));
         ks = strs ''sshAuthorizedKeys'' (SSHAuthorizedKeys old);
         wf = dec_field fnames m ''writeFiles'' (dec_list dec_file emptyFile) (WriteFiles old);
         ho = dec_field fnames m ''hostname'' dec_str (Hostname old);
         k3 = dec_field fnames m ''k3os'' dec_k3os (K3OS old);
         rc = strs ''runCmd'' (Runcmd old);
         bc = strs ''bootCmd'' (Bootcmd old);
         ic = strs ''initCmd'' (Initcmd old)
     in (\<lparr>SSHAuthorizedKeys = fst ks, WriteFiles = fst wf, Hostname = fst ho, K3OS = fst k3, Runcmd = fst rc,
          Bootcmd = fst bc, Initcmd = fst ic\<rparr>,
         errors [snd ks, snd wf, snd ho, snd k3, snd rc, snd bc, snd ic]))"

definition ToObj :: "gmap \<Rightarrow> CloudConfig \<Rightarrow> CloudConfig \<times> goerror option" where
  "ToObj data into = dec_config (GMap data) into"

section \<open>Encoding\<close>

text \<open>The fields of a structure: left out if \<open>omitempty\<close> says so, their names and values.\<close>

definition enc_fields :: "(bool \<times> string \<times> gval) list \<Rightarrow> gmap" where
  "enc_fields fs = map snd (filter (\<lambda>f. \<not> fst f) fs)"

abbreviation enc_str :: "string \<Rightarrow> string \<Rightarrow> bool \<times> string \<times> gval" where
  "enc_str n s \<equiv> (s = [], n, GStr (json_text s))"

abbreviation enc_bool :: "string \<Rightarrow> bool \<Rightarrow> bool \<times> string \<times> gval" where
  "enc_bool n b \<equiv> (\<not> b, n, GBool b)"

abbreviation enc_strs :: "string \<Rightarrow> string list \<Rightarrow> bool \<times> string \<times> gval" where
  "enc_strs n ss \<equiv> (ss = [], n, GList (map (\<lambda>s. GStr (json_text s)) ss))"

definition enc_entries :: "(string \<times> string) list \<Rightarrow> gmap" where
  "enc_entries m = fold (\<lambda>(k, s). AList.update (json_text k) (GStr (json_text s))) (sort_key fst m) []"

abbreviation enc_map :: "string \<Rightarrow> (string \<times> string) list \<Rightarrow> bool \<times> string \<times> gval" where
  "enc_map n m \<equiv> (m = [], n, GMap (enc_entries m))"

definition enc_wifi :: "wifi \<Rightarrow> gval" where
  "enc_wifi w = GMap (enc_fields [enc_str ''name'' (Wifi_Name w), enc_str ''passphrase'' (Passphrase w)])"

definition enc_file :: "cfile \<Rightarrow> gval" where
  "enc_file f = GMap (enc_fields [(False, ''encoding'', GStr (json_text (Encoding f))), (False, ''content'', GStr (json_text (Content f))),
     (False, ''owner'', GStr (json_text (Owner f))), (False, ''path'', GStr (json_text (Path f))),
     (False, ''permissions'', GStr (json_text (RawFilePermissions f)))])"

definition enc_install :: "install \<Rightarrow> gmap" where
  "enc_install i = enc_fields [enc_bool ''forceEfi'' (ForceEFI i), enc_str ''device'' (Device i),
     enc_str ''configUrl'' (ConfigURL i), enc_bool ''silent'' (Silent i), enc_str ''isoUrl'' (ISOURL i),
     enc_bool ''powerOff'' (PowerOff i), enc_bool ''noFormat'' (NoFormat i), enc_bool ''debug'' (Debug i),
     enc_str ''tty'' (TTY i)]"

definition enc_k3os :: "k3os \<Rightarrow> gmap" where
  "enc_k3os k = enc_fields [enc_strs ''dataSources'' (DataSources k), enc_strs ''modules'' (Modules k),
     enc_map ''sysctls'' (Sysctls k), enc_strs ''ntpServers'' (NTPServers k),
     enc_strs ''dnsNameservers'' (DNSNameservers k), (Wifi k = [], ''wifi'', GList (map enc_wifi (Wifi k))),
     enc_str ''password'' (Password k), enc_str ''serverUrl'' (ServerURL k), enc_str ''token'' (Token k),
     enc_map ''labels'' (Labels k), enc_strs ''k3sArgs'' (K3sArgs k), enc_map ''environment'' (Environment k),
     enc_strs ''taints'' (Taints k),
     (Install k = None, ''install'', case Install k of None \<Rightarrow> GNull | Some i \<Rightarrow> GMap (enc_install i))]"

definition EncodeToMap :: "CloudConfig \<Rightarrow> gmap" where
  "EncodeToMap cfg = enc_fields [enc_strs ''sshAuthorizedKeys'' (SSHAuthorizedKeys cfg),
     (WriteFiles cfg = [], ''writeFiles'', GList (map enc_file (WriteFiles cfg))),
     enc_str ''hostname'' (Hostname cfg), (False, ''k3os'', GMap (enc_k3os (K3OS cfg))),
     enc_strs ''runCmd'' (Runcmd cfg), enc_strs ''bootCmd'' (Bootcmd cfg), enc_strs ''initCmd'' (Initcmd cfg)]"

end
