(* ===== verification/ConfigRead.thy ===== *)
theory ConfigRead
  imports ConfigJSON System GoBase64 GoFiles
begin

text \<open>
  \<^verbatim>\<open>pkg/config/read.go\<close> and \<^verbatim>\<open>read_cc.go\<close>: the sources of a configuration, merged in order. The YAML
  parser (\<^verbatim>\<open>ghodss/yaml\<close>) is the parameter \<open>unmarshal\<close>.
\<close>

section \<open>Files\<close>

definition SystemConfig :: string where "SystemConfig = RootPath [''config.yaml'']"
definition LocalConfig :: string where "LocalConfig = LocalPath [''config.yaml'']"
definition localConfigs :: string where "localConfigs = LocalPath [''config.d'']"

type_synonym yaml = "string \<Rightarrow> goerror + gmap"
type_synonym reader = "gmap os"

definition readFile :: "yaml \<Rightarrow> string \<Rightarrow> reader" where
  "readFile unmarshal path = do {
     f \<leftarrow> os_ReadFile path;
     State_Monad.return (case f of
       Inl e \<Rightarrow> if IsNotExist e then Inr [] else Inl e
     | Inr bytes \<Rightarrow> unmarshal bytes) }"

definition readSystemConfig :: "yaml \<Rightarrow> reader" where
  "readSystemConfig unmarshal = readFile unmarshal SystemConfig"

definition readLocalConfig :: "yaml \<Rightarrow> reader" where
  "readLocalConfig unmarshal = readFile unmarshal LocalConfig"

definition readLocalConfigs :: "yaml \<Rightarrow> (world, reader list) state" where
  "readLocalConfigs unmarshal = do {
     files \<leftarrow> os_ReadDirInfo localConfigs;
     State_Monad.return (case files of
       Inl e \<Rightarrow> if IsNotExist e then [] else [State_Monad.return (Inl e)]
     | Inr fs \<Rightarrow> map (\<lambda>f. readFile unmarshal (path_Join [localConfigs, fi_name f])) fs) }"

section \<open>The kernel command line\<close>

text \<open>
  The matches of the regular expression of \<open>readCmdline\<close>: a quoted text; else the longest word before
  an equals sign and a quoted text, with these; else a word.
\<close>

definition re_space :: "char \<Rightarrow> bool" where
  "re_space c = (c \<in> {CHR '' '', CHR 0x09, CHR 0x0A, CHR 0x0C, CHR 0x0D})"

definition quoted_len :: "string \<Rightarrow> nat option" where
  "quoted_len s =
     (case s of
        [] \<Rightarrow> None
      | c # t \<Rightarrow>
          (let q = takeWhile (\<lambda>c. c \<noteq> dquote) t
           in if c = dquote \<and> q \<noteq> [] \<and> length q < length t then Some (length q + 2) else None))"

definition assigned_len :: "string \<Rightarrow> nat \<Rightarrow> nat option" where
  "assigned_len s n =
     (case drop n s of
        [] \<Rightarrow> None
      | c # t \<Rightarrow> if c = CHR ''='' then map_option (\<lambda>q. n + 1 + q) (quoted_len t) else None)"

definition token_len :: "string \<Rightarrow> nat" where
  "token_len s =
     (let word = length (takeWhile (\<lambda>c. \<not> re_space c) s) in
      case quoted_len s of
        Some n \<Rightarrow> n
      | None \<Rightarrow>
          (case List.map_filter (assigned_len s) (rev [1..<Suc word]) of
             n # _ \<Rightarrow> n
           | [] \<Rightarrow> word))"

lemma quoted_len_pos: "quoted_len s = Some n \<Longrightarrow> n > 0"
  by (auto simp: quoted_len_def Let_def split: list.splits if_splits)

lemma assigned_len_pos: "assigned_len s m = Some n \<Longrightarrow> n > 0"
  by (auto simp: assigned_len_def split: list.splits if_splits)

lemma token_len_pos: "\<not> re_space c \<Longrightarrow> token_len (c # s) > 0"
proof (cases "quoted_len (c # s)")
  case None
  assume c: "\<not> re_space c"
  let ?w = "length (takeWhile (\<lambda>c. \<not> re_space c) (c # s))"
  let ?ns = "List.map_filter (assigned_len (c # s)) (rev [1..<Suc ?w])"
  have w: "?w > 0" using c by simp
  show ?thesis
  proof (cases ?ns)
    case (Cons n ns)
    then have "n \<in> set ?ns" by simp
    then obtain m where "assigned_len (c # s) m = Some n" by (force simp: List.map_filter_def)
    then have "n > 0" by (rule assigned_len_pos)
    then show ?thesis using None Cons by (simp only: token_len_def Let_def option.case list.case)
  qed (use None w in \<open>simp only: token_len_def Let_def option.case list.case\<close>)
qed (simp add: token_len_def quoted_len_pos)

function (sequential) FindAllString :: "string \<Rightarrow> string list" where
  "FindAllString [] = []"
| "FindAllString (c # s) =
     (if re_space c then FindAllString s
      else take (token_len (c # s)) (c # s) # FindAllString (drop (token_len (c # s)) (c # s)))"
  by pat_completeness auto
termination
  by (relation "measure length") (auto intro!: token_len_pos diff_less)

definition cmdline_keys :: "string \<Rightarrow> string list" where
  "cmdline_keys item = Split (TrimFunc (\<lambda>c. c = dquote) (SplitN2 item (CHR ''='') ! 0)) (CHR ''.'')"

definition cmdline_value :: "string \<Rightarrow> string" where
  "cmdline_value item =
     (let parts = SplitN2 item (CHR ''='')
      in if length parts > 1 then TrimFunc (\<lambda>c. c = dquote) (parts ! 1) else ''true'')"

definition add_value :: "gmap \<Rightarrow> string list \<times> string \<Rightarrow> gmap" where
  "add_value data kv =
     (case GetValue data (fst kv) of
        Some existing \<Rightarrow>
          (case existing of
             GStr v \<Rightarrow> PutValue data (GStrs [v, snd kv]) (fst kv)
           | GStrs v \<Rightarrow> PutValue data (GStrs (v @ [snd kv])) (fst kv)
           | _ \<Rightarrow> data)
      | None \<Rightarrow> PutValue data (GStr (snd kv)) (fst kv))"

definition parse_cmdline :: "string \<Rightarrow> gmap" where
  "parse_cmdline bytes =
     fold (\<lambda>item data. add_value data (cmdline_keys item, cmdline_value item)) (FindAllString bytes) []"

definition readCmdline :: reader where
  "readCmdline = do {
     f \<leftarrow> os_ReadFile ''/proc/cmdline'';
     State_Monad.return (case f of
       Inl e \<Rightarrow> if IsNotExist e then Inr [] else Inl e
     | Inr bytes \<Rightarrow> Inr (parse_cmdline bytes)) }"

section \<open>Cloud configuration and user data\<close>

definition cc_hostname :: string where "cc_hostname = ''/run/config/local_hostname''"
definition cc_ssh :: string where "cc_ssh = ''/run/config/ssh/authorized_keys''"
definition cc_userdata :: string where "cc_userdata = ''/run/config/userdata''"

definition key_lines :: "string \<Rightarrow> string list" where
  "key_lines keyData = filter (\<lambda>l. l \<noteq> []) (map TrimSpace (Split keyData newline))"

definition readCloudConfig :: reader where
  "readCloudConfig = do {
     h \<leftarrow> os_ReadFile cc_hostname;
     let result = (case h of Inr name \<Rightarrow> [(''hostname'', GStr (TrimSpace name))] | Inl _ \<Rightarrow> []);
     k \<leftarrow> os_ReadFile cc_ssh;
     State_Monad.return (case k of
       Inl _ \<Rightarrow> Inr result
     | Inr keyData \<Rightarrow>
         (let keys = key_lines keyData
          in Inr (if keys \<noteq> [] then result @ [(''ssh_authorized_keys'', GStrs keys)] else result))) }"

definition script_file :: "string \<Rightarrow> string \<Rightarrow> cfile" where
  "script_file content encoding = \<lparr>Encoding = encoding, Content = content, Owner = ''root'',
     Path = ''/run/k3os/userdata'', RawFilePermissions = ''0700''\<rparr>"

definition script_config :: "cfile \<Rightarrow> CloudConfig" where
  "script_config f = emptyConfig\<lparr>WriteFiles := [f], Runcmd := [''source /run/k3os/userdata'']\<rparr>"

definition parse_userdata :: "yaml \<Rightarrow> string \<Rightarrow> goerror + gmap" where
  "parse_userdata unmarshal data =
     (if CHR 0x00 \<in> set data
      then Inr (EncodeToMap (script_config (script_file (EncodeToString data) ''b64'')))
      else if HasPrefix data ''#!'' then Inr (EncodeToMap (script_config (script_file data [])))
      else unmarshal data)"

definition readUserData :: "yaml \<Rightarrow> reader" where
  "readUserData unmarshal = do {
     f \<leftarrow> os_ReadFile cc_userdata;
     State_Monad.return (case f of
       Inl e \<Rightarrow> if IsNotExist e then Inr [] else Inl e
     | Inr bytes \<Rightarrow> parse_userdata unmarshal bytes) }"

section \<open>Merging\<close>

primrec merge_from :: "gmap \<Rightarrow> reader list \<Rightarrow> gmap os" where
  "merge_from data [] = State_Monad.return (Inr data)"
| "merge_from data (r # rs) = do {
     newData \<leftarrow> r;
     onok newData (\<lambda>d. merge_from (UpdateMerge cloudConfig_schema data (ToInternal cloudConfig_schema d)) rs) }"

definition merge :: "reader list \<Rightarrow> gmap os" where
  "merge readers = merge_from [] readers"

definition initialConfig :: CloudConfig where
  "initialConfig = emptyConfig\<lparr>K3OS := emptyK3OS\<lparr>Install := Some emptyInstall\<rparr>\<rparr>"

definition readersToObject :: "reader list \<Rightarrow> (world, CloudConfig \<times> goerror option) state" where
  "readersToObject readers = do {
     data \<leftarrow> merge readers;
     State_Monad.return (case data of
       Inl e \<Rightarrow> (initialConfig, Some e)
     | Inr d \<Rightarrow> ToObj d initialConfig) }"

definition default_readers :: "yaml \<Rightarrow> reader list" where
  "default_readers unmarshal = [readSystemConfig unmarshal, readCmdline, readLocalConfig unmarshal,
     readCloudConfig, readUserData unmarshal]"

definition ReadConfig :: "yaml \<Rightarrow> (world, CloudConfig \<times> goerror option) state" where
  "ReadConfig unmarshal = do {
     locals \<leftarrow> readLocalConfigs unmarshal;
     readersToObject (default_readers unmarshal @ locals) }"

section \<open>The environment of the installer\<close>

primrec env_entry :: "gval \<Rightarrow> string \<Rightarrow> string list" where
  "env_entry (GMap m) = (\<lambda>keyName. concat (map (\<lambda>(k, e). e (ToUpper ((keyName @ ''_'') @ ToYAMLKey k)))
     (map (map_prod (\<lambda>k. k) env_entry) m)))"
| "env_entry GNull = (\<lambda>keyName. [keyName @ ''='' @ Sprint GNull])"
| "env_entry (GBool b) = (\<lambda>keyName. [keyName @ ''='' @ Sprint (GBool b)])"
| "env_entry (GNum m e) = (\<lambda>keyName. [keyName @ ''='' @ Sprint (GNum m e)])"
| "env_entry (GStr s) = (\<lambda>keyName. [keyName @ ''='' @ Sprint (GStr s)])"
| "env_entry (GStrs s) = (\<lambda>keyName. [keyName @ ''='' @ Sprint (GStrs s)])"
| "env_entry (GStrMap s) = (\<lambda>keyName. [keyName @ ''='' @ Sprint (GStrMap s)])"
| "env_entry (GList s) = (\<lambda>keyName. [keyName @ ''='' @ Sprint (GList s)])"

definition mapToEnv :: "string \<Rightarrow> gmap \<Rightarrow> string list" where
  "mapToEnv pre data = concat (map (\<lambda>(k, v). env_entry v (ToUpper (pre @ ToYAMLKey k))) data)"

definition ToEnv :: "CloudConfig \<Rightarrow> string list" where
  "ToEnv cfg = mapToEnv [] (EncodeToMap cfg)"

text \<open>A word of the command line that names a group of settings which already has one is dropped without a word.\<close>

lemma value_below_setting_dropped: "parse_cmdline ''k3os.token=a k3os=b'' = parse_cmdline ''k3os.token=a''"
  by code_simp

end
