(* ===== verification/ConfigLaws.thy ===== *)
theory ConfigLaws
  imports ConfigRead
begin

text \<open>
  How the names of a file find the fields: the table of names does not depend on the order in which the
  fields are visited, and a structure whose fields are spelled in an accepted way is read field by field.
\<close>

section \<open>The table of names\<close>

definition stems :: "string \<Rightarrow> string list" where
  "stems name = (if HasSuffix name ''s'' \<and> length name > 1 then [take (length name - 1) name] else [])
     @ (if HasSuffix name ''es'' \<and> length name > 2 then [take (length name - 2) name] else []) @ [name]"

definition aliases :: "string \<Rightarrow> string list" where
  "aliases name = concat (map (\<lambda>x. [ToLower x, ToYAMLKey x, ToLower (ToYAMLKey x)]) (stems name))"

lemma map_of_field_names:
  "map_of (field_names name names) k = (if k \<in> set (aliases name) then Some name else map_of names k)"
proof -
  have eq: "field_names name names = fold (\<lambda>a. AList.update a name) (aliases name) names"
    by (simp add: field_names_def aliases_def stems_def addName_def Let_def)
  have "map_of (fold (\<lambda>a. AList.update a name) as names) k = (if k \<in> set as then Some name else map_of names k)" for as
    by (induction as arbitrary: names) (auto simp: update_conv')
  then show ?thesis by (simp only: eq)
qed

definition unambiguous :: "string list \<Rightarrow> bool" where
  "unambiguous ns = distinct (concat (map (\<lambda>n. remdups (aliases n)) ns))"

lemma map_of_names:
  "unambiguous ns \<Longrightarrow> map_of (fold field_names ns names) k
     = (case find (\<lambda>n. k \<in> set (aliases n)) ns of Some n \<Rightarrow> Some n | None \<Rightarrow> map_of names k)"
proof (induction ns arbitrary: names)
  case (Cons n ns)
  have u: "unambiguous ns" "k \<in> set (aliases n) \<Longrightarrow> find (\<lambda>n. k \<in> set (aliases n)) ns = None"
    using Cons.prems by (auto simp: unambiguous_def find_None_iff)
  show ?case using Cons.IH [OF u(1)] u(2) by (simp add: map_of_field_names split: option.split)
qed simp

lemma names_iff:
  assumes "unambiguous ns"
  shows "find (\<lambda>n. k \<in> set (aliases n)) ns = Some n \<longleftrightarrow> n \<in> set ns \<and> k \<in> set (aliases n)"
  using assms
proof (induction ns)
  case (Cons m ns)
  have u: "unambiguous ns" "\<And>n. n \<in> set ns \<Longrightarrow> set (aliases m) \<inter> set (aliases n) = {}"
    using Cons.prems by (auto simp: unambiguous_def)
  show ?case using Cons.IH [OF u(1)] u(2) by auto
qed simp

lemma mset_concat_map: "mset ms = mset ns \<Longrightarrow> mset (concat (map f ms)) = mset (concat (map f ns))"
  by (simp add: mset_concat sum_mset_sum_list [symmetric])

lemma option_ext: "(\<And>n. x = Some n \<longleftrightarrow> y = Some n) \<Longrightarrow> x = y"
  by (cases x; cases y) auto

lemma FuzzyNames_order:
  assumes "unambiguous (map fst fs)" "mset gs = mset fs"
  shows "map_of (FuzzyNames gs) = map_of (FuzzyNames fs)"
proof
  fix k
  have m: "mset (map fst gs) = mset (map fst fs)" using assms(2) by simp
  have u: "unambiguous (map fst gs)"
    using assms(1) mset_eq_imp_distinct_iff [OF mset_concat_map [OF m]] unfolding unambiguous_def by blast
  have f: "find (\<lambda>n. k \<in> set (aliases n)) (map fst gs) = Some n
      \<longleftrightarrow> find (\<lambda>n. k \<in> set (aliases n)) (map fst fs) = Some n" for n
    unfolding names_iff [OF u] names_iff [OF assms(1)] mset_eq_setD [OF m] by (rule refl)
  then have "find (\<lambda>n. k \<in> set (aliases n)) (map fst gs) = find (\<lambda>n. k \<in> set (aliases n)) (map fst fs)"
    by (rule option_ext)
  then show "map_of (FuzzyNames gs) k = map_of (FuzzyNames fs) k"
    unfolding FuzzyNames_def update_conv' fun_upd_def map_of_names [OF u] map_of_names [OF assms(1)]
    by (simp only:)
qed

lemma schemas_unambiguous:
  "unambiguous (map fst cloudConfig_schema)" "unambiguous (map fst k3os_schema)"
  "unambiguous (map fst install_schema)" "unambiguous (map fst file_schema)"
  "unambiguous (map fst wifi_schema)"
  by code_simp+

text \<open>
  C36. Go visits the fields of a type in an arbitrary order when it builds the table of accepted names; for
  the types of the configuration every order yields the same table.
\<close>

theorem names_any_order:
  assumes "sch \<in> {cloudConfig_schema, k3os_schema, install_schema, file_schema, wifi_schema}"
    and "mset gs = mset sch"
  shows "map_of (FuzzyNames gs) = map_of (FuzzyNames sch)"
proof -
  have "unambiguous (map fst sch)" using assms(1) schemas_unambiguous by blast
  then show ?thesis using assms(2) by (rule FuzzyNames_order)
qed

theorem names_any_order_witness: "map_of (FuzzyNames (rev k3os_schema)) ''data_source'' = Some ''dataSources''"
proof -
  have "map_of (FuzzyNames k3os_schema) ''data_source'' = Some ''dataSources''" by code_simp
  then show ?thesis using names_any_order [of k3os_schema "rev k3os_schema"] by simp
qed

section \<open>Renaming\<close>

lemma map_of_fuzzy_fold:
  "map_of (fold (fuzzy_entry names) es data) k
    = (case filter (\<lambda>e. map_of names (fst e) = Some k \<and> fst e \<noteq> k) es of
         [] \<Rightarrow> map_of data k | hs \<Rightarrow> Some (snd (last hs)))"
proof (induction es arbitrary: data)
  case (Cons e es)
  have "map_of (fuzzy_entry names e data) k
      = (if map_of names (fst e) = Some k \<and> fst e \<noteq> k then Some (snd e) else map_of data k)"
    by (auto simp: fuzzy_entry_def update_conv' split: option.split)
  with Cons show ?case by (auto split: list.split)
qed simp

lemma distinct_fuzzy: "distinct (map fst data) \<Longrightarrow> distinct (map fst (fold (fuzzy_entry names) es data))"
proof (induction es arbitrary: data)
  case (Cons e es)
  have "distinct (map fst (fuzzy_entry names e data))"
    using Cons.prems by (auto simp: fuzzy_entry_def distinct_update split: option.split)
  with Cons.IH show ?case by simp
qed simp

lemma keys_fuzzy:
  "fst ` set (fold (fuzzy_entry names) es data) \<subseteq> fst ` set data \<union> {n. \<exists>e \<in> set es. map_of names (fst e) = Some n}"
proof (induction es arbitrary: data)
  case (Cons e es)
  have "fst ` set (fuzzy_entry names e data) \<subseteq> fst ` set data \<union> {n. map_of names (fst e) = Some n}"
    by (auto simp: fuzzy_entry_def dom_update split: option.split)
  with Cons [of "fuzzy_entry names e data"] show ?case by auto
qed simp

lemma map_fst_convert_field: "map fst (convert_field c n data) = map fst data"
proof -
  have "map_of data n = Some v \<Longrightarrow> map fst (AList.update n x data) = map fst data" for v x
    by (induction data) (auto split: if_splits)
  then show ?thesis by (auto simp: convert_field_def split: option.split)
qed

lemma map_fst_ToInternal: "map fst (ToInternal fs data) = map fst (FuzzyNames_ToInternal (FuzzyNames fs) data)"
proof -
  have f: "map fst (fold (\<lambda>x. convert_field (c x) (n x)) xs d) = map fst d" for c and n :: "'a \<Rightarrow> string" and xs d
    by (induction xs arbitrary: d) (simp_all add: map_fst_convert_field)
  have t: "map fst (type_converter ty c fs d) = map fst d" for ty c d
    unfolding type_converter_def by (rule f)
  show ?thesis unfolding ToInternal_def type_ToInternal_def f mappers_ToInternal_def t ..
qed

section \<open>Reading a structure\<close>

text \<open>
  \<open>reads sch m f\<close>: decoding the map \<open>m\<close> into a structure with the fields of \<open>sch\<close> finds for each field
  the value \<open>f\<close> gives, once.
\<close>

definition reads :: "schema \<Rightarrow> gmap \<Rightarrow> (string \<Rightarrow> gval option) \<Rightarrow> bool" where
  "reads sch m f \<longleftrightarrow> distinct (map fst m) \<and> (\<forall>n \<in> fst ` set sch. map_of m n = f n)
     \<and> (\<forall>k \<in> fst ` set m. \<forall>n. json_field (map fst sch) k = Some n \<longrightarrow> k = n)"

lemma filter_key:
  "distinct (map fst m) \<Longrightarrow> filter (\<lambda>y. fst y = n) m = (case map_of m n of None \<Rightarrow> [] | Some v \<Rightarrow> [(n, v)])"
proof (induction m)
  case (Cons e m)
  show ?case
  proof (cases "fst e = n")
    case True
    then have "map_of m n = None" using Cons.prems by (simp add: map_of_eq_None_iff)
    then show ?thesis using Cons True by (cases e) simp
  qed (use Cons in \<open>cases e; simp\<close>)
qed simp

lemma reads_hits:
  assumes "reads sch m f" "n \<in> fst ` set sch"
  shows "hits (map fst sch) n m = (case f n of None \<Rightarrow> [] | Some v \<Rightarrow> [v])"
proof -
  have d: "distinct (map fst m)" and f: "map_of m n = f n" using assms by (auto simp: reads_def)
  have self: "json_field (map fst sch) n = Some n" using assms(2) by (auto simp: json_field_def)
  have "filter (\<lambda>(k, _). json_field (map fst sch) k = Some n) (sort_key fst m)
      = filter (\<lambda>y. fst y = n) (sort_key fst m)"
    using assms(1) self by (intro filter_cong) (force simp: reads_def)+
  also have "\<dots> = filter (\<lambda>y. fst y = n) m" by (rule sort_key_stable)
  also have "\<dots> = (case map_of m n of None \<Rightarrow> [] | Some v \<Rightarrow> [(n, v)])"
    by (rule filter_key [OF d])
  finally show ?thesis unfolding hits_def f by (simp split: option.split)
qed

lemma first_error_None [simp]: "first_error None e = e"
  by (simp add: first_error_def)

lemma reads_dec_field:
  "reads sch m f \<Longrightarrow> n \<in> fst ` set sch \<Longrightarrow>
   dec_field (map fst sch) m n d old = (case f n of None \<Rightarrow> (old, None) | Some v \<Rightarrow> d v old)"
  by (simp add: dec_field_def reads_hits split: option.split prod.split)

text \<open>
  \<open>spelling y sch\<close>: \<open>y n\<close> is \<open>n\<close> itself or a spelling the table of names maps to it. (The table of a
  structure with a field \<open>password\<close> maps that name to \<open>passphrase\<close>, which is no field of it.)
\<close>

definition spelling :: "(string \<Rightarrow> string) \<Rightarrow> schema \<Rightarrow> bool" where
  "spelling y sch = list_all (\<lambda>n.
     (case map_of (FuzzyNames sch) (y n) of
        None \<Rightarrow> y n = n
      | Some p \<Rightarrow> p = n \<or> y n = n \<and> json_field (map fst sch) p = None)
     \<and> (y n = n \<or> json_field (map fst sch) (y n) = None)) (map fst sch)"

lemma json_field_self: "n \<in> fst ` set sch \<Longrightarrow> json_field (map fst sch) n = Some n"
  by (auto simp: json_field_def)

lemma spellingD:
  assumes "spelling y sch" "n \<in> fst ` set sch"
  shows "y n \<noteq> n \<Longrightarrow> map_of (FuzzyNames sch) (y n) = Some n"
    "y n = n \<or> json_field (map fst sch) (y n) = None"
    "map_of (FuzzyNames sch) (y n) = Some p \<Longrightarrow> p = n \<or> json_field (map fst sch) p = None"
  using assms by (auto simp: spelling_def list_all_iff split: option.splits)

lemma spelling_only:
  assumes "spelling y sch" "m \<in> fst ` set sch" "n \<in> fst ` set sch" "map_of (FuzzyNames sch) (y m) = Some n"
  shows "m = n"
  using spellingD(3) [OF assms(1,2,4)] json_field_self [OF assms(3)] by auto

lemma spelling_inj: "spelling y sch \<Longrightarrow> inj_on y (fst ` set sch)"
  by (rule inj_onI) (metis spelling_only spellingD(1))

lemma map_of_spelled:
  "inj_on y (insert n (fst ` set E)) \<Longrightarrow> map_of (map (\<lambda>(n, v). (y n, v)) E) (y n) = map_of E n"
  by (induction E) (auto simp: inj_on_def)

lemma spelled_keys:
  assumes sp: "spelling y sch" and sch: "distinct (map fst sch)"
    and E: "distinct (map fst E)" "fst ` set E \<subseteq> fst ` set sch"
    and data: "distinct (map fst data)" "map_of data = map_of (map (\<lambda>(n, v). (y n, v)) E)"
  shows "fst ` set data = y ` fst ` set E"
  using arg_cong [OF data(2), of dom] by (simp add: dom_map_of_conv_image_fst image_image case_prod_unfold)

text \<open>Renaming finds a field under the name it is spelled with.\<close>

lemma spelled_renamed:
  assumes sp: "spelling y sch" and sch: "distinct (map fst sch)"
    and E: "distinct (map fst E)" "fst ` set E \<subseteq> fst ` set sch"
    and data: "distinct (map fst data)" "map_of data = map_of (map (\<lambda>(n, v). (y n, v)) E)"
    and n: "n \<in> fst ` set sch"
  shows "map_of (FuzzyNames_ToInternal (FuzzyNames sch) data) n = map_of E n"
proof -
  let ?N = "FuzzyNames sch" and ?S = "fst ` set sch"
  note tab = spellingD [OF sp] and fld = json_field_self and only = spelling_only [OF sp]
    and inj = spelling_inj [OF sp]
  note keys = spelled_keys [OF sp sch E data]
  have val: "map_of data (y n) = map_of E n" 
    using map_of_spelled [of y n E] inj E(2) n unfolding data(2)
    by (metis (no_types, lifting) inj_on_subset insert_subset)
  have same: "map_of ?N (fst e) = Some n \<and> fst e \<noteq> n \<longleftrightarrow> fst e = y n \<and> y n \<noteq> n" if "e \<in> set data" for e
  proof -
    have "fst e \<in> y ` fst ` set E" unfolding keys [symmetric] using that by (rule imageI)
    then obtain m where m: "fst e = y m" "m \<in> ?S" using E(2) by blast
    then show ?thesis using only [OF m(2) n] tab(1) [OF n] inj_onD [OF inj _ m(2) n] by auto
  qed
  have "filter (\<lambda>e. map_of ?N (fst e) = Some n \<and> fst e \<noteq> n) data = filter (\<lambda>e. fst e = y n \<and> y n \<noteq> n) data"
    by (rule filter_cong) (simp_all add: same)
  then have "filter (\<lambda>e. map_of ?N (fst e) = Some n \<and> fst e \<noteq> n) data
      = (if y n = n then [] else case map_of data (y n) of None \<Rightarrow> [] | Some v \<Rightarrow> [(y n, v)])"
    using filter_key [OF data(1), of "y n"] by (cases "y n = n") simp_all
  moreover have "map_of data n = None" if "y n \<noteq> n"
  proof -
    have "n \<noteq> y m" if "m \<in> ?S" for m
      using tab(2) [OF that] fld [OF n] \<open>y n \<noteq> n\<close> by auto
    then have "n \<notin> fst ` set data" using keys E(2) by blast
    then show ?thesis by (simp add: map_of_eq_None_iff)
  qed
  ultimately show ?thesis
    using val unfolding FuzzyNames_ToInternal_def map_of_fuzzy_fold
    by (auto split: option.split)
qed

text \<open>No other key is taken for a field.\<close>

lemma spelled_only_key:
  assumes sp: "spelling y sch" and sch: "distinct (map fst sch)"
    and E: "distinct (map fst E)" "fst ` set E \<subseteq> fst ` set sch"
    and data: "distinct (map fst data)" "map_of data = map_of (map (\<lambda>(n, v). (y n, v)) E)"
    and k: "k \<in> fst ` set (ToInternal sch data)" "json_field (map fst sch) k = Some n"
  shows "k = n"
proof -
  let ?N = "FuzzyNames sch" and ?S = "fst ` set sch"
  note tab = spellingD [OF sp] and fld = json_field_self and only = spelling_only [OF sp]
    and inj = spelling_inj [OF sp]
  note keys = spelled_keys [OF sp sch E data]
  have "fst ` set (ToInternal sch data) = fst ` set (FuzzyNames_ToInternal ?N data)"
    using arg_cong [OF map_fst_ToInternal, of set sch data] by simp
  then have kk: "k \<in> fst ` set data \<union> {n. \<exists>e \<in> set data. map_of ?N (fst e) = Some n}"
    using k(1) subsetD [OF keys_fuzzy] unfolding FuzzyNames_ToInternal_def by simp
  have y: "\<exists>m \<in> ?S. fst e = y m" if "e \<in> set data" for e
    using imageI [OF that, of fst] E(2) unfolding keys by blast
  from kk consider e where "e \<in> set data" "k = fst e" | e where "e \<in> set data" "map_of ?N (fst e) = Some k"
    by blast
  then show ?thesis
  proof cases
    case (1 e)
    then obtain m where "m \<in> ?S" "k = y m" using y by metis
    then show ?thesis using k(2) tab(2) fld by force
  next
    case (2 e)
    then obtain m where m: "m \<in> ?S" "map_of ?N (y m) = Some k" using y by metis
    then show ?thesis using k(2) tab(3) [OF m] fld [OF m(1)] by auto
  qed
qed

lemma spelled_reads:
  assumes sp: "spelling y sch" and sch: "distinct (map fst sch)"
    and E: "distinct (map fst E)" "fst ` set E \<subseteq> fst ` set sch"
    and data: "distinct (map fst data)" "map_of data = map_of (map (\<lambda>(n, v). (y n, v)) E)"
  shows "reads sch (ToInternal sch data)
    (\<lambda>n. map_option (conv_value (the (map_of sch n))) (map_of E n))"
proof -
  let ?S = "fst ` set sch"
  have "map_of (ToInternal sch data) n = map_option (conv_value (the (map_of sch n))) (map_of E n)" if "n \<in> ?S" for n
  proof -
    have "map_of sch n \<noteq> None" using that by (simp only: map_of_eq_None_iff not_not)
    then obtain ty where "map_of sch n = Some ty" by blast
    then show ?thesis by (simp add: map_of_ToInternal [OF sch] spelled_renamed [OF sp sch E data that])
  qed
  moreover have "k = n" if "k \<in> fst ` set (ToInternal sch data)" "json_field (map fst sch) k = Some n" for k n
    by (rule spelled_only_key [OF sp sch E data that])
  moreover have "distinct (map fst (ToInternal sch data))"
    using distinct_fuzzy [OF data(1)] by (simp add: map_fst_ToInternal FuzzyNames_ToInternal_def)
  ultimately show ?thesis by (auto simp: reads_def)
qed

lemma yaml_spellings:
  "spelling ToYAMLKey cloudConfig_schema" "spelling ToYAMLKey k3os_schema" "spelling ToYAMLKey install_schema"
  by code_simp+

lemma own_spellings: "spelling (\<lambda>n. n) file_schema" "spelling (\<lambda>n. n) wifi_schema"
  by code_simp+

lemma distinct_schemas:
  "distinct (map fst cloudConfig_schema)" "distinct (map fst k3os_schema)" "distinct (map fst install_schema)"
  "distinct (map fst file_schema)" "distinct (map fst wifi_schema)"
  by code_simp+

end
