(* ===== verification/ConfigWrite.thy ===== *)
theory ConfigWrite
  imports ConfigLaws
begin

text \<open>
  \<^verbatim>\<open>pkg/config/write.go\<close>: writing a configuration with the keys of a YAML file, and reading it back. The
  YAML printer is the parameter \<open>marshal\<close>; \<open>GNull\<close> is the nil map.
\<close>

section \<open>write.go\<close>

text \<open>The loop over the map; the keys it adds are fixed points of the renaming.\<close>

definition rename_key :: "string \<times> gval \<Rightarrow> gmap \<Rightarrow> gmap" where
  "rename_key kv data =
     (let newK = ToYAMLKey (fst kv)
      in if newK \<noteq> fst kv then AList.update newK (snd kv) (AList.delete (fst kv) data) else data)"

definition rename_keys :: "gmap \<Rightarrow> gmap" where
  "rename_keys data = fold rename_key data data"

primrec yaml_value :: "gval \<Rightarrow> gval" where
  "yaml_value (GMap m) = GMap (rename_keys (map (map_prod (\<lambda>k. k) yaml_value) m))"
| "yaml_value GNull = GNull"
| "yaml_value (GBool b) = GBool b"
| "yaml_value (GNum m e) = GNum m e"
| "yaml_value (GStr s) = GStr s"
| "yaml_value (GStrs s) = GStrs s"
| "yaml_value (GStrMap s) = GStrMap s"
| "yaml_value (GList s) = GList s"

definition toYAMLKeys :: "gmap \<Rightarrow> gmap" where
  "toYAMLKeys data = rename_keys (map (map_prod (\<lambda>k. k) yaml_value) data)"

type_synonym yaml_printer = "gval \<Rightarrow> goerror + string"

definition ToBytes :: "yaml_printer \<Rightarrow> CloudConfig \<Rightarrow> goerror + string" where
  "ToBytes marshal cfg =
     marshal (GMap (toYAMLKeys (EncodeToMap (cfg\<lparr>K3OS := (K3OS cfg)\<lparr>Install := None\<rparr>\<rparr>))))"

definition Write :: "yaml_printer \<Rightarrow> CloudConfig \<Rightarrow> (string \<Rightarrow> unit os) \<Rightarrow> unit os" where
  "Write marshal cfg writer =
     (case ToBytes marshal cfg of
        Inl e \<Rightarrow> State_Monad.return (Inl (ErrWrap ''failed to marshal []: '' e))
      | Inr bytes \<Rightarrow> writer bytes)"

definition PrintInstall :: "yaml_printer \<Rightarrow> CloudConfig \<Rightarrow> goerror + string" where
  "PrintInstall marshal cfg =
     marshal (case Install (K3OS cfg) of None \<Rightarrow> GNull | Some i \<Rightarrow> GMap (toYAMLKeys (enc_install i)))"

section \<open>Laws\<close>

lemma to_lower_not_upper: "\<not> is_upper (to_lower c)"
proof (cases "is_upper c")
  case True
  then show ?thesis by (cases c) (simp add: to_lower_code, simp add: is_upper_code)
qed (simp add: to_lower_def)

lemma to_lower_id [simp]: "\<not> is_upper c \<Longrightarrow> to_lower c = c"
  by (simp add: to_lower_def)

lemma underscore: "\<not> is_upper (CHR ''_'')"
  by (simp add: is_upper_code)

lemma yaml_key_tail_lower: "list_all (\<lambda>c. \<not> is_upper c) (yaml_key_tail cap s)"
  by (induction s arbitrary: cap) (simp_all add: to_lower_not_upper underscore)

lemma yaml_key_tail_id: "list_all (\<lambda>c. \<not> is_upper c) s \<Longrightarrow> yaml_key_tail cap s = s"
  by (induction s arbitrary: cap) simp_all

lemma ToYAMLKey_idem: "ToYAMLKey (ToYAMLKey s) = ToYAMLKey s"
  by (cases s) (simp_all add: ToYAMLKey_def yaml_key_tail_id yaml_key_tail_lower to_lower_not_upper)

lemma map_of_rename_keys:
  assumes d: "distinct (map fst m)" and inj: "inj_on ToYAMLKey (fst ` set m)"
  shows "map_of (rename_keys m) = map_of (map (\<lambda>(n, v). (ToYAMLKey n, v)) m)"
proof -
  let ?y = "map (\<lambda>(n, v). (ToYAMLKey n, v))"
  have "m = ps @ qs \<Longrightarrow> map_of acc = map_of (?y ps @ qs) \<Longrightarrow> map_of (fold rename_key qs acc) = map_of (?y m)"
    for ps qs acc
  proof (induction qs arbitrary: ps acc)
    case (Cons e qs)
    obtain k v where e: "e = (k, v)" by fastforce
    have m: "m = (ps @ [e]) @ qs" using Cons.prems(1) by simp
    have k: "k \<notin> fst ` set ps" "k \<notin> fst ` set qs" using d unfolding Cons.prems(1) e by auto
    have other: "ToYAMLKey n \<noteq> ToYAMLKey k" if "n \<in> fst ` set ps \<union> fst ` set qs" for n
      using inj_onD [OF inj, of n k] that k unfolding Cons.prems(1) e by auto
    have ne: "ToYAMLKey n \<noteq> k" if "n \<in> fst ` set ps" for n
      using other [of n] that ToYAMLKey_idem [of n] by auto
    have notin: "ToYAMLKey k \<notin> fst ` set qs" "ToYAMLKey k \<notin> fst ` set (?y ps)" "k \<notin> fst ` set (?y ps)"
      using other ne ToYAMLKey_idem [of k] by force+
    have "map_of (rename_key e acc) = map_of (?y (ps @ [e]) @ qs)"
    proof
      fix x
      have acc: "map_of acc x = map_of (?y ps @ e # qs) x" using Cons.prems(2) by simp
      have none: "map_of (?y ps) k = None" "map_of (?y ps) (ToYAMLKey k) = None" "map_of qs k = None"
        "map_of qs (ToYAMLKey k) = None"
        using notin k by (simp_all add: map_of_eq_None_iff del: set_map)
      show "map_of (rename_key e acc) x = map_of (?y (ps @ [e]) @ qs) x"
        using none acc by (auto simp: rename_key_def Let_def e update_conv' delete_conv' map_add_def
            restrict_map_def split: option.split)
    qed
    from Cons.IH [OF m this] show ?case by simp
  qed simp
  from this [of "[]" m m] show ?thesis by (simp add: rename_keys_def)
qed

lemma distinct_rename_keys: "distinct (map fst m) \<Longrightarrow> distinct (map fst (rename_keys m))"
proof -
  have "distinct (map fst d) \<Longrightarrow> distinct (map fst (fold rename_key es d))" for es d
  proof (induction es arbitrary: d)
    case (Cons e es)
    then have "distinct (map fst (rename_key e d))"
      by (auto simp: rename_key_def Let_def intro: distinct_update distinct_delete)
    with Cons.IH show ?case by simp
  qed simp
  then show "distinct (map fst m) \<Longrightarrow> distinct (map fst (rename_keys m))" by (simp add: rename_keys_def)
qed

lemma rename_keys_id: "\<forall>k \<in> fst ` set m. ToYAMLKey k = k \<Longrightarrow> rename_keys m = m"
proof -
  have "\<forall>k \<in> fst ` set es. ToYAMLKey k = k \<Longrightarrow> fold rename_key es d = d" for es d
    by (induction es arbitrary: d) (simp_all add: rename_key_def)
  then show "\<forall>k \<in> fst ` set m. ToYAMLKey k = k \<Longrightarrow> rename_keys m = m" by (simp add: rename_keys_def)
qed

section \<open>Fields\<close>

lemma map_of_enc_fields:
  "map_of (enc_fields []) k = None"
  "map_of (enc_fields ((b, n, v) # fs)) k = (if \<not> b \<and> k = n then Some v else map_of (enc_fields fs) k)"
  by (simp_all add: enc_fields_def)

lemma enc_fields_keys:
  "distinct (map (\<lambda>f. fst (snd f)) fs) \<Longrightarrow> distinct (map fst (enc_fields fs))"
  "fst ` set (enc_fields fs) \<subseteq> (\<lambda>f. fst (snd f)) ` set fs"
proof -
  assume "distinct (map (\<lambda>f. fst (snd f)) fs)"
  then have "distinct (map (\<lambda>f. fst (snd f)) (filter (\<lambda>f. \<not> fst f) fs))" by (rule distinct_map_filter)
  then show "distinct (map fst (enc_fields fs))" by (simp add: enc_fields_def comp_def)
qed (force simp: enc_fields_def)

text \<open>
  \<open>encodes sch fs\<close>: the fields \<open>fs\<close> are those of \<open>sch\<close>, in its order.
\<close>

abbreviation encodes :: "schema \<Rightarrow> (bool \<times> string \<times> gval) list \<Rightarrow> bool" where
  "encodes sch fs \<equiv> map (\<lambda>f. fst (snd f)) fs = map fst sch"

lemma yaml_fields_reads:
  assumes sch: "spelling ToYAMLKey sch" "distinct (map fst sch)" and fs: "encodes sch fs"
  shows "reads sch (ToInternal sch (toYAMLKeys (enc_fields fs)))
    (\<lambda>n. map_option (\<lambda>v. conv_value (the (map_of sch n)) (yaml_value v)) (map_of (enc_fields fs) n))"
proof -
  let ?E = "map (map_prod (\<lambda>k. k) yaml_value) (enc_fields fs)"
  have keys: "map fst ?E = map fst (enc_fields fs)" by simp
  have d: "distinct (map fst ?E)" unfolding keys using fs sch(2) by (intro enc_fields_keys(1)) simp
  have img: "fst ` set ?E = fst ` set (enc_fields fs)" by (simp add: image_image)
  have sub: "fst ` set ?E \<subseteq> fst ` set sch"
    unfolding img using enc_fields_keys(2) [of fs] arg_cong [OF fs, of set] by simp
  have inj: "inj_on ToYAMLKey (fst ` set ?E)"
    by (rule inj_on_subset [OF spelling_inj [OF sch(1)] sub])
  have m: "map_of (toYAMLKeys (enc_fields fs)) = map_of (map (\<lambda>(n, v). (ToYAMLKey n, v)) ?E)"
    unfolding toYAMLKeys_def by (rule map_of_rename_keys [OF d inj])
  have d': "distinct (map fst (toYAMLKeys (enc_fields fs)))"
    unfolding toYAMLKeys_def by (rule distinct_rename_keys [OF d])
  have v: "map_of (map (map_prod (\<lambda>k. k) yaml_value) es) n = map_option yaml_value (map_of es n)"
    for es :: gmap and n
    by (induction es) auto
  show ?thesis using spelled_reads [OF sch d sub d' m] unfolding v option.map_comp comp_def .
qed

lemma own_fields_reads:
  assumes sch: "spelling (\<lambda>n. n) sch" "distinct (map fst sch)" and fs: "encodes sch fs"
  shows "reads sch (ToInternal sch (enc_fields fs))
    (\<lambda>n. map_option (conv_value (the (map_of sch n))) (map_of (enc_fields fs) n))"
proof (rule spelled_reads [OF sch])
  show d: "distinct (map fst (enc_fields fs))" using fs sch(2) by (intro enc_fields_keys(1)) simp
  then show "distinct (map fst (enc_fields fs))" .
  show "fst ` set (enc_fields fs) \<subseteq> fst ` set sch"
    using enc_fields_keys(2) [of fs] arg_cong [OF fs, of set] by simp
qed (simp add: case_prod_unfold)

section \<open>Reading back\<close>

definition str_map_ok :: "(string \<times> string) list \<Rightarrow> bool" where
  "str_map_ok m \<longleftrightarrow> distinct (map fst m) \<and> sorted (map fst m)
     \<and> list_all (\<lambda>(k, v). utf8 k \<and> utf8 v \<and> ToYAMLKey k = k \<and> TrimSpace v = v) m"

definition k3os_ok :: "k3os \<Rightarrow> bool" where
  "k3os_ok k \<longleftrightarrow>
     list_all (list_all utf8) [DataSources k, Modules k, NTPServers k, DNSNameservers k, K3sArgs k, Taints k,
       [Password k, ServerURL k, Token k]]
     \<and> list_all (\<lambda>w. utf8 (Wifi_Name w) \<and> utf8 (Passphrase w)) (Wifi k)
     \<and> list_all str_map_ok [Sysctls k, Labels k, Environment k]"

definition file_ok :: "cfile \<Rightarrow> bool" where
  "file_ok f \<longleftrightarrow> list_all utf8 [Encoding f, Content f, Owner f, Path f, RawFilePermissions f]"

definition config_ok :: "CloudConfig \<Rightarrow> bool" where
  "config_ok cfg \<longleftrightarrow>
     list_all (list_all utf8) [SSHAuthorizedKeys cfg, [Hostname cfg], Runcmd cfg, Bootcmd cfg, Initcmd cfg]
     \<and> list_all file_ok (WriteFiles cfg) \<and> k3os_ok (K3OS cfg)"

lemma update_append: "k \<notin> fst ` set m \<Longrightarrow> AList.update k v m = m @ [(k, v)]"
  by (induction m) auto

lemma dec_strs: "list_all utf8 ss \<Longrightarrow> dec_elems dec_str zero [] (map (\<lambda>s. GStr (json_text s)) ss) = (ss, None)"
  by (induction ss) (simp_all add: dec_str_def)

lemma enc_entries_ok:
  assumes "str_map_ok m"
  shows "enc_entries m = map (\<lambda>(k, s). (k, GStr s)) m"
proof -
  have "str_map_ok m \<Longrightarrow> fst ` set m \<inter> fst ` set acc = {} \<Longrightarrow>
      fold (\<lambda>(k, s). AList.update (json_text k) (GStr (json_text s))) m acc = acc @ map (\<lambda>(k, s). (k, GStr s)) m" for acc
  proof (induction m arbitrary: acc)
    case (Cons e m)
    obtain k s where e: "e = (k, s)" by fastforce
    have "AList.update k (GStr s) acc = acc @ [(k, GStr s)]"
      using Cons.prems e by (intro update_append) auto
    then show ?case using Cons.prems Cons.IH [of "acc @ [(k, GStr s)]"] unfolding e
      by (auto simp: str_map_ok_def)
  qed simp
  from this [of "[]"] show ?thesis
    using assms by (simp add: enc_entries_def str_map_ok_def sort_key_id_if_sorted)
qed

lemma dec_map_ok:
  assumes "str_map_ok m"
  shows "dec_map (GStrMap m) [] = (m, None)"
proof -
  have "str_map_ok m \<Longrightarrow> fst ` set m \<inter> fst ` set acc = {} \<Longrightarrow>
      fold dec_entry (map (\<lambda>(k, s). (k, GStr s)) m) (acc, None) = (acc @ m, None)" for acc
  proof (induction m arbitrary: acc)
    case (Cons e m)
    obtain k s where e: "e = (k, s)" by fastforce
    have "AList.update k s acc = acc @ [(k, s)]"
      using Cons.prems e by (intro update_append) auto
    then show ?case using Cons.prems Cons.IH [of "acc @ [(k, s)]"] unfolding e
      by (auto simp: str_map_ok_def dec_entry_def dec_str_def)
  qed simp
  moreover have "sort_key fst (map (\<lambda>(k, s). (k, GStr s)) m) = map (\<lambda>(k, s). (k, GStr s)) m"
    using assms by (intro sort_key_id_if_sorted) (simp add: str_map_ok_def comp_def case_prod_unfold)
  ultimately show ?thesis using assms by (simp add: dec_map_def as_object_def)
qed

lemma conv_yaml:
  "conv_value FString v = v"
  "conv_value FStrings (yaml_value (GList vs)) = GList vs"
  "str_map_ok m \<Longrightarrow> conv_value FStrMap (yaml_value (GMap (enc_entries m))) = GStrMap m"
proof -
  assume m: "str_map_ok m"
  let ?g = "map (\<lambda>(k, s). (k, GStr s)) m"
  have r: "rename_keys ?g = ?g" using m by (intro rename_keys_id) (auto simp: str_map_ok_def list_all_iff)
  have g: "map (map_prod (\<lambda>k. k) yaml_value) ?g = ?g" by (simp add: case_prod_unfold)
  have "yaml_value (GMap (enc_entries m)) = GMap ?g"
    unfolding enc_entries_ok [OF m] yaml_value.simps g r ..
  moreover have "map (\<lambda>(k, v). (k, ToString v)) ?g = m"
    using m by (auto simp: str_map_ok_def list_all_iff ToString_def ToStringNoTrim_def Singular_def intro!: map_idI)
  ultimately show "conv_value FStrMap (yaml_value (GMap (enc_entries m))) = GStrMap m"
    by (simp add: conv_value_def NewToMap_def)
qed (simp_all add: conv_value_def NewToSlice_def)

text \<open>Where a field of a structure is read, and the elements of the lists of structures.\<close>

lemma own_field:
  assumes "spelling (\<lambda>n. n) sch" "distinct (map fst sch)" "encodes sch fs" "map_of sch n = Some ty"
  shows "dec_field (map fst sch) (ToInternal sch (enc_fields fs)) n d old
    = (case map_of (enc_fields fs) n of None \<Rightarrow> (old, None) | Some v \<Rightarrow> d (conv_value ty v) old)"
  using reads_dec_field [OF own_fields_reads [OF assms(1-3)], of n d old] assms(4)
  by (force split: option.split dest: map_of_SomeD intro: rev_image_eqI)

lemma yaml_field:
  assumes "spelling ToYAMLKey sch" "distinct (map fst sch)" "encodes sch fs" "map_of sch n = Some ty"
  shows "dec_field (map fst sch) (ToInternal sch (toYAMLKeys (enc_fields fs))) n d old
    = (case map_of (enc_fields fs) n of None \<Rightarrow> (old, None) | Some v \<Rightarrow> d (conv_value ty (yaml_value v)) old)"
  using reads_dec_field [OF yaml_fields_reads [OF assms(1-3)], of n d old] assms(4)
  by (force split: option.split dest: map_of_SomeD intro: rev_image_eqI)

lemma wifi_fields: "map_of wifi_schema ''name'' = Some FString" "map_of wifi_schema ''passphrase'' = Some FString"
  by code_simp+

lemma dec_wifi_ok:
  assumes "utf8 (Wifi_Name w)" "utf8 (Passphrase w)"
  shows "dec_wifi (on_map (ToInternal wifi_schema) (enc_wifi w)) emptyWifi = (w, None)"
proof -
  let ?fs = "[(Wifi_Name w = [], ''name'', GStr (Wifi_Name w)), (Passphrase w = [], ''passphrase'', GStr (Passphrase w))]"
  have "encodes wifi_schema ?fs" by (simp add: wifi_schema_def)
  note F = own_field [OF own_spellings(2) distinct_schemas(5) this]
  show ?thesis
    using assms
    by (simp add: enc_wifi_def on_map_def dec_wifi_def dec_struct_def as_object_def Let_def
        wifi_fields [THEN F] map_of_enc_fields conv_yaml(1) dec_str_def emptyWifi_def)
qed

lemma file_fields:
  "map_of file_schema ''encoding'' = Some FString" "map_of file_schema ''content'' = Some FString"
  "map_of file_schema ''owner'' = Some FString" "map_of file_schema ''path'' = Some FString"
  "map_of file_schema ''permissions'' = Some FString"
  by code_simp+

lemma dec_file_ok:
  assumes "file_ok f"
  shows "dec_file (on_map (ToInternal file_schema) (enc_file f)) emptyFile = (f, None)"
proof -
  let ?fs = "[(False, ''encoding'', GStr (Encoding f)), (False, ''content'', GStr (Content f)),
    (False, ''owner'', GStr (Owner f)), (False, ''path'', GStr (Path f)),
    (False, ''permissions'', GStr (RawFilePermissions f))]"
  have "encodes file_schema ?fs" by (simp add: file_schema_def)
  note F = own_field [OF own_spellings(1) distinct_schemas(4) this]
  show ?thesis
    using assms
    by (simp add: file_ok_def enc_file_def on_map_def dec_file_def dec_struct_def as_object_def Let_def
        file_fields [THEN F] map_of_enc_fields conv_yaml(1) dec_str_def emptyFile_def)
qed

lemma dec_objects:
  assumes "\<And>x. x \<in> set xs \<Longrightarrow> d (on_map (ToInternal fs) (enc x)) zero = (x, None)"
  shows "dec_list d zero (conv_value (FObjs fs) (yaml_value (GList (map enc xs)))) [] = (xs, None)"
proof -
  have "(\<And>x. x \<in> set xs \<Longrightarrow> d (h x) zero = (x, None)) \<Longrightarrow> dec_elems d zero [] (map h xs) = (xs, None)"
    for h :: "_ \<Rightarrow> gval"
    by (induction xs) simp_all
  from this [of "\<lambda>x. on_map (ToInternal fs) (enc x)"] assms show ?thesis
    by (simp add: dec_list_def conv_value_def as_array_def ToInternal_def [abs_def] comp_def)
qed

lemma k3os_fields:
  "map_of k3os_schema ''dataSources'' = Some FStrings" "map_of k3os_schema ''modules'' = Some FStrings"
  "map_of k3os_schema ''sysctls'' = Some FStrMap" "map_of k3os_schema ''ntpServers'' = Some FStrings"
  "map_of k3os_schema ''dnsNameservers'' = Some FStrings" "map_of k3os_schema ''wifi'' = Some (FObjs wifi_schema)"
  "map_of k3os_schema ''password'' = Some FString" "map_of k3os_schema ''serverUrl'' = Some FString"
  "map_of k3os_schema ''token'' = Some FString" "map_of k3os_schema ''labels'' = Some FStrMap"
  "map_of k3os_schema ''k3sArgs'' = Some FStrings" "map_of k3os_schema ''environment'' = Some FStrMap"
  "map_of k3os_schema ''taints'' = Some FStrings" "map_of k3os_schema ''install'' = Some (FObj install_schema)"
  by code_simp+

text \<open>What each kind of field decodes to: the value, also when it was left out.\<close>

lemma field_values:
  "utf8 s \<Longrightarrow> (case if s = [] then None else Some (GStr (json_text s)) of None \<Rightarrow> ([], None)
      | Some v \<Rightarrow> dec_str (conv_value FString (yaml_value v)) []) = (s, None)"
  "list_all utf8 ss \<Longrightarrow> (case if ss = [] then None else Some (GList (map (\<lambda>s. GStr (json_text s)) ss)) of None \<Rightarrow> ([], None)
      | Some v \<Rightarrow> dec_list dec_str [] (conv_value FStrings (yaml_value v)) []) = (ss, None)"
  "str_map_ok m \<Longrightarrow> (case if m = [] then None else Some (GMap (enc_entries m)) of None \<Rightarrow> ([], None)
      | Some v \<Rightarrow> dec_map (conv_value FStrMap (yaml_value v)) []) = (m, None)"
  by (simp_all add: conv_yaml conv_yaml(2) [unfolded yaml_value.simps] dec_str_def dec_list_def as_array_def dec_strs
      dec_map_ok del: yaml_value.simps(1))

lemma enc_k3os_fields:
  "map_of (enc_k3os k) ''dataSources'' = (if DataSources k = [] then None else Some (GList (map (\<lambda>s. GStr (json_text s)) (DataSources k))))"
  "map_of (enc_k3os k) ''modules'' = (if Modules k = [] then None else Some (GList (map (\<lambda>s. GStr (json_text s)) (Modules k))))"
  "map_of (enc_k3os k) ''sysctls'' = (if Sysctls k = [] then None else Some (GMap (enc_entries (Sysctls k))))"
  "map_of (enc_k3os k) ''ntpServers'' = (if NTPServers k = [] then None else Some (GList (map (\<lambda>s. GStr (json_text s)) (NTPServers k))))"
  "map_of (enc_k3os k) ''dnsNameservers'' = (if DNSNameservers k = [] then None else Some (GList (map (\<lambda>s. GStr (json_text s)) (DNSNameservers k))))"
  "map_of (enc_k3os k) ''wifi'' = (if Wifi k = [] then None else Some (GList (map enc_wifi (Wifi k))))"
  "map_of (enc_k3os k) ''password'' = (if Password k = [] then None else Some (GStr (json_text (Password k))))"
  "map_of (enc_k3os k) ''serverUrl'' = (if ServerURL k = [] then None else Some (GStr (json_text (ServerURL k))))"
  "map_of (enc_k3os k) ''token'' = (if Token k = [] then None else Some (GStr (json_text (Token k))))"
  "map_of (enc_k3os k) ''labels'' = (if Labels k = [] then None else Some (GMap (enc_entries (Labels k))))"
  "map_of (enc_k3os k) ''k3sArgs'' = (if K3sArgs k = [] then None else Some (GList (map (\<lambda>s. GStr (json_text s)) (K3sArgs k))))"
  "map_of (enc_k3os k) ''environment'' = (if Environment k = [] then None else Some (GMap (enc_entries (Environment k))))"
  "map_of (enc_k3os k) ''taints'' = (if Taints k = [] then None else Some (GList (map (\<lambda>s. GStr (json_text s)) (Taints k))))"
  "map_of (enc_k3os k) ''install'' = (if Install k = None then None else Some (case Install k of None \<Rightarrow> GNull | Some i \<Rightarrow> GMap (enc_install i)))"
  by (simp_all add: enc_k3os_def map_of_enc_fields)

lemma optional: "(case if b then None else Some x of None \<Rightarrow> y | Some v \<Rightarrow> f v) = (if b then y else f x)"
  by simp

definition initialK3OS :: k3os where
  "initialK3OS = emptyK3OS\<lparr>Install := Some emptyInstall\<rparr>"

lemma dec_k3os_ok:
  assumes k: "k3os_ok k" and i: "Install k = None"
  shows "dec_k3os (GMap (ToInternal k3os_schema (toYAMLKeys (enc_k3os k)))) initialK3OS
    = (k\<lparr>Install := Some emptyInstall\<rparr>, None)"
proof -
  have "\<exists>fs. enc_k3os k = enc_fields fs \<and> encodes k3os_schema fs"
    unfolding enc_k3os_def by (rule exI, rule conjI, rule refl) (simp add: k3os_schema_def)
  then obtain fs where fs: "encodes k3os_schema fs" "enc_k3os k = enc_fields fs" by blast
  note F = yaml_field [OF yaml_spellings(2) distinct_schemas(2) fs(1), folded fs(2)]
  have w: "(if Wifi k = [] then ([], None) else dec_list dec_wifi emptyWifi
      (conv_value (FObjs wifi_schema) (yaml_value (GList (map enc_wifi (Wifi k))))) []) = (Wifi k, None)"
    using k dec_objects [of "Wifi k" dec_wifi wifi_schema enc_wifi emptyWifi]
    by (auto simp: k3os_ok_def list_all_iff dec_wifi_ok simp del: yaml_value.simps)
  have ok: "list_all utf8 (DataSources k)" "list_all utf8 (Modules k)" "str_map_ok (Sysctls k)"
    "list_all utf8 (NTPServers k)" "list_all utf8 (DNSNameservers k)" "utf8 (Password k)" "utf8 (ServerURL k)"
    "utf8 (Token k)" "str_map_ok (Labels k)" "list_all utf8 (K3sArgs k)" "str_map_ok (Environment k)"
    "list_all utf8 (Taints k)"
    using k by (simp_all add: k3os_ok_def)
  have old: "DataSources initialK3OS = []" "Modules initialK3OS = []" "Sysctls initialK3OS = []"
    "NTPServers initialK3OS = []" "DNSNameservers initialK3OS = []" "Wifi initialK3OS = []" "Password initialK3OS = []"
    "ServerURL initialK3OS = []" "Token initialK3OS = []" "Labels initialK3OS = []" "K3sArgs initialK3OS = []"
    "Environment initialK3OS = []" "Taints initialK3OS = []" "Install initialK3OS = Some emptyInstall"
    by (simp_all add: initialK3OS_def emptyK3OS_def)
  note fv = field_values [unfolded optional]
  show ?thesis
    unfolding dec_k3os_def dec_struct_def as_object_def gval.case option.case Let_def
      k3os_fields [THEN F] enc_k3os_fields old optional
      fv(1) [OF ok(6)] fv(1) [OF ok(7)] fv(1) [OF ok(8)] fv(2) [OF ok(1)] fv(2) [OF ok(2)] fv(2) [OF ok(4)]
      fv(2) [OF ok(5)] fv(2) [OF ok(10)] fv(2) [OF ok(12)] fv(3) [OF ok(3)] fv(3) [OF ok(9)] fv(3) [OF ok(11)] w i
    by simp
qed

lemma config_fields:
  "map_of cloudConfig_schema ''sshAuthorizedKeys'' = Some FStrings"
  "map_of cloudConfig_schema ''writeFiles'' = Some (FObjs file_schema)"
  "map_of cloudConfig_schema ''hostname'' = Some FString" "map_of cloudConfig_schema ''k3os'' = Some (FObj k3os_schema)"
  "map_of cloudConfig_schema ''runCmd'' = Some FStrings" "map_of cloudConfig_schema ''bootCmd'' = Some FStrings"
  "map_of cloudConfig_schema ''initCmd'' = Some FStrings"
  by code_simp+

lemma EncodeToMap_fields:
  "map_of (EncodeToMap c) ''sshAuthorizedKeys'' = (if SSHAuthorizedKeys c = [] then None else Some (GList (map (\<lambda>s. GStr (json_text s)) (SSHAuthorizedKeys c))))"
  "map_of (EncodeToMap c) ''writeFiles'' = (if WriteFiles c = [] then None else Some (GList (map enc_file (WriteFiles c))))"
  "map_of (EncodeToMap c) ''hostname'' = (if Hostname c = [] then None else Some (GStr (json_text (Hostname c))))"
  "map_of (EncodeToMap c) ''k3os'' = Some (GMap (enc_k3os (K3OS c)))"
  "map_of (EncodeToMap c) ''runCmd'' = (if Runcmd c = [] then None else Some (GList (map (\<lambda>s. GStr (json_text s)) (Runcmd c))))"
  "map_of (EncodeToMap c) ''bootCmd'' = (if Bootcmd c = [] then None else Some (GList (map (\<lambda>s. GStr (json_text s)) (Bootcmd c))))"
  "map_of (EncodeToMap c) ''initCmd'' = (if Initcmd c = [] then None else Some (GList (map (\<lambda>s. GStr (json_text s)) (Initcmd c))))"
  by (simp_all add: EncodeToMap_def map_of_enc_fields)

lemma dec_config_ok:
  assumes c: "config_ok c" and i: "Install (K3OS c) = None"
  shows "ToObj (ToInternal cloudConfig_schema (toYAMLKeys (EncodeToMap c))) initialConfig
    = (c\<lparr>K3OS := (K3OS c)\<lparr>Install := Some emptyInstall\<rparr>\<rparr>, None)"
proof -
  have "\<exists>fs. EncodeToMap c = enc_fields fs \<and> encodes cloudConfig_schema fs"
    unfolding EncodeToMap_def by (rule exI, rule conjI, rule refl) (simp add: cloudConfig_schema_def)
  then obtain fs where fs: "encodes cloudConfig_schema fs" "EncodeToMap c = enc_fields fs" by blast
  note F = yaml_field [OF yaml_spellings(1) distinct_schemas(1) fs(1), folded fs(2)]
  have w: "(if WriteFiles c = [] then ([], None) else dec_list dec_file emptyFile
      (conv_value (FObjs file_schema) (yaml_value (GList (map enc_file (WriteFiles c))))) []) = (WriteFiles c, None)"
    using c dec_objects [of "WriteFiles c" dec_file file_schema enc_file emptyFile]
    by (auto simp: config_ok_def list_all_iff dec_file_ok simp del: yaml_value.simps)
  have k: "conv_value (FObj k3os_schema) (yaml_value (GMap (enc_k3os (K3OS c))))
      = GMap (ToInternal k3os_schema (toYAMLKeys (enc_k3os (K3OS c))))"
    by (simp add: conv_value_def on_map_def ToInternal_def toYAMLKeys_def)
  have ok: "list_all utf8 (SSHAuthorizedKeys c)" "utf8 (Hostname c)" "list_all utf8 (Runcmd c)"
    "list_all utf8 (Bootcmd c)" "list_all utf8 (Initcmd c)" "k3os_ok (K3OS c)"
    using c by (simp_all add: config_ok_def)
  have old: "SSHAuthorizedKeys initialConfig = []" "WriteFiles initialConfig = []" "Hostname initialConfig = []"
    "K3OS initialConfig = initialK3OS" "Runcmd initialConfig = []" "Bootcmd initialConfig = []"
    "Initcmd initialConfig = []"
    by (simp_all add: initialConfig_def emptyConfig_def initialK3OS_def)
  note fv = field_values [unfolded optional]
  show ?thesis
    unfolding ToObj_def dec_config_def dec_struct_def as_object_def gval.case option.case Let_def
      config_fields [THEN F] EncodeToMap_fields old optional k w dec_k3os_ok [OF ok(6) i]
      fv(1) [OF ok(2)] fv(2) [OF ok(1)] fv(2) [OF ok(3)] fv(2) [OF ok(4)] fv(2) [OF ok(5)]
    by simp
qed

section \<open>The round trip\<close>

lemma merge_into_new:
  "distinct (map fst (acc @ src)) \<Longrightarrow> merge_into sch [] acc src = acc @ src"
proof (induction src arbitrary: acc)
  case (Cons e src)
  obtain k v where e: "e = (k, v)" by fastforce
  have "merge_value k sch None v = v" by (cases v) simp_all
  moreover have "AList.update k v acc = acc @ [(k, v)]"
    using Cons.prems by (intro update_append) (auto simp: e)
  ultimately show ?case using Cons.IH [of "acc @ [(k, v)]"] Cons.prems by (simp add: e)
qed simp

lemma UpdateMerge_first: "distinct (map fst src) \<Longrightarrow> UpdateMerge sch [] src = src"
  using merge_into_new [of "[]"] by (simp add: UpdateMerge_def mergeMaps_def)

lemma written_file_read:
  assumes ok: "config_ok cfg"
    and yaml: "unmarshal bytes = Inr (toYAMLKeys (EncodeToMap (cfg\<lparr>K3OS := (K3OS cfg)\<lparr>Install := None\<rparr>\<rparr>)))"
    and stored: "run_state (os_ReadFile path) w = (Inr bytes, w')"
  shows "run_state (readersToObject [readFile unmarshal path]) w
    = ((cfg\<lparr>K3OS := (K3OS cfg)\<lparr>Install := Some emptyInstall\<rparr>\<rparr>, None), w')"
proof -
  let ?c = "cfg\<lparr>K3OS := (K3OS cfg)\<lparr>Install := None\<rparr>\<rparr>"
  let ?d = "toYAMLKeys (EncodeToMap ?c)"
  have c: "config_ok ?c" using ok by (simp add: config_ok_def k3os_ok_def)
  have "distinct (map fst (ToInternal cloudConfig_schema ?d))"
    using yaml_fields_reads [OF yaml_spellings(1) distinct_schemas(1)] by (simp add: reads_def EncodeToMap_def cloudConfig_schema_def)
  then have "UpdateMerge cloudConfig_schema [] (ToInternal cloudConfig_schema ?d) = ToInternal cloudConfig_schema ?d"
    by (rule UpdateMerge_first)
  moreover have "run_state (readFile unmarshal path) w = (Inr ?d, w')"
    using stored yaml by (simp add: readFile_def)
  ultimately show ?thesis
    using dec_config_ok [OF c] by (simp add: readersToObject_def merge_def)
qed

text \<open>
  C17. What \<open>Write\<close> writes as the local configuration is what the next boot reads back: all of the
  configuration except the options of the installer, provided its text is UTF-8, the keys of its maps have
  no capital letters, their values no blanks at the ends, and the YAML package reads what it has printed.
\<close>

theorem Write_read_back:
  assumes ok: "config_ok cfg"
    and yaml: "ToBytes marshal cfg = Inr bytes"
      "unmarshal bytes = Inr (toYAMLKeys (EncodeToMap (cfg\<lparr>K3OS := (K3OS cfg)\<lparr>Install := None\<rparr>\<rparr>)))"
    and local: "run_state (os_ReadFile LocalConfig) w = (Inr bytes, w')"
  shows "run_state (readersToObject [readLocalConfig unmarshal]) w
    = ((cfg\<lparr>K3OS := (K3OS cfg)\<lparr>Install := Some emptyInstall\<rparr>\<rparr>, None), w')"
  unfolding readLocalConfig_def using ok yaml(2) local by (rule written_file_read)

end
