(* ===== verification/ConfigSources.thy ===== *)
theory ConfigSources
  imports ConfigWrite Util
begin

text \<open>
  What the sources of a configuration contribute: the words of the kernel command line, the order of the
  readers, scripts given as user data.
\<close>

section \<open>The kernel command line\<close>

lemma unquoted_token: "dquote \<notin> set s \<Longrightarrow> token_len s = length (takeWhile (\<lambda>c. \<not> re_space c) s)"
proof -
  assume s: "dquote \<notin> set s"
  have q: "quoted_len t = None" if "set t \<subseteq> set s" for t
    using that s by (cases t) (auto simp: quoted_len_def Let_def)
  have "assigned_len s n = None" for n
    using q [of "tl (drop n s)"] set_drop_subset [of n s]
    by (auto simp: assigned_len_def split: list.split)
  then show ?thesis by (simp add: token_len_def q List.map_filter_def)
qed

text \<open>
  Without quotes the words of the command line are those of \<open>strings.Fields\<close>.
\<close>

theorem FindAllString_Fields:
  "dquote \<notin> set s \<Longrightarrow> CHR 0x0B \<notin> set s \<Longrightarrow> FindAllString s = Fields s"
proof (induction s rule: FindAllString.induct)
  case (2 c s)
  have sp: "re_space d = is_space d" if "d \<in> set (c # s)" for d
    using that "2.prems"(2) by (auto simp: re_space_def is_space_def)
  show ?case
  proof (cases "re_space c")
    case True
    then show ?thesis using 2 sp [of c] by simp
  next
    case False
    have tw: "takeWhile (\<lambda>c. \<not> re_space c) (c # s) = takeWhile (\<lambda>c. \<not> is_space c) (c # s)"
      by (rule takeWhile_cong) (simp_all add: sp)
    have n: "token_len (c # s) = length (takeWhile (\<lambda>c. \<not> is_space c) (c # s))"
      using unquoted_token [OF "2.prems"(1)] tw by simp
    have "FindAllString (drop (token_len (c # s)) (c # s)) = Fields (drop (token_len (c # s)) (c # s))"
      using "2.IH"(2) [OF False] "2.prems" by (meson in_set_dropD)
    then show ?thesis using False sp [of c]
      by (simp add: n dropWhile_eq_drop [symmetric] takeWhile_eq_take [symmetric])
  qed
qed simp

text \<open>A store addressed by paths, as the reading of the command line needs it.\<close>

locale path_store =
  fixes get :: "'m \<Rightarrow> 'k list \<Rightarrow> 'v option" and put :: "'m \<Rightarrow> 'v \<Rightarrow> 'k list \<Rightarrow> 'm"
    and can :: "'m \<Rightarrow> 'k list \<Rightarrow> bool"
  assumes get_put: "can m ks \<Longrightarrow> get (put m v ks) ks = Some v"
    and get_put_other: "\<not> prefix ks ls \<Longrightarrow> \<not> prefix ls ks \<Longrightarrow> get (put m v ks) ls = get m ls"
    and can_put: "(prefix ks ls \<Longrightarrow> ls = ks) \<Longrightarrow> (prefix ls ks \<Longrightarrow> ls = ks) \<Longrightarrow> can m ls \<Longrightarrow> can (put m v ks) ls"
begin

lemma fold_updates:
  assumes "can m ks" "\<forall>i \<in> set items. fst i = ks \<or> \<not> prefix (fst i) ks \<and> \<not> prefix ks (fst i)"
  shows "get (fold (\<lambda>i m. case upd (get m (fst i)) (snd i) of Some v \<Rightarrow> put m v (fst i) | None \<Rightarrow> m) items m) ks
    = fold (\<lambda>x y. case upd y x of Some v \<Rightarrow> Some v | None \<Rightarrow> y) (map snd (filter (\<lambda>i. fst i = ks) items)) (get m ks)"
  using assms
proof (induction items arbitrary: m)
  case (Cons i items)
  let ?m = "case upd (get m (fst i)) (snd i) of Some v \<Rightarrow> put m v (fst i) | None \<Rightarrow> m"
  have can: "can ?m ks"
    using Cons.prems by (auto split: option.split intro!: can_put)
  have "get ?m ks = (if fst i = ks then case upd (get m ks) (snd i) of Some v \<Rightarrow> Some v | None \<Rightarrow> get m ks else get m ks)"
    using Cons.prems by (auto split: option.split simp: get_put get_put_other)
  then show ?case using Cons.IH [OF can] Cons.prems(2) by simp
qed simp

end

interpretation cmdline: path_store GetValue PutValue open_path
  by unfold_locales (simp_all add: GetValue_PutValue GetValue_PutValue_other open_path_PutValue)

definition add_to :: "gval option \<Rightarrow> string \<Rightarrow> gval option" where
  "add_to existing v = (case existing of
     None \<Rightarrow> Some (GStr v)
   | Some (GStr u) \<Rightarrow> Some (GStrs [u, v])
   | Some (GStrs us) \<Rightarrow> Some (GStrs (us @ [v]))
   | _ \<Rightarrow> None)"

lemma add_value_alt:
  "add_value data i = (case add_to (GetValue data (fst i)) (snd i) of Some v \<Rightarrow> PutValue data v (fst i) | None \<Rightarrow> data)"
  by (auto simp: add_value_def add_to_def split: option.split gval.split)

lemma fold_add_to:
  "fold (\<lambda>x y. case add_to y x of Some v \<Rightarrow> Some v | None \<Rightarrow> y) vs None
    = (case vs of [] \<Rightarrow> None | [v] \<Rightarrow> Some (GStr v) | _ \<Rightarrow> Some (GStrs vs))"
proof -
  have "fold (\<lambda>x y. case add_to y x of Some v \<Rightarrow> Some v | None \<Rightarrow> y) ws (Some (GStrs us)) = Some (GStrs (us @ ws))" for us ws
    by (induction ws arbitrary: us) (simp_all add: add_to_def)
  then show ?thesis by (cases vs rule: remdups_adj.cases) (simp_all add: add_to_def)
qed

text \<open>
  C22. A setting of the kernel command line has as its value all that the line gives it, in order: a text if
  there is one, a list if there are more; provided no other setting's path begins with or is a beginning of
  its path. The path of a setting is its name split at every dot, brackets or not: the form \<open>key[key]=value\<close> that
  \<^verbatim>\<open>README.md\<close> documents for maps is no setting of the map (\<open>bracket_key_split\<close> below).
\<close>

theorem parse_cmdline_values:
  assumes "ks \<noteq> []"
    and "\<forall>i \<in> set (FindAllString bytes). cmdline_keys i = ks \<or> \<not> prefix (cmdline_keys i) ks \<and> \<not> prefix ks (cmdline_keys i)"
  shows "GetValue (parse_cmdline bytes) ks
    = (case map cmdline_value (filter (\<lambda>i. cmdline_keys i = ks) (FindAllString bytes)) of
         [] \<Rightarrow> None | [v] \<Rightarrow> Some (GStr v) | vs \<Rightarrow> Some (GStrs vs))"
proof -
  let ?items = "map (\<lambda>i. (cmdline_keys i, cmdline_value i)) (FindAllString bytes)"
  have "parse_cmdline bytes
      = fold (\<lambda>i m. case add_to (GetValue m (fst i)) (snd i) of Some v \<Rightarrow> PutValue m v (fst i) | None \<Rightarrow> m) ?items []"
    by (simp add: parse_cmdline_def add_value_alt fold_map comp_def)
  moreover have "map snd (filter (\<lambda>i. fst i = ks) ?items) = map cmdline_value (filter (\<lambda>i. cmdline_keys i = ks) (FindAllString bytes))"
    by (simp add: filter_map comp_def)
  ultimately show ?thesis
    using cmdline.fold_updates [of "[]" ks ?items add_to] assms fold_add_to open_path_Nil [OF assms(1)]
    by (simp, simp split: list.split)
qed

theorem parse_cmdline_values_witness:
  "GetValue (parse_cmdline ''quiet k3os.modules=kvm root=/dev/sda k3os.modules=zfs'') [''k3os'', ''modules'']
     = Some (GStrs [''kvm'', ''zfs''])"
proof -
  let ?b = "''quiet k3os.modules=kvm root=/dev/sda k3os.modules=zfs''"
  have items: "FindAllString ?b = [''quiet'', ''k3os.modules=kvm'', ''root=/dev/sda'', ''k3os.modules=zfs'']"
    by (rule trans [OF FindAllString_Fields]) code_simp+
  have keys: "map cmdline_keys [''quiet'', ''k3os.modules=kvm'', ''root=/dev/sda'', ''k3os.modules=zfs'']
      = [[''quiet''], [''k3os'', ''modules''], [''root''], [''k3os'', ''modules'']]"
    "map cmdline_value [''quiet'', ''k3os.modules=kvm'', ''root=/dev/sda'', ''k3os.modules=zfs'']
      = [''true'', ''kvm'', ''/dev/sda'', ''zfs'']"
    by code_simp+
  have k: "cmdline_keys ''quiet'' = [''quiet'']" "cmdline_keys ''k3os.modules=kvm'' = [''k3os'', ''modules'']"
    "cmdline_keys ''root=/dev/sda'' = [''root'']" "cmdline_keys ''k3os.modules=zfs'' = [''k3os'', ''modules'']"
    using keys(1) by (simp_all only: list.map list.inject)
  have v: "cmdline_value ''k3os.modules=kvm'' = ''kvm''" "cmdline_value ''k3os.modules=zfs'' = ''zfs''"
    using keys(2) by (simp_all only: list.map list.inject)
  have "GetValue (parse_cmdline ?b) [''k3os'', ''modules''] =
      (case map cmdline_value (filter (\<lambda>i. cmdline_keys i = [''k3os'', ''modules''])
        [''quiet'', ''k3os.modules=kvm'', ''root=/dev/sda'', ''k3os.modules=zfs'']) of
        [] \<Rightarrow> None | [v] \<Rightarrow> Some (GStr v) | vs \<Rightarrow> Some (GStrs vs))"
    by (rule parse_cmdline_values [of "[''k3os'', ''modules'']" ?b, unfolded items]) (simp_all only: list.set ball_simps k, simp_all)
  then show ?thesis by (simp add: k v del: GetValue.simps)
qed

text \<open>The form documented for the values of maps is split inside the brackets, and the map is not set.\<close>

lemma bracket_key_split:
  "parse_cmdline ''k3os.sysctl[kernel.printk]=4''
     = [(''k3os'', GMap [(''sysctl[kernel'', GMap [(''printk]'', GStr ''4'')])])]"
proof -
  have "FindAllString ''k3os.sysctl[kernel.printk]=4'' = [''k3os.sysctl[kernel.printk]=4'']"
    by (rule trans [OF FindAllString_Fields]) code_simp+
  moreover have "cmdline_keys ''k3os.sysctl[kernel.printk]=4'' = [''k3os'', ''sysctl[kernel'', ''printk]'']"
    "cmdline_value ''k3os.sysctl[kernel.printk]=4'' = ''4''"
    by code_simp+
  ultimately show ?thesis by (simp add: parse_cmdline_def add_value_def)
qed

text \<open>And \<^verbatim>\<open>k3os.install.efi\<close>, the example \<^verbatim>\<open>README.md\<close> gives for a setting without value, is no name of a field.\<close>

lemma efi_no_alias: "map_of (FuzzyNames install_schema) ''efi'' = None" "map_of install_schema ''efi'' = None"
  by code_simp+

theorem FindAllString_Fields_witness:
  "FindAllString ''ro  k3os.mode=live'' = [''ro'', ''k3os.mode=live'']"
  by (rule trans [OF FindAllString_Fields]) code_simp+

section \<open>The order of the readers\<close>

lemma map_of_merge_into:
  "distinct (map fst src) \<Longrightarrow> map_of (merge_into sch dest result src) k
    = (case map_of src k of None \<Rightarrow> map_of result k | Some v \<Rightarrow> Some (merge_value k sch (map_of dest k) v))"
proof (induction src arbitrary: result)
  case (Cons e src)
  obtain n v where e: "e = (n, v)" by fastforce
  have "map_of src n = None" using Cons.prems e by (simp add: map_of_eq_None_iff)
  then show ?case using Cons by (auto simp: e update_conv' split: option.split)
qed simp

lemma map_of_UpdateMerge:
  "distinct (map fst src) \<Longrightarrow> map_of (UpdateMerge sch dest src) k
    = (case map_of src k of None \<Rightarrow> map_of dest k | Some v \<Rightarrow> Some (merge_value k (Some sch) (map_of dest k) v))"
  by (simp add: UpdateMerge_def mergeMaps_def map_of_merge_into)

lemma distinct_merge_into: "distinct (map fst result) \<Longrightarrow> distinct (map fst (merge_into sch dest result src))"
proof (induction src arbitrary: result)
  case (Cons e src)
  then show ?case by (cases e) (simp add: distinct_update)
qed simp

lemma run_merge_append:
  "run_state (merge_from d rs) w = (Inr d', w') \<Longrightarrow>
   run_state (merge_from d (rs @ ts)) w = run_state (merge_from d' ts) w'"
  "run_state (merge_from d rs) w = (Inl e, w') \<Longrightarrow> run_state (merge_from d (rs @ ts)) w = (Inl e, w')"
proof -
  have "run_state (merge_from d (rs @ ts)) w
      = (case run_state (merge_from d rs) w of (Inl e, w') \<Rightarrow> (Inl e, w') | (Inr d', w') \<Rightarrow> run_state (merge_from d' ts) w')"
  proof (induction rs arbitrary: d w)
    case (Cons r rs)
    obtain x w1 where r: "run_state r w = (x, w1)" by fastforce
    show ?case by (cases x) (simp_all add: r Cons.IH)
  qed simp
  then show "run_state (merge_from d rs) w = (Inr d', w') \<Longrightarrow>
      run_state (merge_from d (rs @ ts)) w = run_state (merge_from d' ts) w'"
    "run_state (merge_from d rs) w = (Inl e, w') \<Longrightarrow> run_state (merge_from d (rs @ ts)) w = (Inl e, w')"
    by simp_all
qed

text \<open>
  A map of Go never has a key twice: \<open>keyed\<close> says so of a value and of the maps reached from it. The mappers keep it.
\<close>

primrec keyed :: "gval \<Rightarrow> bool" where
  "keyed GNull = True"
| "keyed (GBool b) = True"
| "keyed (GNum m e) = True"
| "keyed (GStr s) = True"
| "keyed (GStrs ss) = True"
| "keyed (GStrMap kvs) = True"
| "keyed (GList vs) = list_all (\<lambda>b. b) (map keyed vs)"
| "keyed (GMap kvs) = (distinct (map fst kvs) \<and> list_all snd (map (map_prod (\<lambda>k. k) keyed) kvs))"

lemma keyed_GMap: "keyed (GMap m) \<longleftrightarrow> distinct (map fst m) \<and> (\<forall>k v. map_of m k = Some v \<longrightarrow> keyed v)"
proof (cases "distinct (map fst m)")
  case True
  then have "list_all snd (map (map_prod (\<lambda>k. k) keyed) m) \<longleftrightarrow> (\<forall>k v. map_of m k = Some v \<longrightarrow> keyed v)"
    by (auto simp: list_all_iff dest: map_of_SomeD)
  with True show ?thesis by simp
qed simp

lemma keyed_GList: "keyed (GList vs) \<longleftrightarrow> (\<forall>v \<in> set vs. keyed v)"
  by (simp add: list_all_iff)

lemma keyed_value: "keyed (GMap m) \<Longrightarrow> map_of m k = Some v \<Longrightarrow> keyed v"
  by (simp only: keyed_GMap)

lemma keyed_update: "keyed (GMap m) \<Longrightarrow> keyed v \<Longrightarrow> keyed (GMap (AList.update k v m))"
  unfolding keyed_GMap by (auto simp: update_conv' distinct_update split: if_splits)

lemma keyed_fold:
  assumes "keyed (GMap m)" "\<And>x d. x \<in> set xs \<Longrightarrow> keyed (GMap d) \<Longrightarrow> keyed (GMap (f x d))"
  shows "keyed (GMap (fold f xs m))"
  using assms
proof (induction xs arbitrary: m)
  case (Cons x xs)
  then show ?case by (simp del: keyed.simps)
qed simp

lemma keyed_convert_field:
  "keyed (GMap m) \<Longrightarrow> (\<And>v. keyed v \<Longrightarrow> keyed (c v)) \<Longrightarrow> keyed (GMap (convert_field c n m))"
  unfolding convert_field_def by (cases "map_of m n") (auto intro: keyed_update keyed_value simp del: keyed.simps)

lemma keyed_mappers: "keyed (GMap m) \<Longrightarrow> keyed (GMap (mappers_ToInternal fs m))"
proof -
  assume m: "keyed (GMap m)"
  have "keyed (GMap (FuzzyNames_ToInternal (FuzzyNames fs) m))"
    unfolding FuzzyNames_ToInternal_def
  proof (rule keyed_fold [OF m])
    fix e d
    assume "e \<in> set m" "keyed (GMap d)"
    moreover from this m have "keyed (snd e)" by (auto simp: list_all_iff)
    ultimately show "keyed (GMap (fuzzy_entry (FuzzyNames fs) e d))"
      by (auto simp: fuzzy_entry_def intro: keyed_update simp del: keyed.simps split: option.split)
  qed
  moreover have "keyed v \<Longrightarrow> keyed (NewToMap v)" "keyed v \<Longrightarrow> keyed (NewToSlice v)" "keyed v \<Longrightarrow> keyed (NewToBool v)" for v
    by (cases v; simp add: NewToMap_def NewToSlice_def NewToBool_def)+
  ultimately show ?thesis
    unfolding mappers_ToInternal_def type_converter_def by (intro keyed_fold keyed_convert_field) (simp_all del: keyed.simps)
qed

lemma keyed_type_ToInternal:
  assumes "keyed (GMap m)" "\<And>ty v. ty \<in> snd ` set fs \<Longrightarrow> keyed v \<Longrightarrow> keyed (sub_ToInternal ty v)"
  shows "keyed (GMap (type_ToInternal fs (map (map_prod (\<lambda>k. k) sub_ToInternal) fs) m))"
  unfolding type_ToInternal_def
  by (intro keyed_fold keyed_mappers keyed_convert_field assms(1)) (auto simp del: keyed.simps intro!: assms(2) rev_image_eqI)

lemma keyed_sub_ToInternal: "keyed v \<Longrightarrow> keyed (sub_ToInternal ty v)"
proof (induction ty arbitrary: v)
  case (FObj fs)
  have ih: "ty \<in> snd ` set fs \<Longrightarrow> keyed v \<Longrightarrow> keyed (sub_ToInternal ty v)" for ty v
    using FObj.IH by (metis imageE snds.intros surjective_pairing)
  show ?case
  proof (cases v)
    case (GMap m)
    with FObj.prems keyed_type_ToInternal [of m fs, OF _ ih] show ?thesis by (simp add: on_map_def del: keyed.simps)
  qed (use FObj.prems in \<open>simp_all add: on_map_def\<close>)
next
  case (FObjs fs)
  have ih: "ty \<in> snd ` set fs \<Longrightarrow> keyed v \<Longrightarrow> keyed (sub_ToInternal ty v)" for ty v
    using FObjs.IH by (metis imageE snds.intros surjective_pairing)
  show ?case
  proof (cases v)
    case (GList vs)
    have "keyed u \<Longrightarrow> keyed (on_map (type_ToInternal fs (map (map_prod (\<lambda>k. k) sub_ToInternal) fs)) u)" for u
      using keyed_type_ToInternal [of _ fs, OF _ ih] by (cases u) (simp_all add: on_map_def del: keyed.simps(8))
    with FObjs.prems GList show ?thesis by (auto simp: keyed_GList simp del: keyed.simps)
  qed (use FObjs.prems in simp_all)
qed simp_all

lemma keyed_ToInternal: "keyed (GMap m) \<Longrightarrow> keyed (GMap (ToInternal fs m))"
  unfolding ToInternal_def by (intro keyed_type_ToInternal keyed_sub_ToInternal)

text \<open>
  The path leaves what the source mentions: some part of it is no key, and what is before are maps.
  After the mappers no map on it is one the merge would replace as a whole.
\<close>

fun unmentioned :: "gmap \<Rightarrow> string list \<Rightarrow> bool" where
  "unmentioned src [] = False"
| "unmentioned src (k # ks) = (case map_of src k of None \<Rightarrow> True | Some (GMap m) \<Rightarrow> unmentioned m ks | Some _ \<Rightarrow> False)"

fun merged_maps :: "schema option \<Rightarrow> gmap \<Rightarrow> string list \<Rightarrow> bool" where
  "merged_maps sch src [] = True"
| "merged_maps sch src (k # ks) =
     (case map_of src k of Some (GMap m) \<Rightarrow> \<not> isMap k sch \<and> merged_maps (getSchema k sch) m ks | _ \<Rightarrow> True)"

lemma merged_maps_None: "merged_maps None src ks"
  by (induction src ks rule: unmentioned.induct) (simp_all add: isMap_def getSchema_def split: option.split gval.split)

lemma merged_maps_ToInternal:
  "fs \<in> {cloudConfig_schema, k3os_schema, install_schema} \<Longrightarrow> merged_maps (Some fs) (ToInternal fs data) ks"
proof (induction ks arbitrary: fs data)
  case (Cons k ks)
  have d: "distinct (map fst fs)" using Cons.prems distinct_schemas by auto
  have sub: "s \<in> {cloudConfig_schema, k3os_schema, install_schema}" if "map_of fs k = Some (FObj s)" for s
    using Cons.prems that by (auto simp: schema_defs split: if_splits)
  have m: "conv_value FStrMap v \<noteq> GMap m" for v m
    by (cases v) (simp_all add: conv_value_def NewToMap_def)
  have o: "conv_value (FObj s) v = GMap m \<Longrightarrow> \<exists>d. m = ToInternal s d" for s v m
    by (cases v) (auto simp: conv_value_def on_map_def ToInternal_def)
  have "\<not> isMap k (Some fs) \<and> merged_maps (getSchema k (Some fs)) m ks" if "map_of (ToInternal fs data) k = Some (GMap m)" for m
  proof (cases "\<exists>s. map_of fs k = Some (FObj s)")
    case True
    then obtain s where s: "map_of fs k = Some (FObj s)" by blast
    with that obtain d where "m = ToInternal s d" by (auto simp: map_of_ToInternal [OF d] dest: o)
    then show ?thesis using Cons.IH [OF sub [OF s]] s by (simp add: isMap_def getSchema_def)
  next
    case False
    then have "getSchema k (Some fs) = None" by (simp add: getSchema_def split: option.split ftype.split)
    moreover have "map_of fs k \<noteq> Some FStrMap" using that m by (auto simp: map_of_ToInternal [OF d])
    ultimately show ?thesis by (simp add: isMap_def merged_maps_None)
  qed
  then show ?case by (simp split: option.split gval.split)
qed simp

lemma merge_value_leaf: "(\<And>m. v \<noteq> GMap m) \<Longrightarrow> merge_value k sch dest v = v"
  by (cases v) auto

lemma unmentioned_None: "unmentioned src ks \<Longrightarrow> GetValue src ks = None"
proof (induction src ks rule: unmentioned.induct)
  case (2 src k ks)
  then show ?case by (cases ks) (auto split: option.splits gval.splits)
qed simp

lemma merge_wins:
  "keyed (GMap src) \<Longrightarrow> GetValue src ks = Some v \<Longrightarrow> (\<And>m. v \<noteq> GMap m) \<Longrightarrow>
   GetValue (merge_into sch dest dest src) ks = Some v"
proof (induction src ks arbitrary: sch dest rule: GetValue.induct)
  case (2 src k)
  then show ?case by (simp add: map_of_merge_into merge_value_leaf)
next
  case (3 src k k' ks)
  then obtain m where m: "map_of src k = Some (GMap m)" by (auto split: option.splits gval.splits)
  have ih: "GetValue (merge_into sch d d m) (k' # ks) = Some v" for sch d
    using 3 m keyed_value [OF "3.prems"(1) m] by (auto simp del: keyed.simps)
  show ?case using "3.prems"(1,2) m ih by (simp add: map_of_merge_into split: option.split gval.split)
qed simp

lemma merge_keeps:
  "keyed (GMap src) \<Longrightarrow> unmentioned src ks \<Longrightarrow> merged_maps sch src ks \<Longrightarrow>
   GetValue (merge_into sch dest dest src) ks = GetValue dest ks"
proof (induction src ks arbitrary: sch dest rule: unmentioned.induct)
  case (2 src k ks)
  have d: "distinct (map fst src)" using "2.prems"(1) by simp
  show ?case
  proof (cases "map_of src k")
    case None
    then show ?thesis by (cases ks) (simp_all add: map_of_merge_into [OF d])
  next
    case (Some v)
    with "2.prems"(2) obtain m where m: "map_of src k = Some (GMap m)" "unmentioned m ks" by (cases v) auto
    have ih: "GetValue (merge_into (getSchema k sch) e e m) ks = GetValue e ks" for e
      using "2.IH" [OF m(1)] m(2) keyed_value [OF "2.prems"(1) m(1)] "2.prems"(3) m(1) by (simp del: keyed.simps)
    have none: "GetValue m ks = None" using m(2) by (rule unmentioned_None)
    then show ?thesis using "2.prems"(3) m ih none
      by (cases ks) (auto simp: map_of_merge_into [OF d] split: option.split gval.split)
  qed
qed simp

text \<open>
  C21. The last source has the last word on every setting it gives, at any depth: where it has a value that is no map
  (once names and values are converted), the result has exactly this value; where it says nothing, the result has what
  the sources before it gave, or nothing.
\<close>

theorem last_reader_wins:
  assumes before: "run_state (merge rs) w = (Inr d, w1)"
    and last: "run_state r w1 = (Inr new, w2)" and wf: "keyed (GMap new)"
  shows "\<exists>d'. run_state (merge (rs @ [r])) w = (Inr d', w2)
    \<and> (\<forall>ks v. GetValue (ToInternal cloudConfig_schema new) ks = Some v \<and> (\<forall>m. v \<noteq> GMap m) \<longrightarrow> GetValue d' ks = Some v)
    \<and> (\<forall>ks. unmentioned (ToInternal cloudConfig_schema new) ks \<longrightarrow> GetValue d' ks = GetValue d ks)"
proof -
  let ?n = "ToInternal cloudConfig_schema new"
  have k: "keyed (GMap ?n)" using wf by (rule keyed_ToInternal)
  have "run_state (merge (rs @ [r])) w = (Inr (UpdateMerge cloudConfig_schema d ?n), w2)"
    using run_merge_append(1) [OF before [unfolded merge_def], of "[r]"] last by (simp add: merge_def)
  moreover have "merged_maps (Some cloudConfig_schema) ?n ks" for ks by (rule merged_maps_ToInternal) simp
  ultimately show ?thesis
    using merge_wins [OF k] merge_keeps [OF k]
    by (intro exI [of _ "UpdateMerge cloudConfig_schema d ?n"]) (simp add: UpdateMerge_def mergeMaps_def)
qed



theorem last_reader_wins_witness:
  "\<exists>d'. run_state (merge ([State_Monad.return (Inr [(''hostname'', GStr ''a''), (''k3os'', GMap [(''token'', GStr ''t'')])])]
        @ [State_Monad.return (Inr [(''hostname'', GStr ''b''), (''k3os'', GMap [(''modules'', GStr ''kvm'')])])])) (calm_world [])
      = (Inr d', calm_world [])
     \<and> GetValue d' [''hostname''] = Some (GStr ''b'') \<and> GetValue d' [''k3os'', ''modules''] = Some (GStrs [''kvm''])
     \<and> GetValue d' [''k3os'', ''token''] = Some (GStr ''t'')"
proof -
  let ?a = "[(''hostname'', GStr ''a''), (''k3os'', GMap [(''token'', GStr ''t'')])]"
    and ?b = "[(''hostname'', GStr ''b''), (''k3os'', GMap [(''modules'', GStr ''kvm'')])]"
  let ?r = "\<lambda>m. State_Monad.return (Inr m) :: reader"
  have i: "ToInternal cloudConfig_schema ?a = ?a"
    "ToInternal cloudConfig_schema ?b = [(''hostname'', GStr ''b''), (''k3os'', GMap [(''modules'', GStrs [''kvm''])])]"
    by code_simp+
  have "run_state (merge [?r ?a]) (calm_world []) = (Inr ?a, calm_world [])"
    by (simp add: merge_def i UpdateMerge_first)
  from last_reader_wins [OF this, of "?r ?b" ?b] obtain d' where d: "run_state (merge ([?r ?a] @ [?r ?b])) (calm_world []) = (Inr d', calm_world [])"
    and w: "\<And>ks v. GetValue (ToInternal cloudConfig_schema ?b) ks = Some v \<Longrightarrow> (\<forall>m. v \<noteq> GMap m) \<Longrightarrow> GetValue d' ks = Some v"
    and u: "\<And>ks. unmentioned (ToInternal cloudConfig_schema ?b) ks \<Longrightarrow> GetValue d' ks = GetValue ?a ks"
    by auto
  have "GetValue d' [''hostname''] = Some (GStr ''b'')" "GetValue d' [''k3os'', ''modules''] = Some (GStrs [''kvm''])"
    by (rule w; simp add: i)+
  moreover have "GetValue d' [''k3os'', ''token''] = Some (GStr ''t'')"
    using u [of "[''k3os'', ''token'']"] by (simp add: i)
  ultimately show ?thesis using d by blast
qed

section \<open>User data\<close>

lemma EncodeToString_ascii: "\<forall>c \<in> set (EncodeToString s). (of_char c :: nat) < 128"
proof -
  have b: "(of_char (b64_char n) :: nat) < 128" for n
    by (auto simp: b64_char_def of_char_of)
  show ?thesis by (induction s rule: EncodeToString.induct) (simp_all add: Let_def b)
qed

lemma config_own_spelling: "spelling (\<lambda>n. n) cloudConfig_schema"
  by code_simp

lemma empty_k3os: "conv_value (FObj k3os_schema) (GMap (enc_k3os emptyK3OS)) = GMap []"
  "dec_k3os (GMap []) initialK3OS = (initialK3OS, None)"
  by code_simp+

lemma read_script_config:
  assumes f: "file_ok f"
  shows "ToObj (ToInternal cloudConfig_schema (EncodeToMap (script_config f))) initialConfig
    = (initialConfig\<lparr>WriteFiles := [f], Runcmd := [''source /run/k3os/userdata'']\<rparr>, None)"
proof -
  let ?c = "script_config f"
  have "\<exists>fs. EncodeToMap ?c = enc_fields fs \<and> encodes cloudConfig_schema fs"
    unfolding EncodeToMap_def by (rule exI, rule conjI, rule refl) (simp add: cloudConfig_schema_def)
  then obtain fs where fs: "encodes cloudConfig_schema fs" "EncodeToMap ?c = enc_fields fs" by blast
  note F = own_field [OF config_own_spelling distinct_schemas(1) fs(1), folded fs(2)]
  have c: "SSHAuthorizedKeys ?c = []" "WriteFiles ?c = [f]" "Hostname ?c = []" "K3OS ?c = emptyK3OS"
    "Runcmd ?c = [''source /run/k3os/userdata'']" "Bootcmd ?c = []" "Initcmd ?c = []"
    by (simp_all add: script_config_def emptyConfig_def)
  have old: "K3OS initialConfig = initialK3OS" "WriteFiles initialConfig = []" "Runcmd initialConfig = []"
    by (simp_all add: initialConfig_def emptyConfig_def initialK3OS_def)
  have w: "dec_list dec_file emptyFile (conv_value (FObjs file_schema) (GList (map enc_file [f]))) [] = ([f], None)"
    using dec_objects [of "[f]" dec_file file_schema enc_file emptyFile] dec_file_ok [OF f] by simp
  have r: "dec_list dec_str [] (conv_value FStrings
      (GList (map (\<lambda>s. GStr (json_text s)) [''source /run/k3os/userdata'']))) [] = ([''source /run/k3os/userdata''], None)"
    by code_simp
  show ?thesis
    unfolding ToObj_def dec_config_def dec_struct_def as_object_def gval.case option.case Let_def
      config_fields [THEN F] EncodeToMap_fields c optional old empty_k3os w r
    by (simp add: old)
qed

text \<open>
  C18. A script given as user data, binary (with a zero byte) or a text in UTF-8 that begins with \<^verbatim>\<open>#!\<close>, ends up as the
  one file to write: decoded the way \<open>WriteFiles\<close> decodes it, it has every byte of the script and mode 0700, and the
  run commands (\<open>Runcmd\<close>) source it. A text with bytes that are no UTF-8 is outside: it passes through JSON, which
  puts U+FFFD in their place (\<open>script_loses_bytes\<close> below).
\<close>

theorem userdata_script:
  assumes data: "CHR 0x00 \<in> set data \<or> HasPrefix data ''#!'' \<and> utf8 data"
    and userdata: "run_state (os_ReadFile cc_userdata) w = (Inr data, w')"
  shows "\<exists>cfg f. run_state (readersToObject [readUserData unmarshal]) w = ((cfg, None), w')
    \<and> WriteFiles cfg = [f] \<and> DecodeContent gunzip (Content f) (Encoding f) = Inr data
    \<and> Path f = ''/run/k3os/userdata'' \<and> Permissions f = Inr 448 \<and> Runcmd cfg = [''source /run/k3os/userdata'']"
proof -
  define f where "f = (if CHR 0x00 \<in> set data then script_file (EncodeToString data) ''b64'' else script_file data [])"
  have lits: "utf8 ''b64''" "utf8 []" "utf8 ''root''" "utf8 ''/run/k3os/userdata''" "utf8 ''0700''"
    unfolding utf8_def by code_simp+
  have ok: "file_ok f"
    using data lits ascii_utf8 [OF EncodeToString_ascii, of data]
    by (cases "CHR 0x00 \<in> set data") (simp_all only: f_def if_True if_False file_ok_def script_file_def
      cfile.select_convs list.pred_inject simp_thms)
  have p: "parse_userdata unmarshal data = Inr (EncodeToMap (script_config f))"
    using data by (auto simp: parse_userdata_def f_def)
  let ?d = "ToInternal cloudConfig_schema (EncodeToMap (script_config f))"
  have "distinct (map fst ?d)"
    using own_fields_reads [OF config_own_spelling distinct_schemas(1)]
    by (simp add: reads_def EncodeToMap_def cloudConfig_schema_def)
  then have "UpdateMerge cloudConfig_schema [] ?d = ?d" by (rule UpdateMerge_first)
  then have "run_state (readersToObject [readUserData unmarshal]) w
      = ((initialConfig\<lparr>WriteFiles := [f], Runcmd := [''source /run/k3os/userdata'']\<rparr>, None), w')"
    using userdata read_script_config [OF ok] by (simp add: readersToObject_def merge_def readUserData_def p)
  moreover have "DecodeContent gunzip (Content f) (Encoding f) = Inr data"
    by (simp add: f_def script_file_def DecodeContent_def DecodeBase64Content_def DecodeString_EncodeToString)
  moreover have "Permissions f = Inr 448"
  proof -
    have "ParseInt ''0700'' 8 32 = Some 448" by (simp add: ParseInt_def is_digit_def)
    then show ?thesis by (simp add: Permissions_def f_def script_file_def)
  qed
  ultimately show ?thesis by (auto simp: f_def script_file_def)
qed

text \<open>A script whose text is no UTF-8 does not keep its bytes.\<close>

lemma script_loses_bytes:
  "map_of (EncodeToMap (script_config (script_file (''#!'' @ [CHR 0xE9]) []))) ''writeFiles''
     = Some (GList [GMap [(''encoding'', GStr []), (''content'', GStr (''#!'' @ [CHR 0xEF, CHR 0xBF, CHR 0xBD])),
         (''owner'', GStr ''root''), (''path'', GStr ''/run/k3os/userdata''), (''permissions'', GStr ''0700'')]])"
  by code_simp

text \<open>A tree with one file and the directories above it.\<close>

theorem userdata_script_witness:
  "\<exists>w' cfg f. run_state (readersToObject [readUserData (\<lambda>_. Inr [])])
       (calm_world (lone_file [''run'', ''config'', ''userdata''] (''#!'' @ [CHR 0x00, CHR 0xFF]))) = ((cfg, None), w')
     \<and> WriteFiles cfg = [f] \<and> DecodeContent (\<lambda>_. Inl (Errno EIO)) (Content f) (Encoding f) = Inr (''#!'' @ [CHR 0x00, CHR 0xFF])"
proof -
  let ?p = "[''run'', ''config'', ''userdata'']" and ?b = "''#!'' @ [CHR 0x00, CHR 0xFF]"
  have u: "cc_userdata = abs_path ?p" by code_simp
  have "file_is ?p ?b (calm_world (lone_file ?p ?b))" by (rule lone_file_is) code_simp+
  then have "run_state (os_ReadFile cc_userdata) (calm_world (lone_file ?p ?b)) = (Inr ?b, tick (calm_world (lone_file ?p ?b)))"
    unfolding u by (intro os_ReadFile_calm) simp_all
  from userdata_script [OF _ this, of "\<lambda>_. Inr []" "\<lambda>_. Inl (Errno EIO)"] show ?thesis by fastforce
qed

section \<open>The local configuration\<close>

theorem Write_read_back_witness:
  "\<exists>w'. run_state (readersToObject [readLocalConfig (\<lambda>_. Inr (toYAMLKeys (EncodeToMap
       (emptyConfig\<lparr>Hostname := ''node'', K3OS := emptyK3OS\<lparr>Sysctls := [(''kernel.printk'', ''4'')]\<rparr>\<rparr>))))])
     (calm_world (lone_file [''var'', ''lib'', ''rancher'', ''k3os'', ''config.yaml''] ''yaml''))
     = ((initialConfig\<lparr>Hostname := ''node'', K3OS := emptyK3OS\<lparr>Sysctls := [(''kernel.printk'', ''4'')],
           Install := Some emptyInstall\<rparr>\<rparr>, None), w')"
proof -
  let ?p = "[''var'', ''lib'', ''rancher'', ''k3os'', ''config.yaml'']"
  let ?c = "emptyConfig\<lparr>Hostname := ''node'', K3OS := emptyK3OS\<lparr>Sysctls := [(''kernel.printk'', ''4'')]\<rparr>\<rparr>"
  let ?d = "toYAMLKeys (EncodeToMap ?c)"
  have l: "LocalConfig = abs_path ?p" by code_simp
  have "file_is ?p ''yaml'' (calm_world (lone_file ?p ''yaml''))" by (rule lone_file_is) code_simp+
  then have r: "run_state (os_ReadFile LocalConfig) (calm_world (lone_file ?p ''yaml'')) = (Inr ''yaml'', tick (calm_world (lone_file ?p ''yaml'')))"
    unfolding l by (intro os_ReadFile_calm) simp_all
  have ok: "config_ok ?c" by code_simp
  have "?c\<lparr>K3OS := (K3OS ?c)\<lparr>Install := None\<rparr>\<rparr> = ?c" by (simp add: emptyConfig_def emptyK3OS_def)
  with Write_read_back [OF ok _ _ r, of "\<lambda>_. Inr ''yaml''" "\<lambda>_. Inr ?d"] show ?thesis
    by (auto simp: ToBytes_def emptyConfig_def initialConfig_def emptyK3OS_def)
qed

section \<open>Examples\<close>

lemma run_readersToObject:
  "run_state (readersToObject (map (\<lambda>d. State_Monad.return (Inr d)) ds)) w
    = (ToObj (fold (\<lambda>d acc. UpdateMerge cloudConfig_schema acc (ToInternal cloudConfig_schema d)) ds []) initialConfig, w)"
proof -
  have "run_state (merge_from acc (map (\<lambda>d. State_Monad.return (Inr d)) ds)) w
      = (Inr (fold (\<lambda>d acc. UpdateMerge cloudConfig_schema acc (ToInternal cloudConfig_schema d)) ds acc), w)" for acc
    by (induction ds arbitrary: acc) simp_all
  then show ?thesis by (simp add: readersToObject_def merge_def)
qed

text \<open>The two tests of the package.\<close>

lemma TestDataSource:
  "run_state (readersToObject [State_Monad.return (Inr [(''k3os'', GMap [(''datasource'', GStr ''foo'')])])]) w
    = ((initialConfig\<lparr>K3OS := (K3OS initialConfig)\<lparr>DataSources := [''foo'']\<rparr>\<rparr>, None), w)"
proof -
  have "ToObj (UpdateMerge cloudConfig_schema []
      (ToInternal cloudConfig_schema [(''k3os'', GMap [(''datasource'', GStr ''foo'')])])) initialConfig
    = (initialConfig\<lparr>K3OS := (K3OS initialConfig)\<lparr>DataSources := [''foo'']\<rparr>\<rparr>, None)"
    by code_simp
  then show ?thesis using run_readersToObject [of "[[(''k3os'', GMap [(''datasource'', GStr ''foo'')])]]"] by simp
qed

lemma TestAuthorizedKeys:
  "run_state (readersToObject [State_Monad.return (Inr [(''ssh_authorized_keys'', GStrs [''one...''])]),
     State_Monad.return (Inr [(''ssh_authorized_keys'', GStrs [''two...''])])]) w
    = ((initialConfig\<lparr>SSHAuthorizedKeys := [''two...'']\<rparr>, None), w)"
proof -
  have "ToObj (UpdateMerge cloudConfig_schema (UpdateMerge cloudConfig_schema []
        (ToInternal cloudConfig_schema [(''ssh_authorized_keys'', GStrs [''one...''])]))
      (ToInternal cloudConfig_schema [(''ssh_authorized_keys'', GStrs [''two...''])])) initialConfig
    = (initialConfig\<lparr>SSHAuthorizedKeys := [''two...'']\<rparr>, None)"
    by code_simp
  then show ?thesis
    using run_readersToObject [of "[[(''ssh_authorized_keys'', GStrs [''one...''])], [(''ssh_authorized_keys'', GStrs [''two...''])]]"]
    by simp
qed

text \<open>
  A plural written in small letters stays beside the field it is copied to, and decoding finds it as a second
  spelling of the field, not converted to a list: an error for the whole configuration.
\<close>

lemma small_plural_fails:
  "snd (ToObj (UpdateMerge cloudConfig_schema []
     (ToInternal cloudConfig_schema [(''k3os'', GMap [(''datasources'', GStr ''foo'')])])) initialConfig) = Some json_error"
  by code_simp

text \<open>The keys of the user's maps are renamed like those of the fields when a configuration is written.\<close>

lemma environment_keys_renamed:
  "GetValue (toYAMLKeys (EncodeToMap (emptyConfig\<lparr>K3OS := emptyK3OS\<lparr>Environment := [(''HTTP_PROXY'', ''p'')]\<rparr>\<rparr>)))
     [''k3os'', ''environment''] = Some (GMap [(''http__p_r_o_x_y'', GStr ''p'')])"
  by code_simp

text \<open>A number among the values of such a map comes out as Go prints a floating point number.\<close>

lemma large_number_text: "ToString (GNum 1048576 0) = ''1.048576e+06''"
proof -
  have "Itoa_nat 1048576 = ''1048576''" by (simp add: Itoa_nat.simps digit_char_def char_of_def bit_iff_odd)
  then have "sprint_num 1048576 0 = ''1.048576e+06''"
    by (simp add: sprint_num_def two_digits_def Itoa_nat.simps digit_char_def char_of_def bit_iff_odd)
  moreover have "TrimSpace ''1.048576e+06'' = ''1.048576e+06''" by code_simp
  ultimately show ?thesis by (simp add: ToString_def ToStringNoTrim_def Singular_def)
qed

end
