(* ===== verification/CliInstall.thy ===== *)
theory CliInstall
  imports Questions ConfigSources Modprobe
begin

text \<open>
  \<^verbatim>\<open>pkg/cliinstall\<close>: the questions of the installer (\<^verbatim>\<open>ask.go\<close>) and what is done with the answers
  (\<^verbatim>\<open>install.go\<close>). A function that changes the configuration through its pointer returns the changed one; with
  an error the caller drops it.
\<close>

section \<open>ask.go\<close>

definition quiz :: "'a question \<Rightarrow> 'a os" where
  "quiz q = State (\<lambda>w. case q (w_stdin w) of
     (r, inp, out) \<Rightarrow> (r, w\<lparr>w_stdin := inp, w_trace := w_trace w @ [EvPrint out]\<rparr>))"

text \<open>\<open>CombinedOutput\<close>: what the command prints is given by \<open>output\<close>.\<close>

definition cmd_Output :: "(cmd \<Rightarrow> fs \<Rightarrow> string) \<Rightarrow> cmd \<Rightarrow> string os" where
  "cmd_Output output c = do {
     w \<leftarrow> State_Monad.get;
     r \<leftarrow> cmd_Run c;
     onok r (\<lambda>_. State_Monad.return (Inr (output c (w_fs w)))) }"

definition nil_pointer :: goerror where
  "nil_pointer = ErrMsg ''panic: runtime error: invalid memory address or nil pointer dereference''"

definition the_install :: "CloudConfig \<Rightarrow> (install \<Rightarrow> 'a os) \<Rightarrow> 'a os" where
  "the_install cfg f = (case Install (K3OS cfg) of None \<Rightarrow> State_Monad.return (Inl nil_pointer) | Some i \<Rightarrow> f i)"

abbreviation set_k3os :: "(k3os \<Rightarrow> k3os) \<Rightarrow> CloudConfig \<Rightarrow> CloudConfig" where
  "set_k3os f cfg \<equiv> cfg\<lparr>K3OS := f (K3OS cfg)\<rparr>"

definition isInstall :: "bool os" where
  "isInstall = do {
     mode \<leftarrow> mode_Get [];
     onok mode (\<lambda>mode.
       if mode = ''install'' then State_Monad.return (Inr True)
       else if mode = ''live-server'' then State_Monad.return (Inr False)
       else if mode = ''live-agent'' then State_Monad.return (Inr False)
       else do {
         i \<leftarrow> quiz (PromptFormattedOptions ''Choose operation'' 0 [''Install to disk'', ''Configure server or agent'']);
         onok i (\<lambda>i. State_Monad.return (Inr (i = 0))) }) }"

definition lsblk :: cmd where
  "lsblk = Command ''/bin/sh'' [''-c'', ''lsblk -r -o NAME,TYPE | grep -w disk | awk '' @ [CHR 0x27] @ ''{print $1}'' @ [CHR 0x27]]"

definition AskInstallDevice :: "(cmd \<Rightarrow> fs \<Rightarrow> string) \<Rightarrow> CloudConfig \<Rightarrow> CloudConfig os" where
  "AskInstallDevice output cfg = the_install cfg (\<lambda>inst.
     if Device inst \<noteq> [] then State_Monad.return (Inr cfg)
     else do {
       out \<leftarrow> cmd_Output output lsblk;
       onok out (\<lambda>out. do {
         let disks = Fields out;
         i \<leftarrow> quiz (PromptFormattedOptions ''Installation target. Device will be formatted'' (- 1) disks);
         onok i (\<lambda>i. State_Monad.return (Inr (set_k3os (Install_update (\<lambda>_. Some (inst\<lparr>Device := ''/dev/'' @ disks ! i\<rparr>))) cfg))) }) })"

definition AskConfigURL :: "CloudConfig \<Rightarrow> CloudConfig os" where
  "AskConfigURL cfg = the_install cfg (\<lambda>inst.
     if ConfigURL inst \<noteq> [] then State_Monad.return (Inr cfg)
     else do {
       k \<leftarrow> quiz (PromptBool ''Config system with cloud-init file?'' False);
       onok k (\<lambda>k. if \<not> k then State_Monad.return (Inr cfg)
         else do {
           str \<leftarrow> quiz (Prompt ''cloud-init file location (file path or http URL): '' []);
           onok str (\<lambda>str. State_Monad.return (Inr (set_k3os (Install_update (\<lambda>_. Some (inst\<lparr>ConfigURL := str\<rparr>))) cfg))) }) })"

definition AskGithub :: "CloudConfig \<Rightarrow> CloudConfig os" where
  "AskGithub cfg =
     (if SSHAuthorizedKeys cfg \<noteq> [] \<or> Password (K3OS cfg) \<noteq> [] then State_Monad.return (Inr cfg)
      else do {
        k \<leftarrow> quiz (PromptBool ''Authorize GitHub users to SSH?'' False);
        onok k (\<lambda>k. if \<not> k then State_Monad.return (Inr cfg)
          else do {
            str \<leftarrow> quiz (Prompt ''Comma separated list of GitHub users to authorize: '' []);
            onok str (\<lambda>str. State_Monad.return (Inr (cfg\<lparr>SSHAuthorizedKeys := SSHAuthorizedKeys cfg @
              map (\<lambda>s. ''github:'' @ TrimSpace s) (Split str (CHR '',''))\<rparr>))) }) })"

lemma getCharacter_shorter: "getCharacter inp = (Inr c, inp') \<Longrightarrow> input_size inp' < input_size inp"
  by (induction inp rule: getCharacter.induct) (auto simp: input_size_def split: if_splits)

lemma mask_loop_shorter:
  "mask_loop n inp p out = ((q, None), inp', out') \<Longrightarrow> input_size inp' < input_size inp"
proof (induction n arbitrary: inp p out)
  case (Suc n)
  obtain r inp1 where g: "getCharacter inp = (r, inp1)" by fastforce
  show ?case
  proof (cases r)
    case (Inr v)
    have "input_size inp1 < input_size inp" using g Inr by (simp add: getCharacter_shorter)
    moreover have "inp1 = inp' \<or> input_size inp' < input_size inp1"
      using Suc.prems Suc.IH by (auto simp: g Inr split: if_splits)
    ultimately show ?thesis by auto
  qed (use Suc.prems in \<open>simp add: g\<close>)
qed simp

lemma MaskPassword_shorter: "MaskPassword t inp = (Inr p, inp', out) \<Longrightarrow> input_size inp' < input_size inp"
proof -
  obtain q e i o' where m: "mask_loop (Suc maxBytes) inp [] [] = ((q, e), i, o')" by (metis prod.collapse)
  assume "MaskPassword t inp = (Inr p, inp', out)"
  then have "e = None" "i = inp'"
    unfolding MaskPassword_def m by (auto split: tty.splits option.splits)
  then show ?thesis using m mask_loop_shorter by blast
qed

lemma PromptPassword_shorter: "PromptPassword t inp = (Inr p, inp', out) \<Longrightarrow> input_size inp' < input_size inp"
  unfolding PromptPassword_def
  by (fastforce dest: MaskPassword_shorter simp: Let_def split: prod.splits sum.splits)

text \<open>The loop of \<open>AskPassword\<close>.\<close>

function ask_password :: "tty \<Rightarrow> string question" where
  "ask_password t inp =
     (case PromptPassword t inp of
        (Inl e, inp', out) \<Rightarrow> (Inl e, inp', out)
      | (Inr (pass, k), inp', out) \<Rightarrow>
          if k then (Inr pass, inp', out)
          else (case ask_password t inp' of (r, inp'', out') \<Rightarrow> (r, inp'', out @ out')))"
  by pat_completeness auto
termination
  by (relation "measure (\<lambda>(t, inp). input_size inp)") (auto dest!: PromptPassword_shorter [OF sym])

declare ask_password.simps [simp del]

definition shadow_password :: "string \<Rightarrow> string option" where
  "shadow_password content =
     (case filter (\<lambda>fs. length fs > 1 \<and> fs ! 0 = ''rancher'') (map (\<lambda>l. Split l (CHR '':'')) (fst (ScanLines content))) of
        [] \<Rightarrow> None | fs # _ \<Rightarrow> Some (fs ! 1))"

definition chpasswd_rancher :: "string \<Rightarrow> cmd" where
  "chpasswd_rancher pass = (Command ''chpasswd'' [])\<lparr>c_stdin := StdinBytes (''rancher:'' @ pass)\<rparr>"

definition etc_shadow :: string where "etc_shadow = ''/etc/shadow''"

definition read_encrypted :: "CloudConfig \<Rightarrow> CloudConfig os" where
  "read_encrypted cfg = do {
     f \<leftarrow> os_Open etc_shadow;
     onok f (\<lambda>f. deferred (fd_Close f) (do {
       (content, err) \<leftarrow> fd_ReadAll f;
       State_Monad.return (case shadow_password content of
         Some p \<Rightarrow> Inr (set_k3os (Password_update (\<lambda>_. p)) cfg)
       | None \<Rightarrow> map_sum (\<lambda>e. e) (\<lambda>_. cfg) (scan_err content err)) })) }"

definition encrypt_password :: "string \<Rightarrow> CloudConfig \<Rightarrow> CloudConfig os" where
  "encrypt_password pass cfg = do {
     oldShadow \<leftarrow> os_ReadFile etc_shadow;
     onok oldShadow (\<lambda>oldShadow. deferred (os_WriteFile etc_shadow oldShadow 416) (do {
       r \<leftarrow> cmd_Run (chpasswd_rancher pass);
       onok r (\<lambda>_. read_encrypted cfg) })) }"

definition AskPassword :: "tty \<Rightarrow> CloudConfig \<Rightarrow> CloudConfig os" where
  "AskPassword t cfg =
     (if SSHAuthorizedKeys cfg \<noteq> [] \<or> Password (K3OS cfg) \<noteq> [] then State_Monad.return (Inr cfg)
      else do {
        pass \<leftarrow> quiz (ask_password t);
        onok pass (\<lambda>pass. do {
          uid \<leftarrow> Getuid;
          if uid \<noteq> 0 then State_Monad.return (Inr (set_k3os (Password_update (\<lambda>_. pass)) cfg))
          else encrypt_password pass cfg }) })"

lemma ask_bool_shorter: "ask_bool msg d inp = (Inr b, inp', out) \<Longrightarrow> input_size inp' < input_size inp"
proof (induction msg d inp arbitrary: out rule: ask_bool.induct)
  case (1 msg d inp)
  obtain r inp1 out1 where p: "Prompt msg d inp = (r, inp1, out1)" by (metis prod_cases3)
  show ?case
  proof (cases r)
    case (Inl e)
    then show ?thesis using "1.prems" by (subst (asm) ask_bool.simps) (simp add: p)
  next
    case (Inr yn)
    have s: "input_size inp1 < input_size inp" using p Inr Prompt_shorter by blast
    note step = "1.prems" [unfolded ask_bool.simps [of msg d inp] p Inr prod.case sum.case]
    show ?thesis
    proof (cases "ToLower yn = ''y'' \<or> ToLower yn = ''n''")
      case True
      then show ?thesis using step s by (auto split: if_splits)
    next
      case False
      then have ny: "ToLower yn \<noteq> ''y''" "ToLower yn \<noteq> ''n''" by simp_all
      then obtain out' where "ask_bool msg d inp1 = (Inr b, inp', out')"
        using step by (auto split: prod.splits)
      then show ?thesis using "1.IH" [OF p [symmetric] Inr refl ny] s by fastforce
    qed
  qed
qed

text \<open>The loop of \<open>AskWifi\<close>.\<close>

function ask_networks :: "wifi list \<Rightarrow> (wifi list) question" where
  "ask_networks ws inp =
     (case Prompt ''WiFi Name: '' [] inp of
        (Inl e, inp1, out1) \<Rightarrow> (Inl e, inp1, out1)
      | (Inr name, inp1, out1) \<Rightarrow>
         (case Prompt ''WiFi Passphrase: '' [] inp1 of
            (Inl e, inp2, out2) \<Rightarrow> (Inl e, inp2, out1 @ out2)
          | (Inr pass, inp2, out2) \<Rightarrow>
             (let ws' = ws @ [\<lparr>Wifi_Name = name, Passphrase = pass\<rparr>] in
              case PromptBool ''Configure another WiFi network?'' False inp2 of
                (Inl e, inp3, out3) \<Rightarrow> (Inl e, inp3, out1 @ out2 @ out3)
              | (Inr k, inp3, out3) \<Rightarrow>
                 if \<not> k then (Inr ws', inp3, out1 @ out2 @ out3)
                 else (case ask_networks ws' inp3 of (r, inp4, out4) \<Rightarrow> (r, inp4, out1 @ out2 @ out3 @ out4)))))"
  by pat_completeness auto
termination
proof (relation "measure (\<lambda>(ws, inp). input_size inp)", goal_cases)
  case (2 ws inp x y name inp1 out1 x' y' pass inp2 out2 ws' x'' y'' k inp3 out3)
  then have "input_size inp1 < input_size inp" "input_size inp2 < input_size inp1" "input_size inp3 < input_size inp2"
    by (metis Prompt_shorter, metis Prompt_shorter, metis PromptBool_def ask_bool_shorter)
  then show ?case by simp
qed simp

declare ask_networks.simps [simp del]

definition AskWifi :: "CloudConfig \<Rightarrow> CloudConfig os" where
  "AskWifi cfg =
     (if Wifi (K3OS cfg) \<noteq> [] then State_Monad.return (Inr cfg)
      else do {
        k \<leftarrow> quiz (PromptBool ''Configure WiFi?'' False);
        onok k (\<lambda>k. if \<not> k then State_Monad.return (Inr cfg)
          else do {
            ws \<leftarrow> quiz (ask_networks (Wifi (K3OS cfg)));
            onok ws (\<lambda>ws. State_Monad.return (Inr (set_k3os (Wifi_update (\<lambda>_. ws)) cfg))) }) })"

definition AskToken :: "CloudConfig \<Rightarrow> bool \<Rightarrow> CloudConfig os" where
  "AskToken cfg server =
     (if Token (K3OS cfg) \<noteq> [] then State_Monad.return (Inr cfg)
      else do {
        let msg = ''Token or cluster secret'' @ (if server then '' (optional)'' else []) @ '': '';
        token \<leftarrow> quiz (if server then PromptOptional msg [] else Prompt msg []);
        onok token (\<lambda>token. State_Monad.return (Inr (set_k3os (Token_update (\<lambda>_. token)) cfg))) })"

definition isServer :: "CloudConfig \<Rightarrow> bool os" where
  "isServer cfg = do {
     mode \<leftarrow> mode_Get [];
     onok mode (\<lambda>mode.
       if mode = ''live-server'' then State_Monad.return (Inr True)
       else if mode = ''live-agent'' \<or> ServerURL (K3OS cfg) \<noteq> [] \<and> Token (K3OS cfg) \<noteq> []
       then State_Monad.return (Inr False)
       else do {
         i \<leftarrow> quiz (PromptFormattedOptions ''Run as server or agent?'' 0 [''server'', ''agent'']);
         onok i (\<lambda>i. State_Monad.return (Inr (i = 0))) }) }"

definition AskServerAgent :: "CloudConfig \<Rightarrow> CloudConfig os" where
  "AskServerAgent cfg =
     (if ServerURL (K3OS cfg) \<noteq> [] then State_Monad.return (Inr cfg)
      else do {
        server \<leftarrow> isServer cfg;
        onok server (\<lambda>server.
          if server then AskToken cfg True
          else do {
            url \<leftarrow> quiz (Prompt ''URL of server: '' []);
            onok url (\<lambda>url. AskToken (set_k3os (ServerURL_update (\<lambda>_. url)) cfg) False) }) })"

definition AskInstall :: "(cmd \<Rightarrow> fs \<Rightarrow> string) \<Rightarrow> tty \<Rightarrow> CloudConfig \<Rightarrow> CloudConfig os" where
  "AskInstall output t cfg = the_install cfg (\<lambda>inst.
     if Silent inst then State_Monad.return (Inr cfg)
     else do {
       cfg \<leftarrow> AskInstallDevice output cfg;
       onok cfg (\<lambda>cfg. do {
         cfg \<leftarrow> AskConfigURL cfg;
         onok cfg (\<lambda>cfg. the_install cfg (\<lambda>inst.
           if ConfigURL inst \<noteq> [] then State_Monad.return (Inr cfg)
           else do {
             cfg \<leftarrow> AskGithub cfg;
             onok cfg (\<lambda>cfg. do {
               cfg \<leftarrow> AskPassword t cfg;
               onok cfg (\<lambda>cfg. do {
                 cfg \<leftarrow> AskWifi cfg;
                 onok cfg AskServerAgent }) }) })) }) })"

definition Ask :: "(cmd \<Rightarrow> fs \<Rightarrow> string) \<Rightarrow> tty \<Rightarrow> CloudConfig \<Rightarrow> (bool \<times> CloudConfig) os" where
  "Ask output t cfg = do {
     k \<leftarrow> isInstall;
     onok k (\<lambda>k. do {
       cfg \<leftarrow> (if k then AskInstall output t cfg else AskServerAgent cfg);
       onok cfg (\<lambda>cfg. State_Monad.return (Inr (k, cfg))) }) }"

section \<open>install.go\<close>

definition runCCApply :: "string \<Rightarrow> unit os" where
  "runCCApply arg0 = cmd_Run ((Command arg0 [''config'', ''--install''])\<lparr>c_stdin := StdinInherit\<rparr>)"

definition install_command :: "string list \<Rightarrow> cmd" where
  "install_command env = (Command ''/usr/libexec/k3os/install'' [])\<lparr>c_env := Some env, c_stdin := StdinInherit\<rparr>"

definition run_installer :: "string list \<Rightarrow> unit os" where
  "run_installer ev = do { env \<leftarrow> Environ; cmd_Run (install_command (env @ ev)) }"

definition confirm_text :: "string \<Rightarrow> string" where
  "confirm_text installBytes = [newline] @ ''Configuration'' @ [newline] @ ''-------------'' @ [newline, newline] @ installBytes
     @ [newline] @ ''Your disk will be formatted and k3OS will be installed with the above configuration.'' @ [newline] @ ''Continue?''"

text \<open>The part of \<open>runInstall\<close> that runs with a temporary file for the configuration: opened, named in
  the environment, filled, closed; removed after the installer.\<close>

definition install_with_file :: "yaml_printer \<Rightarrow> CloudConfig \<Rightarrow> install \<Rightarrow> unit os" where
  "install_with_file marshal cfg inst = do {
     tmp \<leftarrow> TempFile ''/tmp'' ''k3os.XXXXXXXX'';
     onok tmp (\<lambda>(name, f). do {
       let ev = ToEnv (set_k3os (Install_update (\<lambda>_. Some (inst\<lparr>ConfigURL := name\<rparr>))) cfg);
       (case marshal (GMap (EncodeToMap (set_k3os (Install_update (\<lambda>_. None)) cfg))) of
          Inl e \<Rightarrow> deferred (fd_Close f) (State_Monad.return (Inl e))
        | Inr bytes \<Rightarrow> do {
            r \<leftarrow> fd_Write f bytes;
            (case r of
               Inl e \<Rightarrow> deferred (fd_Close f) (State_Monad.return (Inl e))
             | Inr _ \<Rightarrow> do {
                 c \<leftarrow> fd_Close f;
                 onok c (\<lambda>_. deferred (os_Remove name) (run_installer ev)) }) }) }) }"

definition runInstall :: "yaml_printer \<Rightarrow> CloudConfig \<Rightarrow> unit os" where
  "runInstall marshal cfg =
     (case PrintInstall marshal cfg of
        Inl e \<Rightarrow> State_Monad.return (Inl e)
      | Inr installBytes \<Rightarrow> the_install cfg (\<lambda>inst. do {
          val \<leftarrow> (if \<not> Silent inst then quiz (PromptBool (confirm_text installBytes) False)
                  else State_Monad.return (Inr True));
          onok val (\<lambda>val.
            if \<not> val then State_Monad.return (Inr ())
            else if ConfigURL inst = [] then install_with_file marshal cfg inst
            else run_installer (ToEnv cfg)) }))"

definition save_config :: "string \<Rightarrow> string \<Rightarrow> unit os" where
  "save_config arg0 bytes = do {
     f \<leftarrow> os_Create SystemConfig;
     f \<leftarrow> (case f of Inr p \<Rightarrow> State_Monad.return (Inr p) | Inl _ \<Rightarrow> os_Create LocalConfig);
     onok f (\<lambda>f. do {
       r \<leftarrow> fd_Write f bytes;
       _ \<leftarrow> fd_Close f;
       onok r (\<lambda>_. runCCApply arg0) }) }"

definition cliinstall_Run :: "yaml \<Rightarrow> yaml_printer \<Rightarrow> (cmd \<Rightarrow> fs \<Rightarrow> string) \<Rightarrow> tty \<Rightarrow> string \<Rightarrow> unit os" where
  "cliinstall_Run unmarshal marshal output t arg0 = do {
     _ \<leftarrow> emit (EvPrint ([newline] @ ''Running k3OS configuration'' @ [newline]));
     (cfg, err) \<leftarrow> ReadConfig unmarshal;
     (case err of
        Some e \<Rightarrow> State_Monad.return (Inl e)
      | None \<Rightarrow> do {
          r \<leftarrow> Ask output t cfg;
          onok r (\<lambda>(install, cfg).
            if install then runInstall marshal cfg
            else (case ToBytes marshal cfg of
                    Inl e \<Rightarrow> State_Monad.return (Inl e)
                  | Inr bytes \<Rightarrow> save_config arg0 bytes)) }) }"

end
