(* ===== verification/Traces.thy ===== *)
theory Traces
  imports GoMount
begin

text \<open>
  Which events a program may record: \<open>emits P m\<close> says that every run of \<open>m\<close> only adds events with the
  property \<open>P\<close>. The rules follow the operations of \<open>GoOS\<close>, as those of \<open>program\<close> do.
\<close>

definition emits :: "(event \<Rightarrow> bool) \<Rightarrow> (world, 'a) state \<Rightarrow> bool" where
  "emits P m = keeps (\<lambda>w w'. \<exists>es. w_trace w' = w_trace w @ es \<and> list_all P es) m"

named_theorems emits_intros \<open>the events of a program have the property\<close>

lemma emitsI: "(\<And>w. \<exists>es. w_trace (snd (run_state m w)) = w_trace w @ es \<and> list_all P es) \<Longrightarrow> emits P m"
  by (simp add: emits_def keeps_def)

lemma emits_run:
  assumes "emits P m" "run_state m w = (a, w')"
  obtains es where "w_trace w' = w_trace w @ es" "list_all P es"
  using keeps_run [OF assms(1) [unfolded emits_def] assms(2)] by blast

lemma wp_emits:
  "emits P m \<Longrightarrow> (\<And>a v es. w_trace v = w_trace w @ es \<Longrightarrow> list_all P es \<Longrightarrow> Q a v) \<Longrightarrow> wp m Q w"
  by (rule wpI) (blast elim: emits_run)

text \<open>\<open>added P w v\<close>: since \<open>w\<close> only events with the property have been recorded.\<close>

definition added :: "(event \<Rightarrow> bool) \<Rightarrow> world \<Rightarrow> world \<Rightarrow> bool" where
  "added P w v = (\<exists>es. w_trace v = w_trace w @ es \<and> list_all P es)"

lemma added_refl [simp]: "added P w w"
  by (simp add: added_def)

lemma added_trans: "added P u v \<Longrightarrow> added P v w \<Longrightarrow> added P u w"
  unfolding added_def by (metis append_assoc list_all_append)

lemma wp_added_bind:
  assumes "added P w v" "emits P m" "\<And>a u. added P w u \<Longrightarrow> wp (f a) Q u"
  shows "wp (State_Monad.bind m f) Q v"
proof -
  have "wp m (\<lambda>a. wp (f a) Q) v"
    by (rule wp_emits [OF assms(2)], rule assms(3), rule added_trans [OF assms(1)]) (auto simp: added_def)
  then show ?thesis by simp
qed

lemma wp_added_onok:
  "added P w v \<Longrightarrow> (\<And>e. added P w v \<Longrightarrow> Q (Inl e) v) \<Longrightarrow> (\<And>x. added P w v \<Longrightarrow> wp (f x) Q v) \<Longrightarrow> wp (onok r f) Q v"
  by (cases r) simp_all

lemma emits_silent: "(\<And>w. w_trace (snd (run_state m w)) = w_trace w) \<Longrightarrow> emits P m"
  by (rule emitsI) simp

lemma emits_one: "(\<And>w. w_trace (snd (run_state m w)) \<in> {w_trace w, w_trace w @ [ev]}) \<Longrightarrow> P ev \<Longrightarrow> emits P m"
proof (rule emitsI)
  fix w
  assume "\<And>w. w_trace (snd (run_state m w)) \<in> {w_trace w, w_trace w @ [ev]}" and "P ev"
  then have "w_trace (snd (run_state m w)) = w_trace w \<or> w_trace (snd (run_state m w)) = w_trace w @ [ev]"
    by blast
  then show "\<exists>es. w_trace (snd (run_state m w)) = w_trace w @ es \<and> list_all P es"
  proof
    assume "w_trace (snd (run_state m w)) = w_trace w @ [ev]"
    then show ?thesis using \<open>P ev\<close> by (intro exI [of _ "[ev]"]) simp
  qed simp
qed

section \<open>Control\<close>

lemma emits_return [emits_intros]: "emits P (State_Monad.return a)"
  by (rule emits_silent) simp

lemma emits_bind [emits_intros]:
  assumes "emits P m" "\<And>a. emits P (f a)"
  shows "emits P (State_Monad.bind m f)"
  unfolding emits_def
proof (rule keeps_bind)
  show "transp (\<lambda>w w'. \<exists>es. w_trace w' = w_trace w @ es \<and> list_all P es)"
    by (rule transpI) (metis append_assoc list_all_append)
qed (use assms in \<open>simp_all add: emits_def\<close>)

lemma emits_onok [emits_intros]: "(\<And>x. emits P (f x)) \<Longrightarrow> emits P (onok r f)"
  by (cases r) (simp_all add: emits_return)

lemma emits_deferred [emits_intros]: "emits P d \<Longrightarrow> emits P m \<Longrightarrow> emits P (deferred d m)"
  unfolding deferred_def by (intro emits_bind emits_return)

lemma emits_if [emits_intros]: "emits P m \<Longrightarrow> emits P n \<Longrightarrow> emits P (if b then m else n)"
  by simp

lemma emits_sum [emits_intros]:
  "(\<And>a. emits P (f a)) \<Longrightarrow> (\<And>b. emits P (g b)) \<Longrightarrow> emits P (case x of Inl a \<Rightarrow> f a | Inr b \<Rightarrow> g b)"
  by (simp split: sum.split)

lemma emits_option [emits_intros]:
  "emits P f \<Longrightarrow> (\<And>b. emits P (g b)) \<Longrightarrow> emits P (case x of None \<Rightarrow> f | Some b \<Rightarrow> g b)"
  by (simp split: option.split)

lemma emits_prod [emits_intros]: "(\<And>a b. emits P (f a b)) \<Longrightarrow> emits P (case x of (a, b) \<Rightarrow> f a b)"
  by (simp split: prod.split)

lemma emits_list [emits_intros]:
  "emits P f \<Longrightarrow> (\<And>a b. emits P (g a b)) \<Longrightarrow> emits P (case x of [] \<Rightarrow> f | a # b \<Rightarrow> g a b)"
  by (simp split: list.split)

lemma emits_bool [emits_intros]: "emits P m \<Longrightarrow> emits P n \<Longrightarrow> emits P (case b of True \<Rightarrow> m | False \<Rightarrow> n)"
  by (cases b) simp_all

lemma emits_let [emits_intros]: "(\<And>x. emits P (f x)) \<Longrightarrow> emits P (let x = e in f x)"
  by simp

section \<open>Calls that record nothing\<close>

lemma emits_fs_call_part: "emits P (fs_call_part part op)"
  by (rule emits_silent) (simp add: fs_call_part_def tick_def split: option.split sum.split prod.split)

lemma emits_fs_call: "emits P (fs_call op)"
  unfolding fs_call_def by (rule emits_fs_call_part)

lemma emits_files [emits_intros]:
  "emits P (os_Stat s)" "emits P (os_Lstat s)" "emits P (os_Readlink s)" "emits P (os_ReadFile s)"
  "emits P (os_ReadDir s)" "emits P (os_ReadDirInfo s)" "emits P (os_Open s)" "emits P (os_OpenTrunc s perm)"
  "emits P (fd_Write p data)" "emits P (fd_Close p)" "emits P (os_OpenExcl s)" "emits P (os_Mkdir s perm)"
  "emits P (os_Symlink t s)" "emits P (os_Mknod s perm dev)" "emits P (os_Chmod s perm)" "emits P (os_Chown s u g)"
  "emits P (os_Remove s)" "emits P (os_RemoveAll s)" "emits P (os_Rename s t)"
  by (simp_all add: emits_fs_call emits_fs_call_part os_Stat_def os_Lstat_def os_Readlink_def os_ReadFile_def
      os_ReadDir_def os_ReadDirInfo_def os_Open_def os_OpenTrunc_def fd_Write_def fd_Close_def os_OpenExcl_def
      os_Mkdir_def os_Symlink_def os_Mknod_def os_Chmod_def os_Chown_def os_Remove_def os_RemoveAll_def os_Rename_def)

lemma emits_fd_ReadAll [emits_intros]: "emits P (fd_ReadAll p)"
  by (rule emits_silent) (simp add: fd_ReadAll_def tick_def split: option.split kind.split)

lemma emits_os_WriteFile [emits_intros]: "emits P (os_WriteFile s data perm)"
  unfolding os_WriteFile_def by (intro emits_intros)

lemma emits_os_Chdir [emits_intros]: "emits P (os_Chdir s)"
  by (rule emits_silent) (simp add: os_Chdir_def tick_def split: option.split sum.split)

lemma emits_mkdir_chain [emits_intros]: "emits P (mkdir_chain perm ps)"
  by (induction ps) (auto simp: mkdir_or_dir_def intro!: emits_intros)

lemma emits_os_MkdirAll [emits_intros]: "emits P (os_MkdirAll s perm)"
  unfolding os_MkdirAll_def by (intro emits_intros)

lemma emits_environment [emits_intros]:
  "emits P Environ" "emits P (Getenv k)" "emits P (Setenv k v)" "emits P (Unsetenv k)" "emits P Getuid"
  by (rule emits_silent, simp add: Environ_def Getenv_def Setenv_def Unsetenv_def Getuid_def)+

lemma emits_os_Hostname [emits_intros]: "emits P os_Hostname"
  by (rule emits_silent) (simp add: os_Hostname_def tick_def split: option.split)

lemma emits_Mounted [emits_intros]: "emits P (Mounted s)"
  unfolding Mounted_def parseMountTable_def by (intro emits_intros)

section \<open>Calls that record an event\<close>

lemma emits_emit [emits_intros]: "P ev \<Longrightarrow> emits P (emit ev)"
  by (rule emits_one) (simp_all add: emit_def)

lemma emits_cmd_Run [emits_intros]: "P (EvRun c) \<Longrightarrow> emits P (cmd_Run c)"
  by (rule emits_one) (simp_all add: cmd_Run_def split: prod.split)

lemma emits_sys_mount [emits_intros]: "P (EvMount m) \<Longrightarrow> emits P (sys_mount m)"
  by (rule emits_one) (simp_all add: sys_mount_def split: prod.split option.split)

lemma emits_Mount [emits_intros]:
  assumes "\<And>m. P (EvMount m)"
  shows "emits P (ForceMount d t ty opts)" "emits P (Mount d t ty opts)"
  unfolding Mount_def ForceMount_def mount_call_def Let_def by (intro emits_intros assms)+

lemma emits_sys_Exec [emits_intros]: "P (EvExecve s args env) \<Longrightarrow> emits P (sys_Exec s args env)"
  by (rule emits_one) (auto simp: sys_Exec_def tick_def split: option.split sum.split)

lemma emits_sys_Setrlimit [emits_intros]: "P (EvRlimit r c h) \<Longrightarrow> emits P (sys_Setrlimit r c h)"
  by (rule emits_one) (auto simp: sys_Setrlimit_def tick_def split: option.split)

lemma emits_sys_Sethostname [emits_intros]: "P (EvHostname h) \<Longrightarrow> emits P (sys_Sethostname h)"
  by (rule emits_one) (auto simp: sys_Sethostname_def tick_def split: option.split)

lemma emits_sys_Chroot [emits_intros]: "P (EvChroot s) \<Longrightarrow> emits P (sys_Chroot s)"
  by (rule emits_one) (auto simp: sys_Chroot_def tick_def split: option.split sum.split)

lemma emits_sys_PivotRoot [emits_intros]: "P (EvPivot s t) \<Longrightarrow> emits P (sys_PivotRoot s t)"
  by (rule emits_one) (auto simp: sys_PivotRoot_def tick_def split: option.split sum.split)

lemma emits_fatal [emits_intros]: "(\<And>ev. P ev) \<Longrightarrow> emits P (fatal e)"
  unfolding fatal_def by (intro emits_intros)

lemma sys_Exec_trace:
  "run_state (sys_Exec s as env) w = (r, w') \<Longrightarrow>
   w_trace w' = w_trace w @ (if is_ok r then [EvExecve s as env] else [])"
  by (auto simp: sys_Exec_def tick_def split: option.splits sum.splits)

text \<open>An environment as the system gives it to a program.\<close>

definition environ_list :: "(string \<times> string) list \<Rightarrow> string list" where
  "environ_list E = map (\<lambda>(k, v). k @ ''='' @ v) E"

end
