(* ===== verification/InstallLaws.thy ===== *)
theory InstallLaws
  imports CliInstall CC Traces
begin

text \<open>
  What the installer promises: nothing is installed without consent, the device is one that was offered, the system's
  passwords are left as they were, the saved configuration is the one the answers gave.
\<close>

section \<open>Consent\<close>

definition system_path :: path where "system_path = [''k3os'', ''system'', ''config.yaml'']"

lemma SystemConfig_abs: "SystemConfig = abs_path system_path"
  unfolding system_path_def by code_simp

definition apply_command :: "string \<Rightarrow> cmd" where
  "apply_command arg0 = (Command arg0 [''config'', ''--install''])\<lparr>c_stdin := StdinInherit\<rparr>"

text \<open>The step after the questions: without a yes it does nothing.\<close>

lemma runInstall_refused:
  assumes no: "\<And>inst b. Install (K3OS cfg) = Some inst \<Longrightarrow> PrintInstall marshal cfg = Inr b \<Longrightarrow>
      \<not> Silent inst \<and> fst (PromptBool (confirm_text b) False (w_stdin w)) \<noteq> Inr True"
    and run: "run_state (runInstall marshal cfg) w = (r, w')"
  shows "w_fs w' = w_fs w \<and> (\<exists>es. w_trace w' = w_trace w @ es \<and> [c. EvRun c \<leftarrow> es] = [])"
proof (cases "PrintInstall marshal cfg")
  case (Inl e)
  then show ?thesis using run by (auto simp: runInstall_def)
next
  case (Inr b)
  show ?thesis
  proof (cases "Install (K3OS cfg)")
    case None
    then show ?thesis using run Inr by (auto simp: runInstall_def the_install_def)
  next
    case (Some inst)
    obtain v inp out where q: "PromptBool (confirm_text b) False (w_stdin w) = (v, inp, out)" by (metis prod_cases3)
    have "v \<noteq> Inr True" "\<not> Silent inst" using no [OF Some Inr] q by simp_all
    then show ?thesis
      using run Some q by (cases v) (auto simp: runInstall_def Inr the_install_def quiz_def)
  qed
qed

text \<open>The commands before it: those of the questions.\<close>

definition question_command :: "cmd \<Rightarrow> bool" where
  "question_command c = (c = lsblk \<or> (\<exists>pass. c = chpasswd_rancher pass))"

lemma question_commands: "Collect question_command = insert lsblk (range chpasswd_rancher)"
  by (auto simp: question_command_def)

definition only_runs :: "(cmd \<Rightarrow> bool) \<Rightarrow> event \<Rightarrow> bool" where
  "only_runs P ev = (case ev of EvRun c \<Rightarrow> P c | EvPrint _ \<Rightarrow> True | _ \<Rightarrow> False)"

lemma only_runs_simps [simp]: "only_runs P (EvPrint s)" "only_runs P (EvRun c) = P c"
  by (simp_all add: only_runs_def)

lemma runs_only: "list_all (only_runs P) es \<Longrightarrow> w_trace w' = w_trace w @ es \<Longrightarrow> set (runs w w') \<subseteq> Collect P"
  by (auto simp: runs_def list_all_iff only_runs_def split: event.splits)

lemma emits_quiz [emits_intros]: "emits (only_runs P) (quiz q)"
  by (rule emitsI) (auto simp: quiz_def split: prod.split)

lemma emits_the_install [emits_intros]: "(\<And>i. emits P (f i)) \<Longrightarrow> emits P (the_install cfg f)"
  unfolding the_install_def by (intro emits_intros)

lemma emits_get [emits_intros]: "emits P State_Monad.get"
  by (rule emits_silent) simp

lemma emits_os_Create [emits_intros]: "emits P (os_Create s)"
  unfolding os_Create_def by (intro emits_intros)

lemma emits_readFile [emits_intros]: "emits P (readFile unmarshal path)"
  unfolding readFile_def by (intro emits_intros)

lemma emits_merge_from: "(\<And>r. r \<in> set rs \<Longrightarrow> emits P r) \<Longrightarrow> emits P (merge_from d rs)"
  by (induction rs arbitrary: d) (auto intro!: emits_intros)

lemma emits_readers [emits_intros]: "(\<And>r. r \<in> set rs \<Longrightarrow> emits P r) \<Longrightarrow> emits P (readersToObject rs)"
  unfolding readersToObject_def merge_def by (intro emits_intros emits_merge_from)

lemma emits_ReadConfig [emits_intros]: "emits P (ReadConfig unmarshal)"
proof -
  have d: "emits P r" if "r \<in> set (default_readers unmarshal)" for r
    using that unfolding default_readers_def readSystemConfig_def readLocalConfig_def readCmdline_def
      readCloudConfig_def readUserData_def Let_def
    by (auto intro!: emits_intros)
  show ?thesis
    unfolding ReadConfig_def readLocalConfigs_def State_Monad.bind_assoc State_Monad.bind_left_identity
    by (intro emits_intros) (auto intro: d emits_return emits_readFile split: sum.splits if_splits)
qed

lemma emits_mode_Get [emits_intros]: "emits P (mode_Get pre)"
  unfolding mode_Get_def by (intro emits_intros)

lemma emits_Ask [emits_intros]: "emits (only_runs question_command) (Ask output t cfg)"
  unfolding Ask_def isInstall_def AskInstall_def AskInstallDevice_def AskConfigURL_def AskGithub_def AskPassword_def
    AskWifi_def AskServerAgent_def AskToken_def isServer_def encrypt_password_def read_encrypted_def cmd_Output_def Let_def
  by (intro emits_intros) (auto simp: question_command_def)

lemma emits_save_config: "emits (only_runs (\<lambda>c. c = apply_command arg0)) (save_config arg0 bytes)"
  unfolding save_config_def runCCApply_def by (intro emits_intros) (simp_all add: apply_command_def)

definition greeted :: "world \<Rightarrow> world" where
  "greeted w = snd (run_state (emit (EvPrint ([newline] @ ''Running k3OS configuration'' @ [newline]))) w)"

text \<open>
  C25. The installer does not run, and no file changes after the questions, unless the configuration after the questions
  says to be silent or the question for consent, put with this configuration, is answered with yes. Without
  consent the only commands \<open>cliinstall_Run\<close> runs are those of the questions, which come first: \<open>lsblk\<close> to list the
  disks and \<open>chpasswd\<close> to encrypt the password (which rewrites \<^verbatim>\<open>/etc/shadow\<close>, and \<open>AskPassword\<close> restores it);
  and the program itself with \<^verbatim>\<open>config --install\<close> when server or agent is chosen instead of the installation.
\<close>

theorem installer_needs_consent:
  assumes refused: "\<And>cfg0 w1 cfg w2 inst b. run_state (ReadConfig unmarshal) (greeted w) = ((cfg0, None), w1) \<Longrightarrow>
      run_state (Ask output t cfg0) w1 = (Inr (True, cfg), w2) \<Longrightarrow>
      Install (K3OS cfg) = Some inst \<Longrightarrow> PrintInstall marshal cfg = Inr b \<Longrightarrow>
      \<not> Silent inst \<and> fst (PromptBool (confirm_text b) False (w_stdin w2)) \<noteq> Inr True"
    and run: "run_state (cliinstall_Run unmarshal marshal output t arg0) w = (r, w')"
  shows "set (runs w w') \<subseteq> {lsblk, apply_command arg0} \<union> range chpasswd_rancher
    \<and> (\<forall>cfg0 w1 cfg w2. run_state (ReadConfig unmarshal) (greeted w) = ((cfg0, None), w1)
        \<and> run_state (Ask output t cfg0) w1 = (Inr (True, cfg), w2)
       \<longrightarrow> w_fs w' = w_fs w2 \<and> apply_command arg0 \<notin> set (runs w w'))"
proof -
  have no_apply: "\<not> question_command (apply_command arg0)"
    by (simp add: question_command_def apply_command_def lsblk_def chpasswd_rancher_def Command_def)
  obtain cfg0 err w1 where rc: "run_state (ReadConfig unmarshal) (greeted w) = ((cfg0, err), w1)" by (metis prod.collapse)
  obtain e1 where e1: "w_trace w1 = w_trace (greeted w) @ e1" "list_all (only_runs question_command) e1"
    by (rule emits_run [OF emits_ReadConfig rc])
  obtain s where g: "w_trace (greeted w) = w_trace w @ [EvPrint s]" by (simp add: greeted_def emit_def)
  obtain a w2 where ask: "run_state (Ask output t cfg0) w1 = (a, w2)" by fastforce
  obtain e2 where e2: "w_trace w2 = w_trace w1 @ e2" "list_all (only_runs question_command) e2"
    by (rule emits_run [OF emits_Ask ask])
  let ?rest = "\<lambda>(install, cfg). if install then runInstall marshal cfg
    else case ToBytes marshal cfg of Inl e \<Rightarrow> State_Monad.return (Inl e) | Inr bytes \<Rightarrow> save_config arg0 bytes"
  have step: "(case err of Some e \<Rightarrow> (Inl e, w1) | None \<Rightarrow> run_state (onok a ?rest) w2) = (r, w')"
    using run rc ask by (cases err) (simp_all add: cliinstall_Run_def greeted_def split_def)
  have w1: "set (runs w w1) \<subseteq> Collect question_command"
    by (rule runs_only [of _ "EvPrint s # e1"]) (use e1 g in simp_all)
  have w2: "set (runs w w2) \<subseteq> Collect question_command"
    by (rule runs_only [of _ "EvPrint s # e1 @ e2"]) (use e1 e2 g in simp_all)
  show ?thesis
  proof (cases "\<exists>cfg. err = None \<and> a = Inr (True, cfg)")
    case True
    then obtain cfg where c: "err = None" "a = Inr (True, cfg)" by blast
    have i: "run_state (runInstall marshal cfg) w2 = (r, w')" using step c by simp
    have rc': "run_state (ReadConfig unmarshal) (greeted w) = ((cfg0, None), w1)"
      and ask': "run_state (Ask output t cfg0) w1 = (Inr (True, cfg), w2)" using rc ask c by simp_all
    obtain es where es: "w_fs w' = w_fs w2" "w_trace w' = w_trace w2 @ es" "[c. EvRun c \<leftarrow> es] = []"
      using runInstall_refused [OF refused [OF rc' ask'] i] by blast
    have "runs w w' = runs w w2" using es(2,3) e1 e2 g by (simp add: runs_def)
    then have q: "set (runs w w') \<subseteq> Collect question_command" using w2 by simp
    moreover have "apply_command arg0 \<notin> set (runs w w')" using q no_apply by blast
    ultimately show ?thesis using es(1) rc ask c by (auto simp: question_commands)
  next
    case False
    have "set (runs w w') \<subseteq> insert (apply_command arg0) (Collect question_command)"
    proof (cases "err = None")
      case True
      have s: "emits (only_runs (\<lambda>c. c = apply_command arg0)) (onok a ?rest)"
      proof (cases a)
        case (Inr p)
        then obtain cfg where "p = (False, cfg)" using False True by (cases p) auto
        then show ?thesis using Inr by (simp, intro emits_intros emits_save_config)
      qed (simp add: emits_return)
      obtain e3 where e3: "w_trace w' = w_trace w2 @ e3" "list_all (only_runs (\<lambda>c. c = apply_command arg0)) e3"
        using step True by (auto intro: emits_run [OF s])
      show ?thesis using w2 e3 e1 e2 g by (auto simp: runs_def list_all_iff only_runs_def split: event.splits)
    qed (use step w1 in \<open>auto split: option.splits\<close>)
    then show ?thesis using False rc ask by (auto simp: question_commands)
  qed
qed

text \<open>
  A system started to be installed, whose file gives the disk and the address of the configuration, and nobody who
  answers: the questions end with this configuration, and consent is asked for in vain.
\<close>

abbreviation unattended_fs :: fs where
  "unattended_fs \<equiv> [([], mkdir_inode), ([''k3os''], mkdir_inode), ([''k3os'', ''system''], mkdir_inode),
     ([''k3os'', ''system'', ''config.yaml''], mkfile ''yaml''), ([''run''], mkdir_inode),
     ([''run'', ''k3os''], mkdir_inode), ([''run'', ''k3os'', ''mode''], mkfile ''install'')]"

abbreviation unattended_map :: gmap where
  "unattended_map \<equiv> [(''k3os'', GMap [(''install'', GMap [(''device'', GStr ''/dev/sda''), (''config_url'', GStr ''http://c'')])])]"

lemma resolve_plain:
  "\<forall>c \<in> set p. plain c \<Longrightarrow> p \<noteq> [] \<Longrightarrow> resolve w follow (abs_path p) = namei 40 (w_fs w) follow [] p"
  by (simp add: resolve_def elems_abs_path) (simp add: abs_path_def is_rooted_def)

lemma unattended_reads:
  assumes "fault_free v" "w_fs v = unattended_fs"
  shows "run_state (os_ReadFile SystemConfig) v = (Inr ''yaml'', tick v)"
    "run_state (os_ReadFile ''/proc/cmdline'') v = (Inl (Errno ENOENT), tick v)"
    "run_state (os_ReadFile LocalConfig) v = (Inl (Errno ENOENT), tick v)"
    "run_state (os_ReadFile cc_hostname) v = (Inl (Errno ENOENT), tick v)"
    "run_state (os_ReadFile cc_ssh) v = (Inl (Errno ENOENT), tick v)"
    "run_state (os_ReadFile cc_userdata) v = (Inl (Errno ENOENT), tick v)"
    "run_state (os_ReadDirInfo localConfigs) v = (Inl (Errno ENOENT), tick v)"
    "run_state (os_ReadFile (path_Join [path_Join [], StatePath [''mode'']])) v = (Inr ''install'', tick v)"
proof -
  have p: "''/proc/cmdline'' = abs_path [''proc'', ''cmdline'']"
    "LocalConfig = abs_path [''var'', ''lib'', ''rancher'', ''k3os'', ''config.yaml'']"
    "localConfigs = abs_path [''var'', ''lib'', ''rancher'', ''k3os'', ''config.d'']"
    "cc_hostname = abs_path [''run'', ''config'', ''local_hostname'']"
    "cc_ssh = abs_path [''run'', ''config'', ''ssh'', ''authorized_keys'']"
    "cc_userdata = abs_path [''run'', ''config'', ''userdata'']"
    "path_Join [path_Join [], StatePath [''mode'']] = abs_path [''run'', ''k3os'', ''mode'']"
    by code_simp+
  show "run_state (os_ReadFile SystemConfig) v = (Inr ''yaml'', tick v)"
    "run_state (os_ReadFile ''/proc/cmdline'') v = (Inl (Errno ENOENT), tick v)"
    "run_state (os_ReadFile LocalConfig) v = (Inl (Errno ENOENT), tick v)"
    "run_state (os_ReadFile cc_hostname) v = (Inl (Errno ENOENT), tick v)"
    "run_state (os_ReadFile cc_ssh) v = (Inl (Errno ENOENT), tick v)"
    "run_state (os_ReadFile cc_userdata) v = (Inl (Errno ENOENT), tick v)"
    "run_state (os_ReadDirInfo localConfigs) v = (Inl (Errno ENOENT), tick v)"
    "run_state (os_ReadFile (path_Join [path_Join [], StatePath [''mode'']])) v = (Inr ''install'', tick v)"
    unfolding p SystemConfig_abs system_path_def using assms
    by (simp_all add: os_ReadFile_def os_ReadDirInfo_def run_fs_call path_cases resolve_plain plain_def mkdir_inode_def mkfile_def)
qed

lemma unattended_mode:
  assumes "fault_free v" "w_fs v = unattended_fs"
  shows "run_state (mode_Get []) v = (Inr ''install'', tick v)"
proof -
  have "TrimSpace ''install'' = ''install''" by code_simp
  then show ?thesis using unattended_reads(8) [OF assms] by (simp add: mode_Get_def)
qed

lemma unattended_config:
  "ToInternal cloudConfig_schema [] = []"
  "ToObj (UpdateMerge cloudConfig_schema [] (ToInternal cloudConfig_schema unattended_map)) initialConfig
     = (initialConfig\<lparr>K3OS := (K3OS initialConfig)\<lparr>Install := Some (emptyInstall\<lparr>Device := ''/dev/sda'', ConfigURL := ''http://c''\<rparr>)\<rparr>\<rparr>, None)"
  by code_simp+

lemma unattended_asks:
  assumes "fault_free v" "w_fs v = unattended_fs" "run_state (ReadConfig (\<lambda>_. Inr unattended_map)) v = ((cfg0, None), w1)"
    "run_state (Ask output t cfg0) w1 = (Inr (True, cfg), w2)"
  shows "w_stdin w2 = w_stdin v \<and> Install (K3OS cfg) = Some (emptyInstall\<lparr>Device := ''/dev/sda'', ConfigURL := ''http://c''\<rparr>)"
proof -
  have t: "fault_free (tick u) = fault_free u" "w_fs (tick u) = w_fs u" "w_stdin (tick u) = w_stdin u" for u
    by (simp_all add: tick_def fault_free_def)
  note reads = unattended_reads
  have "cfg0 = initialConfig\<lparr>K3OS := (K3OS initialConfig)\<lparr>Install := Some (emptyInstall\<lparr>Device := ''/dev/sda'', ConfigURL := ''http://c''\<rparr>)\<rparr>\<rparr>
      \<and> w_stdin w1 = w_stdin v \<and> fault_free w1 \<and> w_fs w1 = unattended_fs"
    using assms(1-3) unattended_config
    by (auto simp: ReadConfig_def readLocalConfigs_def reads t default_readers_def readersToObject_def merge_def
        readSystemConfig_def readLocalConfig_def readFile_def readCmdline_def readCloudConfig_def readUserData_def
        IsNotExist_def UpdateMerge_def mergeMaps_def del: merge_value.simps)
  then show ?thesis
    using assms(4) by (auto simp: Ask_def isInstall_def unattended_mode AskInstall_def AskInstallDevice_def AskConfigURL_def the_install_def t emptyInstall_def)
qed

theorem installer_needs_consent_witness:
  "set (runs (calm_world unattended_fs) (snd (run_state (cliinstall_Run (\<lambda>_. Inr unattended_map) (\<lambda>_. Inr ''x'')
       (\<lambda>_ _. []) NoTerminal ''k3os'') (calm_world unattended_fs)))) \<subseteq> {lsblk, apply_command ''k3os''} \<union> range chpasswd_rancher"
proof -
  let ?w = "calm_world unattended_fs"
  obtain r w' where run: "run_state (cliinstall_Run (\<lambda>_. Inr unattended_map) (\<lambda>_. Inr ''x'') (\<lambda>_ _. []) NoTerminal ''k3os'') ?w = (r, w')"
    by fastforce
  have w: "fault_free (greeted ?w)" "w_fs (greeted ?w) = unattended_fs" "w_stdin (greeted ?w) = []"
    by (simp_all add: greeted_def emit_def fault_free_def calm_world_def)
  have no: "fst (PromptBool (confirm_text b) False []) \<noteq> Inr True" for b
    by (simp add: PromptBool_def ask_bool.simps Prompt.simps ReadString_def)
  have "\<not> Silent inst \<and> fst (PromptBool (confirm_text b) False (w_stdin w2)) \<noteq> Inr True"
    if "run_state (ReadConfig (\<lambda>_. Inr unattended_map)) (greeted ?w) = ((cfg0, None), w1)"
      "run_state (Ask (\<lambda>_ _. []) NoTerminal cfg0) w1 = (Inr (True, cfg), w2)" "Install (K3OS cfg) = Some inst"
    for cfg0 w1 cfg w2 inst b
    using unattended_asks [OF w(1,2) that(1,2)] that(3) w(3) no by (auto simp: emptyInstall_def)
  from installer_needs_consent [OF this run] show ?thesis using run by simp
qed

section \<open>The device\<close>

lemma quiz_range:
  "run_state (quiz (PromptFormattedOptions msg d opts)) w = (Inr i, w') \<Longrightarrow> i < length opts"
proof -
  assume a: "run_state (quiz (PromptFormattedOptions msg d opts)) w = (Inr i, w')"
  obtain r inp out where q: "PromptFormattedOptions msg d opts (w_stdin w) = (r, inp, out)" by (metis prod_cases3)
  with a have "r = Inr i" by (simp add: quiz_def)
  then show ?thesis
    using q by (auto simp: PromptFormattedOptions_def PromptOptions_def split: if_splits prod.splits dest: ask_number_range)
qed

text \<open>
  The installation target that is asked for is one of the disks that \<open>lsblk\<close> named; where it named none,
  no target is ever chosen.
\<close>

theorem AskInstallDevice_offered:
  assumes inst: "Install (K3OS cfg) = Some i" "Device i = []"
    and run: "run_state (AskInstallDevice output cfg) w = (Inr cfg', w')"
  shows "\<exists>d \<in> set (Fields (output lsblk (w_fs w))).
    cfg' = cfg\<lparr>K3OS := (K3OS cfg)\<lparr>Install := Some (i\<lparr>Device := ''/dev/'' @ d\<rparr>)\<rparr>\<rparr>"
proof -
  obtain r w1 where c: "run_state (cmd_Run lsblk) w = (r, w1)" by fastforce
  let ?disks = "Fields (output lsblk (w_fs w))"
  let ?q = "quiz (PromptFormattedOptions ''Installation target. Device will be formatted'' (- 1) ?disks)"
  obtain n w2 where q: "run_state ?q w1 = (n, w2)" by fastforce
  have r: "r = Inr ()" using run inst c by (cases r) (auto simp: AskInstallDevice_def the_install_def cmd_Output_def)
  obtain k where k: "n = Inr k" and cfg': "cfg' = set_k3os (Install_update (\<lambda>_. Some (i\<lparr>Device := ''/dev/'' @ ?disks ! k\<rparr>))) cfg"
    using run inst c q r by (cases n) (auto simp: AskInstallDevice_def the_install_def cmd_Output_def Let_def)
  have "k < length ?disks" using q k by (intro quiz_range) simp
  then have "?disks ! k \<in> set ?disks" by (rule nth_mem)
  then show ?thesis using cfg' by auto
qed

theorem AskInstallDevice_offered_witness:
  "\<exists>w' cfg'. run_state (AskInstallDevice (\<lambda>_ _. ''sda'') initialConfig) (calm_world []) = (Inr cfg', w')
     \<and> map_option Device (Install (K3OS cfg')) = Some ''/dev/sda''"
proof -
  have i: "Install (K3OS initialConfig) = Some emptyInstall" "Device emptyInstall = []"
    by (simp_all add: initialConfig_def emptyInstall_def)
  have f: "Fields ''sda'' = [''sda'']" by code_simp
  have "is_ok (fst (run_state (AskInstallDevice (\<lambda>_ _. ''sda'') initialConfig) (calm_world [])))"
    by (simp add: AskInstallDevice_def the_install_def i(1) i(2) cmd_Output_def cmd_Run_def quiz_def f
        PromptFormattedOptions_def PromptOptions_def calm_world_def Let_def del: Fields.simps)
  then obtain cfg' w' where r: "run_state (AskInstallDevice (\<lambda>_ _. ''sda'') initialConfig) (calm_world []) = (Inr cfg', w')"
    by (metis is_ok_iff prod.collapse)
  with AskInstallDevice_offered [OF i r] show ?thesis by (auto simp: f simp del: Fields.simps)
qed

section \<open>The networks\<close>

text \<open>
  C38. The loop of \<open>AskWifi\<close> ends: each network it adds has used up at least three bytes or chunks of the
  input.
\<close>

theorem ask_networks_ends:
  "ask_networks ws inp = (Inr ws', inp', out) \<Longrightarrow>
   \<exists>vs. ws' = ws @ vs \<and> 3 * length vs + input_size inp' \<le> input_size inp"
proof (induction ws inp arbitrary: out rule: ask_networks.induct)
  case (1 ws inp)
  note step = "1.prems" [unfolded ask_networks.simps [of ws inp] Let_def]
  obtain name inp1 out1 where p1: "Prompt ''WiFi Name: '' [] inp = (Inr name, inp1, out1)"
    using step by (auto split: prod.splits sum.splits)
  obtain pass inp2 out2 where p2: "Prompt ''WiFi Passphrase: '' [] inp1 = (Inr pass, inp2, out2)"
    using step p1 by (auto split: prod.splits sum.splits)
  obtain k inp3 out3 where p3: "PromptBool ''Configure another WiFi network?'' False inp2 = (Inr k, inp3, out3)"
    using step p1 p2 by (auto split: prod.splits sum.splits)
  let ?v = "\<lparr>Wifi_Name = name, Passphrase = pass\<rparr>"
  have s: "input_size inp1 < input_size inp" "input_size inp2 < input_size inp1" "input_size inp3 < input_size inp2"
    using p1 p2 p3 by (auto dest: Prompt_shorter ask_bool_shorter simp: PromptBool_def)
  show ?case
  proof (cases k)
    case False
    then have "ws' = ws @ [?v]" "inp' = inp3" using step p1 p2 p3 by auto
    then show ?thesis using s by auto
  next
    case True
    then obtain out' where r: "ask_networks (ws @ [?v]) inp3 = (Inr ws', inp', out')"
      using step p1 p2 p3 by (auto split: prod.splits)
    then obtain vs where vs: "ws' = (ws @ [?v]) @ vs" "3 * length vs + input_size inp' \<le> input_size inp3"
      using "1.IH" [OF p1 [symmetric] refl refl p2 [symmetric] refl refl refl p3 [symmetric] refl refl] True by blast
    then show ?thesis using s by (intro exI [of _ "?v # vs"]) simp
  qed
qed

theorem ask_networks_ends_witness:
  "\<exists>ws' inp' out. ask_networks [] (terminal_lines [''net'', ''secret'', ''n'']) = (Inr ws', inp', out)
     \<and> 3 * length ws' \<le> input_size (terminal_lines [''net'', ''secret'', ''n''])"
proof -
  have t: "TrimSpace ''net'' = ''net''" "TrimSpace ''secret'' = ''secret''" "TrimSpace ''n'' = ''n''" "ToLower ''n'' = ''n''"
    by code_simp+
  have a: "Prompt msg d ((''net'' @ [newline]) # inp) = (Inr ''net'', inp, msg)"
    "Prompt msg d ((''secret'' @ [newline]) # inp) = (Inr ''secret'', inp, msg)"
    "Prompt msg d ((''n'' @ [newline]) # inp) = (Inr ''n'', inp, msg)" for msg d inp
    using Prompt_answer [of "''net''"] Prompt_answer [of "''secret''"] Prompt_answer [of "''n''"] t by simp_all
  obtain ws' inp' out where r: "ask_networks [] (terminal_lines [''net'', ''secret'', ''n'']) = (Inr ws', inp', out)"
    using a t(4) by (simp add: terminal_lines_def ask_networks.simps PromptBool_def ask_bool.simps)
  with ask_networks_ends [OF r] show ?thesis by auto
qed

section \<open>The password\<close>

abbreviation shadow_path :: path where "shadow_path \<equiv> [''etc'', ''shadow'']"

lemma etc_shadow_abs: "etc_shadow = abs_path shadow_path"
  by (simp add: etc_shadow_def abs_path_def)

lemma read_encrypted_fs:
  "wp (read_encrypted cfg) (\<lambda>_ v. w_fs v = w_fs w \<and> w_fault v = w_fault w) w"
  unfolding read_encrypted_def wp_bind
  by (rule wp_os_Open) (auto simp: wp_deferred wp_fd_Close split_def intro!: wp_fd_ReadAll wp_fd_Close)

text \<open>
  C24. Encrypting the password with \<open>chpasswd\<close> leaves the passwords of the running system as they were: without
  failing calls \<open>/etc/shadow\<close> ends with the bytes it began with, whatever \<open>chpasswd\<close> wrote and whether or not
  it failed, and no other file changes but by \<open>chpasswd\<close>.
\<close>

theorem encrypt_password_restores:
  assumes ff: "fault_free w" and old: "file_is shadow_path b w"
    and exec: "writable (snd (w_exec w (chpasswd_rancher pass) (w_fs w))) shadow_path"
    and run: "run_state (encrypt_password pass cfg) w = (r, w')"
  shows "file_is shadow_path b w' \<and> (\<forall>q. q \<noteq> shadow_path \<longrightarrow>
    fs_get (w_fs w') q = fs_get (snd (w_exec w (chpasswd_rancher pass) (w_fs w))) q)"
proof -
  let ?f = "snd (w_exec w (chpasswd_rancher pass) (w_fs w))"
  let ?Q = "\<lambda>(v :: world). file_is shadow_path b v \<and> (\<forall>q. q \<noteq> shadow_path \<longrightarrow> fs_get (w_fs v) q = fs_get ?f q)"
  have restore: "wp (os_WriteFile etc_shadow b 416) (\<lambda>_. ?Q) v" if "fault_free v" "w_fs v = ?f" for v
    unfolding etc_shadow_abs
    by (rule wp_os_WriteFile_calm) (use that exec in \<open>auto simp: written_def\<close>)
  have "wp (do { r \<leftarrow> cmd_Run (chpasswd_rancher pass); onok r (\<lambda>_. read_encrypted cfg) })
      (\<lambda>_ v. fault_free v \<and> w_fs v = ?f) (tick w)"
  proof -
    obtain e f where x: "w_exec w (chpasswd_rancher pass) (w_fs w) = (e, f)" by fastforce
    let ?v = "(tick w)\<lparr>w_fs := f, w_trace := w_trace w @ [EvRun (chpasswd_rancher pass)]\<rparr>"
    have v: "fault_free ?v" using ff by (simp add: fault_free_def tick_def)
    have "wp (read_encrypted cfg) (\<lambda>_ v. fault_free v \<and> w_fs v = f) ?v"
      by (rule wp_mono [OF read_encrypted_fs]) (use v in \<open>simp add: fault_free_def\<close>)
    then show ?thesis using v x by (cases e) (simp_all add: cmd_Run_def tick_def)
  qed
  note body = this
  have "wp (encrypt_password pass cfg) (\<lambda>_. ?Q) w"
    unfolding encrypt_password_def wp_bind [of "os_ReadFile _"]
    by (simp add: os_ReadFile_calm [OF ff old, folded etc_shadow_abs] wp_def [of "os_ReadFile _"] wp_deferred del: wp_bind)
      (rule wp_mono [OF body], rule restore, simp_all)
  then show ?thesis using run by (auto dest: wpD)
qed

theorem encrypt_password_restores_witness:
  "file_is shadow_path ''rancher:*:1'' (snd (run_state (encrypt_password ''secret'' emptyConfig)
     ((calm_world (lone_file shadow_path ''rancher:*:1''))\<lparr>w_exec := \<lambda>c f. (None, fs_put shadow_path (mkfile ''rancher:$6$x:1'') f)\<rparr>)))"
proof -
  let ?f = "lone_file shadow_path ''rancher:*:1''"
  let ?w = "(calm_world ?f)\<lparr>w_exec := \<lambda>c f. (None, fs_put shadow_path (mkfile ''rancher:$6$x:1'') f)\<rparr>"
  have "file_is shadow_path ''rancher:*:1'' (calm_world ?f)" by (rule lone_file_is) code_simp+
  then have old: "file_is shadow_path ''rancher:*:1'' ?w" by (subst file_is_cong) simp_all
  have ff: "fault_free ?w" by (simp add: fault_free_def)
  have wr: "writable (fs_put shadow_path (mkfile ''rancher:$6$x:1'') ?f) shadow_path"
    by (auto simp: writable_def direct_def lone_file_def mkfile_def mkdir_inode_def is_dir_def plain_def less_Suc_eq)
  obtain r w' where run: "run_state (encrypt_password ''secret'' emptyConfig) ?w = (r, w')" by fastforce
  show ?thesis using encrypt_password_restores [OF ff old _ run] wr run by simp
qed

section \<open>The saved configuration\<close>

text \<open>
  C23. The configuration the answers gave is the one the system has from then on: when no call fails, saving it
  runs the command that applies it, once, and the system configuration read afterwards is that configuration;
  provided the command leaves the file alone, the YAML package reads what it has printed, and the configuration is
  \<open>config_ok\<close>: every text is UTF-8, and in the maps the user gives (\<open>sysctls\<close>, \<open>labels\<close>, \<open>environment\<close>) no key has a
  capital and no value white space at its ends. An environment variable \<^verbatim>\<open>HTTP_PROXY\<close> is outside: the writer
  renames its key (\<open>environment_keys_renamed\<close>).
\<close>

theorem save_config_read_back:
  assumes ff: "fault_free w" and wr: "writable (w_fs w) system_path" and ok: "config_ok cfg"
    and yaml: "ToBytes marshal cfg = Inr bytes"
      "unmarshal bytes = Inr (toYAMLKeys (EncodeToMap (cfg\<lparr>K3OS := (K3OS cfg)\<lparr>Install := None\<rparr>\<rparr>)))"
    and exec: "\<And>v. file_is system_path bytes v \<Longrightarrow>
      file_is system_path bytes (v\<lparr>w_fs := snd (w_exec w (apply_command arg0) (w_fs v))\<rparr>)"
    and run: "run_state (save_config arg0 bytes) w = (r, w')"
  shows "runs w w' = [apply_command arg0]
    \<and> fst (run_state (readersToObject [readSystemConfig unmarshal]) w')
      = (cfg\<lparr>K3OS := (K3OS cfg)\<lparr>Install := Some emptyInstall\<rparr>\<rparr>, None)"
proof -
  obtain i where op: "run_state (os_Create SystemConfig) w
      = (Inr system_path, (tick w)\<lparr>w_fs := fs_put system_path (i\<lparr>i_kind := KReg []\<rparr>) (w_fs w)\<rparr>)"
    unfolding os_Create_def SystemConfig_abs using os_OpenTrunc_calm [OF ff wr] by metis
  let ?v = "tick (tick ((tick w)\<lparr>w_fs := append_file system_path bytes (fs_put system_path (i\<lparr>i_kind := KReg []\<rparr>) (w_fs w))\<rparr>))"
  have v: "written w system_path bytes ?v" by (rule written_append [OF ff wr])
  have "run_state (save_config arg0 bytes) w = run_state (runCCApply arg0) ?v"
    using ff op by (cases w) (simp add: save_config_def write_calls)
  then have w': "run_state (runCCApply arg0) ?v = (r, w')" using run by simp
  let ?f = "snd (w_exec w (apply_command arg0) (w_fs ?v))"
  have fs: "w_fs w' = ?f" "w_trace w' = w_trace w @ [EvRun (apply_command arg0)]" "fault_free w'"
    using w' ff by (auto simp: runCCApply_def apply_command_def cmd_Run_def tick_def fault_free_def split: prod.splits)
  have "file_is system_path bytes (?v\<lparr>w_fs := ?f\<rparr>)" using v exec by (simp only: written_def)
  then have "file_is system_path bytes w'" by (subst file_is_cong [of _ "?v\<lparr>w_fs := ?f\<rparr>"]) (simp_all add: fs)
  then have "run_state (os_ReadFile SystemConfig) w' = (Inr bytes, tick w')"
    unfolding SystemConfig_abs using fs(3) by (intro os_ReadFile_calm)
  then show ?thesis
    using written_file_read [of cfg unmarshal bytes SystemConfig, OF ok yaml(2)] fs(2)
    by (simp add: readSystemConfig_def runs_one)
qed

theorem save_config_read_back_witness:
  "runs (calm_world (lone_file system_path [])) (snd (run_state (save_config ''k3os'' ''yaml'') (calm_world (lone_file system_path []))))
     = [apply_command ''k3os'']"
proof -
  let ?w = "calm_world (lone_file system_path [])"
  let ?c = "emptyConfig\<lparr>Hostname := ''node''\<rparr>"
  let ?d = "toYAMLKeys (EncodeToMap ?c)"
  have "file_is system_path [] ?w" by (rule lone_file_is) (unfold system_path_def, code_simp+)
  then have wr: "writable (w_fs ?w) system_path" by (rule file_is_writable)
  have ok: "config_ok ?c" by code_simp
  have c: "?c\<lparr>K3OS := (K3OS ?c)\<lparr>Install := None\<rparr>\<rparr> = ?c" by (simp add: emptyConfig_def emptyK3OS_def)
  have y: "ToBytes (\<lambda>_. Inr ''yaml'') ?c = Inr ''yaml''" by (simp add: ToBytes_def)
  obtain r w' where run: "run_state (save_config ''k3os'' ''yaml'') ?w = (r, w')" by fastforce
  have "file_is system_path b v \<Longrightarrow> file_is system_path b (v\<lparr>w_fs := snd (w_exec ?w (apply_command ''k3os'') (w_fs v))\<rparr>)" for b v
    by (simp add: calm_world_def)
  from save_config_read_back [OF _ wr ok y _ this run, of "\<lambda>_. Inr ?d"] show ?thesis
    using c run by simp
qed

section \<open>A configuration without installer options\<close>

text \<open>
  An empty \<open>install:\<close> in a configuration file replaces the options the readers start with by a nil pointer,
  which the questions dereference.
\<close>

lemma null_install:
  "Install (K3OS (fst (ToObj (UpdateMerge cloudConfig_schema []
     (ToInternal cloudConfig_schema [(''k3os'', GMap [(''install'', GNull)])])) initialConfig))) = None"
  by code_simp

lemma null_install_panics: "Install (K3OS cfg) = None \<Longrightarrow> run_state (AskInstall output t cfg) w = (Inl nil_pointer, w)"
  by (simp add: AskInstall_def the_install_def)

end
