(* ===== verification/GoCSV.thy ===== *)
theory GoCSV
  imports GoOS
begin

text \<open>
  Go's \<^verbatim>\<open>encoding/csv\<close> as \<^verbatim>\<open>rc\<close> uses it: a separator, no comments, no lazy quotes, a fixed number of
  fields per record.
\<close>

section \<open>Lines\<close>

text \<open>A line keeps its newline; a carriage return before it, or at the very end, is dropped.\<close>

definition csv_line :: "string \<Rightarrow> string" where
  "csv_line l =
     (if suffix [CHR 0x0D, newline] l then take (length l - 2) l @ [newline]
      else if l \<noteq> [] \<and> last l = CHR 0x0D then butlast l else l)"

function raw_csv_lines :: "string \<Rightarrow> string list" where
  "raw_csv_lines s =
     (if s = [] then []
      else case dropWhile (\<lambda>c. c \<noteq> newline) s of
        [] \<Rightarrow> [s]
      | _ # rest \<Rightarrow> (takeWhile (\<lambda>c. c \<noteq> newline) s @ [newline]) # raw_csv_lines rest)"
  by pat_completeness auto
termination
proof (relation "measure length", goal_cases)
  case (2 s c rest)
  then have "length (c # rest) \<le> length s" by (metis length_dropWhile_le)
  then show ?case by simp
qed simp

declare raw_csv_lines.simps [simp del]

definition csv_lines :: "string \<Rightarrow> string list" where
  "csv_lines s = map csv_line (raw_csv_lines s)"

section \<open>Records\<close>

abbreviation dquote :: char where "dquote \<equiv> CHR 0x22"

definition chop_newline :: "string \<Rightarrow> string" where
  "chop_newline l = (if l \<noteq> [] \<and> last l = newline then butlast l else l)"

lemma tl_dropWhile_shorter: "tl (dropWhile P l) \<noteq> [] \<Longrightarrow> length (tl (tl (dropWhile P l))) < length l"
proof -
  assume "tl (dropWhile P l) \<noteq> []"
  then have "length (tl (tl (dropWhile P l))) < length (dropWhile P l)" by (cases "dropWhile P l"; cases "tl (dropWhile P l)") auto
  then show ?thesis using length_dropWhile_le [of P l] by simp
qed

text \<open>
  One record from a line and the lines after it: outside of quotes (\<open>None\<close>) or inside, with what the
  quoted field has so far. The rest are the lines the record did not use.
\<close>

function csv_record :: "char \<Rightarrow> string option \<Rightarrow> string \<Rightarrow> string list \<Rightarrow> string list
    \<Rightarrow> goerror + string list \<times> string list" where
  "csv_record comma None line rest got =
     (if line \<noteq> [] \<and> hd line = dquote then csv_record comma (Some []) (tl line) rest got
      else if comma \<in> set line then
        (let field = takeWhile (\<lambda>c. c \<noteq> comma) line in
         if dquote \<in> set field then Inl (ErrMsg ''bare quote in non-quoted-field'')
         else csv_record comma None (tl (dropWhile (\<lambda>c. c \<noteq> comma) line)) rest (got @ [field]))
      else
        (let field = chop_newline line in
         if dquote \<in> set field then Inl (ErrMsg ''bare quote in non-quoted-field'')
         else Inr (got @ [field], rest)))"
| "csv_record comma (Some acc) line rest got =
     (if dquote \<in> set line then
        (let acc' = acc @ takeWhile (\<lambda>c. c \<noteq> dquote) line; line' = tl (dropWhile (\<lambda>c. c \<noteq> dquote) line) in
         if line' \<noteq> [] \<and> hd line' = dquote then csv_record comma (Some (acc' @ [dquote])) (tl line') rest got
         else if line' \<noteq> [] \<and> hd line' = comma then csv_record comma None (tl line') rest (got @ [acc'])
         else if line' = [] \<or> line' = [newline] then Inr (got @ [acc'], rest)
         else Inl (ErrMsg ''extraneous or missing quote in quoted-field''))
      else if line \<noteq> [] then
        csv_record comma (Some (acc @ line)) (case rest of [] \<Rightarrow> [] | l # _ \<Rightarrow> l) (tl rest) got
      else Inl (ErrMsg ''extraneous or missing quote in quoted-field''))"
  by pat_completeness auto
termination
proof (relation "measure (\<lambda>(_, q, line, rest, _). length line + sum_list (map length rest))", goal_cases)
  case (3 comma line rest got field)
  then have "line \<noteq> []" by auto
  moreover have "length (dropWhile (\<lambda>c. c \<noteq> comma) line) \<le> length line" by (rule length_dropWhile_le)
  ultimately show ?case by (cases line) auto
next
  case (4 comma acc line rest got acc' line')
  then show ?case using tl_dropWhile_shorter [of "\<lambda>c. c \<noteq> dquote" line] by auto
next
  case (5 comma acc line rest got acc' line')
  then show ?case using tl_dropWhile_shorter [of "\<lambda>c. c \<noteq> dquote" line] by auto
next
  case (6 comma acc line rest got)
  then show ?case by (cases rest; cases line) auto
qed (auto simp: neq_Nil_conv)

declare csv_record.simps [simp del]

lemma csv_record_rest: "csv_record comma q line rest got = Inr (fs, rest') \<Longrightarrow> length rest' \<le> length rest"
proof (induction comma q line rest got rule: csv_record.induct)
  case (1 comma line rest got)
  then show ?case by (subst (asm) csv_record.simps) (auto simp: Let_def split: if_splits)
next
  case (2 comma acc line rest got)
  then show ?case
    by (subst (asm) (2) csv_record.simps) (force simp: Let_def split: if_splits)
qed

text \<open>All the records; empty lines between them are skipped.\<close>

function csv_records :: "char \<Rightarrow> nat \<Rightarrow> string list \<Rightarrow> goerror + string list list" where
  "csv_records comma n [] = Inr []"
| "csv_records comma n (l # ls) =
     (if l = [] \<or> l = [newline] then csv_records comma n ls
      else case csv_record comma None l ls [] of
        Inl e \<Rightarrow> Inl e
      | Inr (fs, rest) \<Rightarrow>
         if length fs \<noteq> n then Inl (ErrMsg ''wrong number of got'')
         else (case csv_records comma n rest of Inl e \<Rightarrow> Inl e | Inr rs \<Rightarrow> Inr (fs # rs)))"
  by pat_completeness auto
termination
  by (relation "measure (\<lambda>(_, _, ls). length ls)") (auto dest: csv_record_rest intro: le_imp_less_Suc)

definition csv_ReadAll :: "char \<Rightarrow> nat \<Rightarrow> string \<Rightarrow> goerror + string list list" where
  "csv_ReadAll comma n content = csv_records comma n (csv_lines content)"

section \<open>Plain tables\<close>

text \<open>A table whose fields hold neither quotes nor separators nor ends of lines reads back.\<close>

definition plain_field :: "char \<Rightarrow> string \<Rightarrow> bool" where
  "plain_field comma f = (comma \<notin> set f \<and> dquote \<notin> set f \<and> newline \<notin> set f \<and> CHR 0x0D \<notin> set f)"

definition table_row :: "char \<Rightarrow> string list \<Rightarrow> string" where
  "table_row comma row = Join row [comma] @ [newline]"

lemma raw_csv_lines_rows:
  "\<forall>r \<in> set rows. newline \<notin> set r \<Longrightarrow>
   raw_csv_lines (concat (map (\<lambda>r. r @ [newline]) rows)) = map (\<lambda>r. r @ [newline]) rows"
proof (induction rows)
  case (Cons r rows)
  have "dropWhile (\<lambda>c. c \<noteq> newline) (r @ newline # s) = newline # s" "takeWhile (\<lambda>c. c \<noteq> newline) (r @ newline # s) = r" for s
    using Cons.prems by (auto simp: dropWhile_append3 takeWhile_append intro!: takeWhile_eq_all_conv [THEN iffD2])
  then show ?case using Cons by (simp add: raw_csv_lines.simps [of "r @ _"])
qed (simp add: raw_csv_lines.simps)

lemma csv_lines_rows:
  assumes "\<forall>r \<in> set rows. newline \<notin> set r \<and> CHR 0x0D \<notin> set r"
  shows "csv_lines (concat (map (\<lambda>r. r @ [newline]) rows)) = map (\<lambda>r. r @ [newline]) rows"
proof -
  have "csv_line (r @ [newline]) = r @ [newline]" if "r \<in> set rows" for r
    using assms that by (auto simp: csv_line_def suffix_def append_eq_append_conv2 append_eq_Cons_conv)
  then show ?thesis using raw_csv_lines_rows [of rows] assms by (simp add: csv_lines_def)
qed

lemma csv_record_row:
  "\<forall>f \<in> set row. plain_field comma f \<Longrightarrow> comma \<noteq> newline \<Longrightarrow> comma \<noteq> dquote \<Longrightarrow> row \<noteq> [] \<Longrightarrow>
   csv_record comma None (table_row comma row) rest got = Inr (got @ row, rest)"
proof (induction row arbitrary: got)
  case (Cons f row)
  have f: "comma \<notin> set f" "dquote \<notin> set f" "newline \<notin> set f" using Cons.prems(1) by (auto simp: plain_field_def)
  have h: "hd (f @ c # s) \<noteq> dquote" if "c \<noteq> dquote" for c s using f(2) that by (cases f) auto
  show ?case
  proof (cases row)
    case Nil
    have "comma \<notin> set (f @ [newline])" using f Cons.prems(2) by auto
    then show ?thesis using h [of newline] f Nil
      by (simp add: table_row_def chop_newline_def csv_record.simps(1) [of comma "f @ [newline]"])
  next
    case (Cons g row')
    have j: "table_row comma (f # row) = f @ comma # table_row comma row" by (simp add: table_row_def Cons)
    have "takeWhile (\<lambda>c. c \<noteq> comma) (f @ comma # s) = f" "dropWhile (\<lambda>c. c \<noteq> comma) (f @ comma # s) = comma # s" for s
      using f by (auto simp: dropWhile_append3 takeWhile_append intro!: takeWhile_eq_all_conv [THEN iffD2])
    then have "csv_record comma None (table_row comma (f # row)) rest got = csv_record comma None (table_row comma row) rest (got @ [f])"
      unfolding j using h [of comma] f Cons.prems(3) by (subst csv_record.simps(1)) (simp add: Let_def)
    then show ?thesis using Cons.IH [of "got @ [f]"] Cons.prems Cons by simp
  qed
qed simp

lemma csv_ReadAll_table:
  assumes "\<forall>row \<in> set rows. length row = n \<and> (\<forall>f \<in> set row. plain_field comma f)"
    and "comma \<noteq> newline" "comma \<noteq> dquote" "1 < n" and comma: "comma \<noteq> CHR 0x0D"
  shows "csv_ReadAll comma n (concat (map (table_row comma) rows)) = Inr rows"
proof -
  have "newline \<notin> set (Join row [comma]) \<and> CHR 0x0D \<notin> set (Join row [comma])" if "row \<in> set rows" for row
    using set_Join [of row "[comma]"] assms(1,2) comma that by (fastforce simp: plain_field_def)
  then have l: "csv_lines (concat (map (table_row comma) rows)) = map (table_row comma) rows"
    using csv_lines_rows [of "map (\<lambda>row. Join row [comma]) rows"] by (simp add: comp_def table_row_def [abs_def])
  have "csv_records comma n (map (table_row comma) rows) = Inr rows"
    using assms(1)
  proof (induction rows)
    case (Cons row rows)
    have "row \<noteq> []" "length row = n" using Cons.prems assms(4) by auto
    moreover have "table_row comma row \<noteq> [newline]" 
      using calculation assms(4) by (cases row; cases "tl row") (auto simp: table_row_def)
    ultimately show ?case using Cons csv_record_row [of row comma] assms(2,3)
      by (simp add: table_row_def)
  qed simp
  then show ?thesis by (simp add: csv_ReadAll_def l)
qed

end
