(* ===== verification/RC.thy ===== *)
theory RC
  imports GoCSV Traces
begin

text \<open>
  \<^verbatim>\<open>pkg/cli/rc/rc.go\<close>: the early phase of the boot. Every step is tried, and a step that fails is logged or
  passed over; nothing stops the sequence.
\<close>

section \<open>Calls that only warn\<close>

text \<open>\<^verbatim>\<open>log.Printf\<close> of a failed call, and going on.\<close>

definition warn :: "string \<Rightarrow> goerror + 'a \<Rightarrow> (world, unit) state" where
  "warn msg r = (case r of Inl e \<Rightarrow> emit (EvLog (ErrWrap msg e)) | Inr _ \<Rightarrow> State_Monad.return ())"

definition rc_mkdir :: "string \<Rightarrow> filemode \<Rightarrow> (world, unit) state" where
  "rc_mkdir path perm = do { r \<leftarrow> os_MkdirAll path perm; warn (''error making directory '' @ path) r }"

definition unix_Mount :: "string \<Rightarrow> string \<Rightarrow> string \<Rightarrow> 64 word \<Rightarrow> string \<Rightarrow> unit os" where
  "unix_Mount source target fstype flags data =
     sys_mount \<lparr>m_source = source, m_target = target, m_fstype = fstype, m_flags = flags, m_data = data\<rparr>"

definition rc_mount :: "string \<Rightarrow> string \<Rightarrow> string \<Rightarrow> 64 word \<Rightarrow> string \<Rightarrow> (world, unit) state" where
  "rc_mount source target fstype flags data = do {
     _ \<leftarrow> rc_mkdir target 493;
     r \<leftarrow> unix_Mount source target fstype flags data;
     warn (''error mounting '' @ source @ '' to '' @ target) r }"

definition mountSilent :: "string \<Rightarrow> string \<Rightarrow> string \<Rightarrow> 64 word \<Rightarrow> string \<Rightarrow> (world, unit) state" where
  "mountSilent source target fstype flags data = do {
     _ \<leftarrow> unix_Mount source target fstype flags data;
     State_Monad.return () }"

definition mkchar :: "string \<Rightarrow> filemode \<Rightarrow> 32 word \<Rightarrow> 32 word \<Rightarrow> (world, unit) state" where
  "mkchar path mode major minor = do {
     r \<leftarrow> os_Mknod path mode (Mkdev major minor);
     if r = Inl (Errno EEXIST) then State_Monad.return () else warn (''error making device '' @ path) r }"

definition rc_symlink :: "string \<Rightarrow> string \<Rightarrow> (world, unit) state" where
  "rc_symlink oldpath newpath = do { _ \<leftarrow> os_Symlink oldpath newpath; State_Monad.return () }"

definition rc_write :: "string \<Rightarrow> string \<Rightarrow> (world, unit) state" where
  "rc_write path val = do { r \<leftarrow> os_WriteFile path val 384; warn (''cannot write to '' @ path) r }"

definition rc_read :: "string \<Rightarrow> (world, string) state" where
  "rc_read path = do {
     data \<leftarrow> os_ReadFile path;
     State_Monad.return (case data of Inl _ \<Rightarrow> [] | Inr b \<Rightarrow> TrimSpace b) }"

definition rc_readdir :: "string \<Rightarrow> (world, string list) state" where
  "rc_readdir path = do {
     files \<leftarrow> os_ReadDirInfo path;
     (case files of
        Inl e \<Rightarrow> do { _ \<leftarrow> emit (EvLog (ErrWrap (''cannot read directory '' @ path) e)); State_Monad.return [] }
      | Inr fs \<Rightarrow> State_Monad.return (map fi_name fs)) }"

definition rc_exists :: "string \<Rightarrow> (world, bool) state" where
  "rc_exists path = do { r \<leftarrow> os_Stat path; State_Monad.return (is_ok r) }"

definition modalias :: "string \<Rightarrow> (world, unit) state" where
  "modalias path = do {
     alias \<leftarrow> rc_read path;
     _ \<leftarrow> cmd_Run (Command ''/sbin/modprobe'' [''-abq'', alias]);
     State_Monad.return () }"

text \<open>
  The enabled control groups. A read that fails in the middle is the error, whatever the part of the
  table that was read holds.
\<close>

definition enabled_cgroups :: "string list list \<Rightarrow> string list" where
  "enabled_cgroups cgroups = map (\<lambda>cg. cg ! 0) (filter (\<lambda>cg. cg ! 3 = ''1'') cgroups)"

definition cgroupList :: "(world, string list) state" where
  "cgroupList = do {
     f \<leftarrow> os_Open ''/proc/cgroups'';
     (case f of
        Inl e \<Rightarrow> do { _ \<leftarrow> emit (EvLog (ErrWrap ''cannot open /proc/cgroups'' e)); State_Monad.return [] }
      | Inr f \<Rightarrow> deferred (fd_Close f) (do {
          (content, err) \<leftarrow> fd_ReadAll f;
          (case (case err of Some e \<Rightarrow> Inl e | None \<Rightarrow> csv_ReadAll (CHR 0x09) 4 content) of
             Inl e \<Rightarrow> do { _ \<leftarrow> emit (EvLog (ErrWrap ''cannot parse /proc/cgroups'' e)); State_Monad.return [] }
           | Inr cgroups \<Rightarrow> State_Monad.return (enabled_cgroups cgroups)) })) }"

section \<open>Patterns of file names\<close>

text \<open>
  \<^verbatim>\<open>filepath.Match\<close> and \<open>Glob\<close> for absolute clean patterns whose only special character is the star,
  as the pattern of the program is. The elements come last first.
\<close>

fun glob_match :: "string \<Rightarrow> string \<Rightarrow> bool" where
  "glob_match [] s = (s = [])"
| "glob_match (p # ps) [] = (p = CHR ''*'' \<and> glob_match ps [])"
| "glob_match (p # ps) (c # cs) =
     (if p = CHR ''*'' then glob_match ps (c # cs) \<or> (c \<noteq> slash \<and> glob_match (p # ps) cs)
      else p = c \<and> glob_match ps cs)"

definition glob_dir :: "string \<Rightarrow> string \<Rightarrow> (world, string list) state" where
  "glob_dir dir pattern = do {
     fi \<leftarrow> os_Stat dir;
     if (case fi of Inr i \<Rightarrow> IsDir i | Inl _ \<Rightarrow> False)
     then do {
       d \<leftarrow> os_Open dir;
       (case d of
          Inl _ \<Rightarrow> State_Monad.return []
        | Inr d \<Rightarrow> deferred (fd_Close d) (do {
            names \<leftarrow> os_ReadDir dir;
            State_Monad.return (map (\<lambda>n. path_Join [dir, n])
              (filter (glob_match pattern) (case names of Inr ns \<Rightarrow> ns | Inl _ \<Rightarrow> []))) })) }
     else State_Monad.return [] }"

primrec glob_dirs :: "string list \<Rightarrow> string \<Rightarrow> (world, string list) state" where
  "glob_dirs [] pattern = State_Monad.return []"
| "glob_dirs (d # ds) pattern = do {
     ms \<leftarrow> glob_dir d pattern;
     rest \<leftarrow> glob_dirs ds pattern;
     State_Monad.return (ms @ rest) }"

text \<open>The error of \<open>Glob\<close> is a malformed pattern; none with stars alone is.\<close>

primrec Glob :: "string list \<Rightarrow> (string list) os" where
  "Glob [] = State_Monad.return (Inr [''/''])"
| "Glob (file # dirs) =
     (let dir = slash # Join (rev dirs) [slash] in
      if CHR ''*'' \<notin> set dir \<and> CHR ''*'' \<notin> set file then do {
        r \<leftarrow> os_Lstat (path_Join [dir, file]);
        State_Monad.return (Inr (if is_ok r then [path_Join [dir, file]] else [])) }
      else if CHR ''*'' \<notin> set dir then do {
        ms \<leftarrow> glob_dir dir file;
        State_Monad.return (Inr ms) }
      else do {
        ds \<leftarrow> Glob dirs;
        onok ds (\<lambda>ds. do {
          ms \<leftarrow> glob_dirs ds file;
          State_Monad.return (Inr ms) }) })"

definition rc_glob :: "string list \<Rightarrow> (world, string list) state" where
  "rc_glob pattern = do {
     files \<leftarrow> Glob pattern;
     (case files of
        Inl e \<Rightarrow> do { _ \<leftarrow> emit (EvLog (ErrWrap ''error in glob'' e)); State_Monad.return [] }
      | Inr fs \<Rightarrow> State_Monad.return fs) }"

section \<open>Mounts\<close>

primrec run_all :: "(world, unit) state list \<Rightarrow> (world, unit) state" where
  "run_all [] = State_Monad.return ()"
| "run_all (m # ms) = do { _ \<leftarrow> m; run_all ms }"

definition mount_cgroup :: "string \<Rightarrow> (world, unit) state" where
  "mount_cgroup cg =
     (let path = path_Join [''/sys/fs/cgroup'', cg] in
      do {
        _ \<leftarrow> rc_mkdir path 365;
        rc_mount cg path ''cgroup'' (MS_NOEXEC OR MS_NOSUID OR MS_NODEV) cg })"

definition steps_before :: "(world, unit) state list" where
  "steps_before =
    [mountSilent ''proc'' ''/proc'' ''proc'' (MS_NODEV OR MS_NOSUID OR MS_NOEXEC OR MS_RELATIME) [],
     rc_mount ''tmpfs'' ''/run'' ''tmpfs'' (MS_NODEV OR MS_NOSUID OR MS_NOEXEC OR MS_RELATIME) ''size=10%,mode=755'',
     rc_mount ''tmpfs'' ''/tmp'' ''tmpfs'' (MS_NODEV OR MS_NOSUID OR MS_NOEXEC OR MS_RELATIME) ''size=10%,mode=1777'',
     rc_mkdir ''/var/cache'' 493, rc_mkdir ''/var/empty'' 365, rc_mkdir ''/var/lib'' 493,
     rc_mkdir ''/var/local/bin'' 493, rc_mkdir ''/var/lock'' 493, rc_mkdir ''/var/log'' 493,
     rc_mkdir ''/var/opt'' 493, rc_mkdir ''/var/spool'' 493, rc_mkdir ''/var/tmp'' 1023, rc_mkdir ''/home'' 493,
     rc_symlink ''/run'' ''/var/run'',
     rc_mount ''dev'' ''/dev'' ''devtmpfs'' (MS_NOSUID OR MS_NOEXEC OR MS_RELATIME)
       ''size=10m,nr_inodes=248418,mode=755'',
     mkchar ''/dev/console'' 384 5 1, mkchar ''/dev/tty1'' 400 4 1, mkchar ''/dev/tty'' 438 5 0,
     mkchar ''/dev/null'' 438 1 3, mkchar ''/dev/kmsg'' 432 1 11,
     rc_symlink ''/proc/self/fd'' ''/dev/fd'', rc_symlink ''/proc/self/fd/0'' ''/dev/stdin'',
     rc_symlink ''/proc/self/fd/1'' ''/dev/stdout'', rc_symlink ''/proc/self/fd/2'' ''/dev/stderr'',
     rc_symlink ''/proc/kcore'' ''/dev/kcore'',
     rc_mkdir ''/dev/mqueue'' 1023, rc_mkdir ''/dev/shm'' 1023, rc_mkdir ''/dev/pts'' 493,
     rc_mount ''mqueue'' ''/dev/mqueue'' ''mqueue'' (MS_NOEXEC OR MS_NOSUID OR MS_NODEV) [],
     rc_mount ''shm'' ''/dev/shm'' ''tmpfs'' (MS_NOEXEC OR MS_NOSUID OR MS_NODEV) ''mode=1777'',
     rc_mount ''devpts'' ''/dev/pts'' ''devpts'' (MS_NOEXEC OR MS_NOSUID) ''gid=5,mode=0620'',
     rc_mount ''sysfs'' ''/sys'' ''sysfs'' (MS_NOEXEC OR MS_NOSUID OR MS_NODEV) [],
     mountSilent ''securityfs'' ''/sys/kernel/security'' ''securityfs'' (MS_NOEXEC OR MS_NOSUID OR MS_NODEV) [],
     mountSilent ''debugfs'' ''/sys/kernel/debug'' ''debugfs'' (MS_NOEXEC OR MS_NOSUID OR MS_NODEV) [],
     mountSilent ''configfs'' ''/sys/kernel/config'' ''configfs'' (MS_NOEXEC OR MS_NOSUID OR MS_NODEV) [],
     mountSilent ''fusectl'' ''/sys/fs/fuse/connections'' ''fusectl'' (MS_NOEXEC OR MS_NOSUID OR MS_NODEV) [],
     mountSilent ''selinuxfs'' ''/sys/fs/selinux'' ''selinuxfs'' (MS_NOEXEC OR MS_NOSUID) [],
     mountSilent ''pstore'' ''/sys/fs/pstore'' ''pstore'' (MS_NOEXEC OR MS_NOSUID OR MS_NODEV) [],
     mountSilent ''efivarfs'' ''/sys/firmware/efi/efivars'' ''efivarfs'' (MS_NOEXEC OR MS_NOSUID OR MS_NODEV) [],
     mountSilent ''binfmt_misc'' ''/proc/sys/fs/binfmt_misc'' ''binfmt_misc'' (MS_NOEXEC OR MS_NOSUID OR MS_NODEV) [],
     rc_mount ''cgroup_root'' ''/sys/fs/cgroup'' ''tmpfs'' (MS_NODEV OR MS_NOEXEC OR MS_NOSUID) ''mode=755,size=10m'']"

definition steps_after :: "(world, unit) state list" where
  "steps_after =
    [rc_write ''/sys/fs/cgroup/memory/memory.use_hierarchy'' ''1'',
     rc_mkdir ''/sys/fs/cgroup/systemd'' 365,
     rc_mount ''cgroup'' ''/sys/fs/cgroup/systemd'' ''cgroup'' 0 ''none,name=systemd'',
     rc_mount [] ''/'' [] (MS_REC OR MS_SHARED) []]"

definition doMounts :: "(world, unit) state" where
  "doMounts = do {
     _ \<leftarrow> run_all steps_before;
     cgs \<leftarrow> cgroupList;
     _ \<leftarrow> run_all (map mount_cgroup cgs);
     run_all steps_after }"

section \<open>Devices, clock, network, name\<close>

primrec add_usb :: "string list \<Rightarrow> (world, unit) state" where
  "add_usb [] = State_Monad.return ()"
| "add_usb (f # fs) = do {
     let uevent = path_Join [''/sys/devices'', f, ''uevent''];
     e \<leftarrow> (if HasPrefix f ''usb'' then rc_exists uevent else State_Monad.return False);
     _ \<leftarrow> (if e then rc_write uevent ''add'' else State_Monad.return ());
     add_usb fs }"

definition doHotplug :: "(world, unit) state" where
  "doHotplug = do {
     _ \<leftarrow> rc_write ''/proc/sys/kernel/hotplug'' ''/usr/sbin/mdev'';
     files \<leftarrow> rc_readdir ''/sys/devices'';
     _ \<leftarrow> add_usb files;
     r \<leftarrow> cmd_Run (Command ''/usr/sbin/mdev'' [''-s'']);
     _ \<leftarrow> warn ''Failed to run /usr/sbin/mdev -s'' r;
     dfs \<leftarrow> rc_glob (rev [''sys'', ''bus'', ''*'', ''devices'', ''*'', ''modalias'']);
     run_all (map modalias dfs) }"

definition doClock :: "(world, unit) state" where
  "doClock = do {
     r \<leftarrow> cmd_Run (Command ''/sbin/hwclock'' [''--hctosys'', ''--utc'']);
     warn ''Failed to run hwclock'' r }"

definition doResolvConf :: "(world, unit) state" where
  "doResolvConf = do {
     link \<leftarrow> os_Readlink ''/etc/resolv.conf'';
     (case link of
        Inl _ \<Rightarrow> State_Monad.return ()
      | Inr link \<Rightarrow> do { _ \<leftarrow> rc_mkdir (path_Dir link) 493; rc_write link [] }) }"

definition doLoopback :: "(world, unit) state" where
  "doLoopback = do {
     _ \<leftarrow> cmd_Run (Command ''/sbin/ip'' [''addr'', ''add'', ''127.0.0.1/8'', ''dev'', ''lo'', ''brd'', ''+'', ''scope'', ''host'']);
     _ \<leftarrow> cmd_Run (Command ''/sbin/ip'' [''route'', ''add'', ''127.0.0.0/8'', ''dev'', ''lo'', ''scope'', ''host'']);
     _ \<leftarrow> cmd_Run (Command ''/sbin/ip'' [''link'', ''set'', ''lo'', ''up'']);
     State_Monad.return () }"

definition doHostname :: "(world, unit) state" where
  "doHostname = do {
     hostname \<leftarrow> rc_read ''/etc/hostname'';
     _ \<leftarrow> (if hostname \<noteq> [] then do { r \<leftarrow> sys_Sethostname hostname; warn ''Setting hostname failed'' r }
          else State_Monad.return ());
     h \<leftarrow> os_Hostname;
     (case h of
        Inl e \<Rightarrow> emit (EvLog (ErrWrap ''Cannot read hostname'' e))
      | Inr hostname \<Rightarrow>
         if hostname \<noteq> ''(none)'' \<and> hostname \<noteq> [] then State_Monad.return ()
         else do {
           mac \<leftarrow> rc_read ''/sys/class/net/eth0/address'';
           if mac = [] then State_Monad.return ()
           else do {
             r \<leftarrow> sys_Sethostname (''k3os-'' @ filter (\<lambda>c. c \<noteq> CHR '':'') mac);
             warn ''Setting hostname failed'' r } }) }"

text \<open>The command: root only, then every part in turn.\<close>

definition must_be_root :: "unit os" where
  "must_be_root = do {
     uid \<leftarrow> Getuid;
     State_Monad.return (if uid \<noteq> 0 then Inl (ErrMsg ''must be run as root'') else Inr ()) }"

definition rc_Action :: "(world, unit) state" where
  "rc_Action = run_all [doMounts, doHotplug, doClock, doLoopback, doHostname, doResolvConf]"

section \<open>The parts are programs\<close>

lemma program_warn [program_intros]: "program (warn msg r)"
  unfolding warn_def by (intro program_intros)

lemma program_rc_calls [program_intros]:
  "program (rc_mkdir p m)" "program (rc_mount s t f fl d)" "program (mountSilent s t f fl d)" "program (mkchar p m ma mi)"
  "program (rc_symlink a b)" "program (rc_write p v)" "program (rc_read p)" "program (rc_readdir p)" "program (rc_exists p)"
  "program (modalias p)" "program cgroupList" "program (glob_dir p pat)" "program must_be_root"
  unfolding rc_mount_def rc_mkdir_def unix_Mount_def mountSilent_def mkchar_def rc_symlink_def rc_write_def rc_read_def
    rc_readdir_def rc_exists_def modalias_def cgroupList_def glob_dir_def must_be_root_def
  by (intro program_intros)+

lemma program_glob_dirs [program_intros]: "program (glob_dirs ds pat)"
  by (induction ds) (auto intro!: program_intros)

lemma program_Glob [program_intros]: "program (Glob ps)"
  by (induction ps) (auto simp: Let_def intro!: program_intros)

lemma program_rc_glob [program_intros]: "program (rc_glob ps)"
  unfolding rc_glob_def by (intro program_intros)

lemma program_run_all [program_intros]: "(\<And>m. m \<in> set ms \<Longrightarrow> program m) \<Longrightarrow> program (run_all ms)"
  by (induction ms) (auto intro!: program_intros)

lemma program_add_usb [program_intros]: "program (add_usb fs)"
  by (induction fs) (auto simp: Let_def intro!: program_intros)

lemma program_mount_cgroup [program_intros]: "program (mount_cgroup cg)"
  unfolding mount_cgroup_def Let_def by (intro program_intros)

lemma program_parts [program_intros]:
  "program doMounts" "program doHotplug" "program doClock" "program doResolvConf" "program doLoopback" "program doHostname"
  unfolding doMounts_def steps_before_def steps_after_def doHotplug_def doClock_def doResolvConf_def doLoopback_def doHostname_def
  by (intro program_intros; (auto intro!: program_intros)[1])+

lemma program_rc_Action [program_intros]: "program rc_Action"
  unfolding rc_Action_def by (intro program_intros) (auto intro: program_parts)

end
