(* ===== verification/RCLaws.thy ===== *)
theory RCLaws
  imports RC
begin

text \<open>
  What the early phase promises: every mount is tried in its order whatever fails, the control groups
  are those the kernel has enabled, the name of the host is chosen from file, kernel and hardware.
\<close>

section \<open>The mounts\<close>

definition mounts_of :: "event list \<Rightarrow> mountreq list" where
  "mounts_of es = concat (map (\<lambda>ev. case ev of EvMount m \<Rightarrow> [m] | _ \<Rightarrow> []) es)"

lemma mounts_of_simps [simp]:
  "mounts_of [] = []" "mounts_of (EvMount m # es) = m # mounts_of es" "mounts_of (EvLog e # es) = mounts_of es"
  "mounts_of (es @ fs) = mounts_of es @ mounts_of fs"
  by (simp_all add: mounts_of_def)

text \<open>\<open>mounting ms m\<close>: every run of \<open>m\<close> tries the mounts \<open>ms\<close> in this order and otherwise only logs.\<close>

definition mount_or_log :: "event \<Rightarrow> bool" where
  "mount_or_log ev = (case ev of EvMount _ \<Rightarrow> True | EvLog _ \<Rightarrow> True | _ \<Rightarrow> False)"

definition is_log :: "event \<Rightarrow> bool" where
  "is_log ev = (case ev of EvLog _ \<Rightarrow> True | _ \<Rightarrow> False)"

lemma log_simps [simp]: "mount_or_log (EvMount m)" "mount_or_log (EvLog e)" "is_log (EvLog e)"
  by (simp_all add: mount_or_log_def is_log_def)

definition mounting :: "mountreq list \<Rightarrow> (world, 'a) state \<Rightarrow> bool" where
  "mounting ms m = (\<forall>w a w'. run_state m w = (a, w') \<longrightarrow>
     (\<exists>es. w_trace w' = w_trace w @ es \<and> mounts_of es = ms \<and> list_all mount_or_log es))"

lemma mountingD:
  assumes "mounting ms m" "run_state m w = (a, w')"
  obtains es where "w_trace w' = w_trace w @ es" "mounts_of es = ms" "list_all mount_or_log es"
  using assms unfolding mounting_def by blast

lemma mounting_logs: "emits is_log m \<Longrightarrow> mounting [] m"
  unfolding mounting_def
proof (intro allI impI)
  fix w a w'
  assume "emits is_log m" "run_state m w = (a, w')"
  then obtain es where es: "w_trace w' = w_trace w @ es" "list_all is_log es" by (rule emits_run)
  from es(2) have "mounts_of es = [] \<and> list_all mount_or_log es"
    by (induction es) (auto simp: is_log_def split: event.splits)
  then show "\<exists>es. w_trace w' = w_trace w @ es \<and> mounts_of es = [] \<and> list_all mount_or_log es" using es(1) by blast
qed

lemma mounting_bind:
  assumes "mounting ms m" "\<And>a. mounting ns (f a)"
  shows "mounting (ms @ ns) (State_Monad.bind m f)"
  unfolding mounting_def
proof (intro allI impI)
  fix w b w'
  assume r: "run_state (State_Monad.bind m f) w = (b, w')"
  obtain a v where m: "run_state m w = (a, v)" by fastforce
  obtain es where es: "w_trace v = w_trace w @ es" "mounts_of es = ms" "list_all mount_or_log es"
    by (rule mountingD [OF assms(1) m])
  have "run_state (f a) v = (b, w')" using r m by simp
  then obtain fs where fs: "w_trace w' = w_trace v @ fs" "mounts_of fs = ns" "list_all mount_or_log fs"
    by (rule mountingD [OF assms(2)])
  show "\<exists>es. w_trace w' = w_trace w @ es \<and> mounts_of es = ms @ ns \<and> list_all mount_or_log es"
    using es fs by (intro exI [of _ "es @ fs"]) simp
qed

lemma mounting_return: "mounting [] (State_Monad.return a)"
  by (rule mounting_logs) (rule emits_return)

lemma mounting_run_all:
  "list_all2 mounting mss ms \<Longrightarrow> mounting (concat mss) (run_all ms)"
proof (induction mss ms rule: list_all2_induct)
  case (Cons x xs y ys)
  then show ?case by (simp add: mounting_bind)
qed (simp add: mounting_return)

text \<open>The steps.\<close>

lemma emits_warn [emits_intros]: "(\<And>e. P (EvLog e)) \<Longrightarrow> emits P (warn msg r)"
  unfolding warn_def by (intro emits_intros) simp_all

lemma emits_rc_calls [emits_intros]:
  "emits is_log (rc_mkdir p m)" "emits is_log (mkchar p mo ma mi)" "emits is_log (rc_symlink a b)"
  "emits is_log (rc_write p v)" "emits is_log cgroupList"
  unfolding rc_mkdir_def mkchar_def rc_symlink_def rc_write_def cgroupList_def
  by (intro emits_intros; simp)+

definition request :: "string \<Rightarrow> string \<Rightarrow> string \<Rightarrow> 64 word \<Rightarrow> string \<Rightarrow> mountreq" where
  "request s t ty fl d = \<lparr>m_source = s, m_target = t, m_fstype = ty, m_flags = fl, m_data = d\<rparr>"

lemma mounting_unix_Mount: "mounting [request s t ty fl d] (unix_Mount s t ty fl d)"
  by (auto simp: mounting_def unix_Mount_def sys_mount_def request_def split: prod.splits option.splits)

lemma mounting_mountSilent: "mounting [request s t ty fl d] (mountSilent s t ty fl d)"
  using mounting_bind [OF mounting_unix_Mount mounting_return] by (simp add: mountSilent_def)

lemma mounting_rc_mount: "mounting [request s t ty fl d] (rc_mount s t ty fl d)"
  unfolding rc_mount_def
  using mounting_bind [OF mounting_logs [OF emits_rc_calls(1)]
      mounting_bind [OF mounting_unix_Mount mounting_logs [OF emits_warn]]] by simp

lemma mounting_quiet:
  "mounting [] (rc_mkdir p m)" "mounting [] (mkchar p mo ma mi)" "mounting [] (rc_symlink a b)"
  "mounting [] (rc_write p v)" "mounting [] cgroupList"
  by (intro mounting_logs emits_rc_calls)+

lemmas mounting_steps = mounting_mountSilent mounting_rc_mount mounting_quiet

definition cgroup_request :: "string \<Rightarrow> mountreq" where
  "cgroup_request cg = request cg (path_Join [''/sys/fs/cgroup'', cg]) ''cgroup'' (MS_NOEXEC OR MS_NOSUID OR MS_NODEV) cg"

lemma mounting_mount_cgroup: "mounting [cgroup_request cg] (mount_cgroup cg)"
  unfolding mount_cgroup_def Let_def cgroup_request_def
  using mounting_bind [OF mounting_quiet(1) mounting_rc_mount] by simp

lemma mounting_cgroups: "mounting (map cgroup_request cgs) (run_all (map mount_cgroup cgs))"
proof -
  have "mounting (concat (map (\<lambda>cg. [cgroup_request cg]) cgs)) (run_all (map mount_cgroup cgs))"
    by (rule mounting_run_all) (simp add: list.rel_map list.rel_refl mounting_mount_cgroup)
  then show ?thesis by simp
qed

text \<open>The mounts before the control groups and after them, with source, target, type, flags and options.\<close>

definition early_mounts :: "mountreq list" where
  "early_mounts =
    [request ''proc'' ''/proc'' ''proc'' (MS_NODEV OR MS_NOSUID OR MS_NOEXEC OR MS_RELATIME) [],
     request ''tmpfs'' ''/run'' ''tmpfs'' (MS_NODEV OR MS_NOSUID OR MS_NOEXEC OR MS_RELATIME) ''size=10%,mode=755'',
     request ''tmpfs'' ''/tmp'' ''tmpfs'' (MS_NODEV OR MS_NOSUID OR MS_NOEXEC OR MS_RELATIME) ''size=10%,mode=1777'',
     request ''dev'' ''/dev'' ''devtmpfs'' (MS_NOSUID OR MS_NOEXEC OR MS_RELATIME) ''size=10m,nr_inodes=248418,mode=755'',
     request ''mqueue'' ''/dev/mqueue'' ''mqueue'' (MS_NOEXEC OR MS_NOSUID OR MS_NODEV) [],
     request ''shm'' ''/dev/shm'' ''tmpfs'' (MS_NOEXEC OR MS_NOSUID OR MS_NODEV) ''mode=1777'',
     request ''devpts'' ''/dev/pts'' ''devpts'' (MS_NOEXEC OR MS_NOSUID) ''gid=5,mode=0620'',
     request ''sysfs'' ''/sys'' ''sysfs'' (MS_NOEXEC OR MS_NOSUID OR MS_NODEV) [],
     request ''securityfs'' ''/sys/kernel/security'' ''securityfs'' (MS_NOEXEC OR MS_NOSUID OR MS_NODEV) [],
     request ''debugfs'' ''/sys/kernel/debug'' ''debugfs'' (MS_NOEXEC OR MS_NOSUID OR MS_NODEV) [],
     request ''configfs'' ''/sys/kernel/config'' ''configfs'' (MS_NOEXEC OR MS_NOSUID OR MS_NODEV) [],
     request ''fusectl'' ''/sys/fs/fuse/connections'' ''fusectl'' (MS_NOEXEC OR MS_NOSUID OR MS_NODEV) [],
     request ''selinuxfs'' ''/sys/fs/selinux'' ''selinuxfs'' (MS_NOEXEC OR MS_NOSUID) [],
     request ''pstore'' ''/sys/fs/pstore'' ''pstore'' (MS_NOEXEC OR MS_NOSUID OR MS_NODEV) [],
     request ''efivarfs'' ''/sys/firmware/efi/efivars'' ''efivarfs'' (MS_NOEXEC OR MS_NOSUID OR MS_NODEV) [],
     request ''binfmt_misc'' ''/proc/sys/fs/binfmt_misc'' ''binfmt_misc'' (MS_NOEXEC OR MS_NOSUID OR MS_NODEV) [],
     request ''cgroup_root'' ''/sys/fs/cgroup'' ''tmpfs'' (MS_NODEV OR MS_NOEXEC OR MS_NOSUID) ''mode=755,size=10m'']"

definition late_mounts :: "mountreq list" where
  "late_mounts =
    [request ''cgroup'' ''/sys/fs/cgroup/systemd'' ''cgroup'' 0 ''none,name=systemd'',
     request [] ''/'' [] (MS_REC OR MS_SHARED) []]"

lemma mounting_cong: "mounting ms m \<Longrightarrow> ms = ns \<Longrightarrow> mounting ns m"
  by simp

lemma mounting_before: "mounting early_mounts (run_all steps_before)"
  unfolding steps_before_def
  by (rule mounting_cong, rule mounting_run_all, (rule list.rel_intros mounting_steps)+)
    (simp add: early_mounts_def)

lemma mounting_after: "mounting late_mounts (run_all steps_after)"
  unfolding steps_after_def
  by (rule mounting_cong, rule mounting_run_all, (rule list.rel_intros mounting_steps)+)
    (simp add: late_mounts_def)

text \<open>The control groups of a table: the names of the rows with a one in the last column.\<close>

lemma cgroupList_table:
  assumes "fault_free w" "file_is [''proc'', ''cgroups''] (concat (map (table_row (CHR 0x09)) rows)) w"
    and "\<forall>row \<in> set rows. length row = 4 \<and> (\<forall>f \<in> set row. plain_field (CHR 0x09) f)"
  shows "fst (run_state cgroupList w) = map hd (filter (\<lambda>row. last row = ''1'') rows)"
proof -
  let ?p = "[''proc'', ''cgroups'']" and ?c = "concat (map (table_row (CHR 0x09)) rows)"
  have a: "''/proc/cgroups'' = abs_path ?p" by (simp add: abs_path_def)
  have o: "run_state (os_Open (abs_path ?p)) w = (Inr ?p, tick w)" by (rule os_Open_calm [OF assms(1,2)])
  have r: "run_state (fd_ReadAll ?p) (tick w) = ((?c, None), tick (tick w))"
    by (rule fd_ReadAll_calm) (use assms(1,2) in simp_all)
  have c: "csv_ReadAll (CHR 0x09) 4 ?c = Inr rows" by (rule csv_ReadAll_table) (use assms(3) in auto)
  have "enabled_cgroups rows = map hd (filter (\<lambda>row. last row = ''1'') rows)"
    using assms(3)
  proof (induction rows)
    case (Cons row rows)
    then have "length row = 4" by simp
    then have "hd row = row ! 0 \<and> last row = row ! 3" by (cases row) (auto simp: last_conv_nth)
    then show ?case using Cons by (simp add: enabled_cgroups_def)
  qed (simp add: enabled_cgroups_def)
  then show ?thesis
    unfolding cgroupList_def a using o r c by (simp add: deferred_def fd_Close_def fs_call_def fs_call_part_def split_def)
qed

text \<open>
  C12. Whatever fails, the early phase tries the seventeen mounts of \<open>early_mounts\<close> (source, target, type, flags and
  options of each), then one mount for every control group that \<open>cgroupList\<close> gives in the state reached there, and
  for no other, then that of systemd, and makes the root shared at the end; besides files and mounts it only logs.
  If reading works there, these are the control groups enabled in \<^verbatim>\<open>/proc/cgroups\<close>.
\<close>

theorem doMounts_in_order:
  assumes "run_state doMounts w = (u, w')"
  shows "\<exists>w1 cgs es fs. w1 = snd (run_state (run_all steps_before) w) \<and> cgs = fst (run_state cgroupList w1)
    \<and> w_trace w1 = w_trace w @ es \<and> w_trace w' = w_trace w1 @ fs \<and> list_all mount_or_log (es @ fs)
    \<and> mounts_of es = early_mounts \<and> mounts_of fs = map cgroup_request cgs @ late_mounts
    \<and> (\<forall>rows. fault_free w1 \<and> file_is [''proc'', ''cgroups''] (concat (map (table_row (CHR 0x09)) rows)) w1
        \<and> (\<forall>row \<in> set rows. length row = 4 \<and> (\<forall>f \<in> set row. plain_field (CHR 0x09) f))
       \<longrightarrow> cgs = map hd (filter (\<lambda>row. last row = ''1'') rows))"
proof -
  obtain a w1 where a: "run_state (run_all steps_before) w = (a, w1)" by (meson surj_pair)
  obtain cgs w2 where b: "run_state cgroupList w1 = (cgs, w2)" by (meson surj_pair)
  obtain c w3 where c: "run_state (run_all (map mount_cgroup cgs)) w2 = (c, w3)" by (meson surj_pair)
  have d: "run_state (run_all steps_after) w3 = (u, w')" using assms a b c by (simp add: doMounts_def)
  obtain e1 where e1: "w_trace w1 = w_trace w @ e1" "mounts_of e1 = early_mounts" "list_all mount_or_log e1"
    by (rule mountingD [OF mounting_before a])
  obtain e2 where e2: "w_trace w2 = w_trace w1 @ e2" "mounts_of e2 = []" "list_all mount_or_log e2"
    by (rule mountingD [OF mounting_quiet(5) b])
  obtain e3 where e3: "w_trace w3 = w_trace w2 @ e3" "mounts_of e3 = map cgroup_request cgs" "list_all mount_or_log e3"
    by (rule mountingD [OF mounting_cgroups c])
  obtain e4 where e4: "w_trace w' = w_trace w3 @ e4" "mounts_of e4 = late_mounts" "list_all mount_or_log e4"
    by (rule mountingD [OF mounting_after d])
  show ?thesis
    using a b e1 e2 e3 e4 cgroupList_table [of w1]
    by (intro exI [of _ w1] exI [of _ cgs] exI [of _ e1] exI [of _ "e2 @ e3 @ e4"]) simp
qed

text \<open>No target hides an earlier one.\<close>

lemma early_mounts_order:
  "sorted_wrt (\<lambda>t u. \<not> prefix (u @ ''/'') (t @ ''/'')) (map m_target early_mounts)"
  unfolding early_mounts_def request_def by simp

theorem doMounts_in_order_witness:
  "\<exists>u w' es fs. run_state doMounts (calm_world []) = (u, w') \<and> w_trace w' = es @ fs
    \<and> mounts_of es = early_mounts \<and> length (mounts_of es) = 17 \<and> m_target (last (mounts_of fs)) = ''/''"
proof -
  obtain u w' where r: "run_state doMounts (calm_world []) = (u, w')" by (meson surj_pair)
  from doMounts_in_order [OF r] show ?thesis
  proof (elim exE conjE)
    fix w1 cgs es fs
    assume e: "w_trace w1 = w_trace (calm_world []) @ es" "w_trace w' = w_trace w1 @ fs" "mounts_of es = early_mounts"
      and late: "mounts_of fs = map cgroup_request cgs @ late_mounts"
    have "m_target (last (mounts_of fs)) = ''/''" by (simp add: late late_mounts_def request_def)
    moreover have "length (mounts_of es) = 17" by (simp add: e(3) early_mounts_def)
    ultimately show ?thesis using r e
      by (intro exI [of _ u] exI [of _ w'] exI [of _ es] exI [of _ fs]) (simp add: calm_world_def)
  qed
qed

section \<open>The control groups\<close>

text \<open>
  C13. \<open>cgroupList\<close> gives the names of the control groups with a one in the last column of \<^verbatim>\<open>/proc/cgroups\<close>, in the
  order of the table; the heading is a row like any other.
\<close>

theorem cgroupList_enabled:
  assumes "fault_free w" "file_is [''proc'', ''cgroups''] (concat (map (table_row (CHR 0x09)) rows)) w"
    and "\<forall>row \<in> set rows. length row = 4 \<and> (\<forall>f \<in> set row. plain_field (CHR 0x09) f)"
  shows "fst (run_state cgroupList w) = map hd (filter (\<lambda>row. last row = ''1'') rows)"
  using assms by (rule cgroupList_table)

abbreviation cgroups_rows :: "string list list" where
  "cgroups_rows \<equiv> [[''#subsys_name'', ''hierarchy'', ''num_cgroups'', ''enabled''],
     [''cpu'', ''2'', ''64'', ''1''], [''memory'', ''0'', ''1'', ''0''], [''pids'', ''5'', ''70'', ''1'']]"

theorem cgroupList_enabled_witness:
  "fst (run_state cgroupList (calm_world (lone_file [''proc'', ''cgroups''] (concat (map (table_row (CHR 0x09)) cgroups_rows)))))
     = [''cpu'', ''pids'']"
proof -
  let ?c = "concat (map (table_row (CHR 0x09)) cgroups_rows)"
  have f: "file_is [''proc'', ''cgroups''] ?c (calm_world (lone_file [''proc'', ''cgroups''] ?c))"
    by (rule lone_file_is) code_simp+
  have "fst (run_state cgroupList (calm_world (lone_file [''proc'', ''cgroups''] ?c)))
      = map hd (filter (\<lambda>row. last row = ''1'') cgroups_rows)"
    by (rule cgroupList_enabled [OF _ f]) (simp_all add: plain_field_def)
  then show ?thesis by simp
qed

section \<open>The name of the host\<close>

text \<open>What \<open>rc_read\<close> gives in a world where no call fails.\<close>

definition trimmed_text :: "world \<Rightarrow> string \<Rightarrow> string" where
  "trimmed_text w path = (case with_inode w True path (\<lambda>p i. Inr i) of
     Inr i \<Rightarrow> (case i_kind i of KReg c \<Rightarrow> TrimSpace c | _ \<Rightarrow> []) | Inl _ \<Rightarrow> [])"

lemma rc_read_calm: "fault_free w \<Longrightarrow> run_state (rc_read path) w = (trimmed_text w path, tick w)"
  by (auto simp: rc_read_def os_ReadFile_def run_fs_call trimmed_text_def path_cases split: sum.split option.split kind.split)

lemma trimmed_text_cong: "w_fs v = w_fs w \<Longrightarrow> w_cwd v = w_cwd w \<Longrightarrow> trimmed_text v path = trimmed_text w path"
  by (simp add: trimmed_text_def path_cases resolve_cong [of v w])

lemma trimmed_text_updates [simp]:
  "trimmed_text (w\<lparr>w_sysno := n\<rparr>) path = trimmed_text w path"
  "trimmed_text (w\<lparr>w_hostname := h\<rparr>) path = trimmed_text w path"
  "trimmed_text (w\<lparr>w_trace := t\<rparr>) path = trimmed_text w path"
  by (rule trimmed_text_cong; simp)+

definition chosen_hostname :: "string \<Rightarrow> string \<Rightarrow> string \<Rightarrow> string" where
  "chosen_hostname old from_file mac =
     (let name = (if from_file \<noteq> [] then from_file else old) in
      if name \<noteq> ''(none)'' \<and> name \<noteq> [] then name
      else if mac \<noteq> [] then ''k3os-'' @ filter (\<lambda>c. c \<noteq> CHR '':'') mac else name)"

text \<open>
  When no call fails the host is named by \<^verbatim>\<open>/etc/hostname\<close>, else keeps the name the kernel has, and only a host
  without one is named after its first network card; no file changes.
\<close>

theorem doHostname_chooses:
  assumes "fault_free w"
  shows "wp doHostname (\<lambda>_ v. w_fs v = w_fs w
    \<and> w_hostname v = chosen_hostname (w_hostname w) (trimmed_text w ''/etc/hostname'')
        (trimmed_text w ''/sys/class/net/eth0/address'')) w"
proof -
  have set: "run_state (sys_Sethostname h) v = (Inr (), (tick v)\<lparr>w_hostname := h, w_trace := w_trace v @ [EvHostname h]\<rparr>)"
    if "fault_free v" for h v using that by (simp add: sys_Sethostname_def fault_free_def)
  have get: "run_state os_Hostname v = (Inr (w_hostname v), tick v)" if "fault_free v" for v
    using that by (simp add: os_Hostname_def fault_free_def)
  have ff: "fault_free v" if "w_fault v = w_fault w" for v using assms that by (simp add: fault_free_def)
  show ?thesis
    using assms
    by (simp add: doHostname_def wp_def rc_read_calm set get ff tick_def chosen_hostname_def warn_def
        del: wp_bind)
qed

theorem doHostname_chooses_witness:
  "w_hostname (snd (run_state doHostname ((calm_world (lone_file [''sys'', ''class'', ''net'', ''eth0'', ''address'']
     ''52:54:0a''))\<lparr>w_hostname := ''(none)''\<rparr>))) = ''k3os-52540a''"
proof -
  let ?w = "(calm_world (lone_file [''sys'', ''class'', ''net'', ''eth0'', ''address''] ''52:54:0a''))\<lparr>w_hostname := ''(none)''\<rparr>"
  have t: "trimmed_text ?w ''/etc/hostname'' = []" "trimmed_text ?w ''/sys/class/net/eth0/address'' = ''52:54:0a''"
    by code_simp+
  have "fault_free ?w" by (simp add: fault_free_def)
  from doHostname_chooses [OF this, unfolded t] show ?thesis
    by (simp add: wp_def split_def chosen_hostname_def)
qed

section \<open>Devices\<close>

text \<open>\<open>mkchar\<close> asks for no type of file, so that what it makes is a regular file.\<close>

lemma mkchar_makes_regular_file:
  "map_option i_kind (fs_get (w_fs (snd (run_state (mkchar ''/null'' 438 1 3) (calm_world [([], mkdir_inode)])))) [''null''])
     = Some (KReg [])"
  by code_simp

text \<open>
  The mode \<open>01777\<close> is passed as it is, but the sticky bit of Go's modes is another one, so that the directory is
  made without it and everybody may delete the files of the others.
\<close>

lemma mkdir_not_sticky:
  "map_option i_mode (fs_get (w_fs (snd (run_state (rc_mkdir ''/tmp'' 1023) (calm_world [([], mkdir_inode)] \<lparr>w_umask := 0\<rparr>)))) [''tmp''])
     = Some 511"
  by code_simp

end
