(* ===== verification/EnterChroot.thy ===== *)
theory EnterChroot
  imports GoMount
begin

text \<open>
  \<^verbatim>\<open>pkg/enterchroot\<close>: the way into the root of k3OS. \<open>enter_Mount\<close> attaches the image to a loop device
  and starts the program again as \<^verbatim>\<open>enter-root\<close>; \<open>enter_run\<close> is what that does: it mounts the image
  below the data directory, makes the data directory the root and becomes \<^verbatim>\<open>/usr/init\<close>.
\<close>

section \<open>Devices for the loop (ensureloop.go)\<close>

definition mountProc :: "unit os" where
  "mountProc = do {
     m \<leftarrow> Mounted ''/proc'';
     if m = Inr True then State_Monad.return (Inr ())
     else do {
       r \<leftarrow> os_MkdirAll ''/proc'' 493;
       onok r (\<lambda>_. ForceMount ''proc'' ''/proc'' ''proc'' '''') } }"

definition mountDev :: "unit os" where
  "mountDev = do {
     files \<leftarrow> os_ReadDirInfo ''/dev'';
     if (case files of Inr fs \<Rightarrow> length fs > 2 | Inl _ \<Rightarrow> False) then State_Monad.return (Inr ())
     else do {
       r \<leftarrow> os_MkdirAll ''/dev'' 493;
       onok r (\<lambda>_. ForceMount ''none'' ''/dev'' ''devtmpfs'' '''') } }"

text \<open>Go's \<open>int\<close> is a word of 64 bits here.\<close>

definition mknod_dev :: "64 word \<Rightarrow> 64 word \<Rightarrow> 64 word" where
  "mknod_dev major minor = push_bit 8 major OR (minor AND 255) OR push_bit 12 (minor AND 1048320)"

definition mknod :: "string \<Rightarrow> filemode \<Rightarrow> 64 word \<Rightarrow> 64 word \<Rightarrow> unit os" where
  "mknod path mode major minor = do {
     st \<leftarrow> os_Stat path;
     if is_ok st then State_Monad.return (Inr ())
     else os_Mknod path mode (mknod_dev major minor) }"

definition S_IFCHR :: filemode where "S_IFCHR = 8192"
definition S_IFBLK :: filemode where "S_IFBLK = 24576"

definition loop_dev :: "nat \<Rightarrow> string" where
  "loop_dev i = ''/dev/loop'' @ Itoa (int i)"

primrec loop_nodes :: "nat list \<Rightarrow> unit os" where
  "loop_nodes [] = State_Monad.return (Inr ())"
| "loop_nodes (i # ns) = do {
     r \<leftarrow> mknod (loop_dev i) (448 OR S_IFBLK) 7 (of_nat i);
     onok r (\<lambda>_. loop_nodes ns) }"

definition ensureloop :: "unit os" where
  "ensureloop = do {
     p \<leftarrow> mountProc;
     (case p of
        Inl e \<Rightarrow> State_Monad.return (Inl (ErrWrap ''failed to mount proc'' e))
      | Inr _ \<Rightarrow> do {
          d \<leftarrow> mountDev;
          (case d of
             Inl e \<Rightarrow> State_Monad.return (Inl (ErrWrap ''failed to mount dev'' e))
           | Inr _ \<Rightarrow> do {
               _ \<leftarrow> cmd_Run (Command ''modprobe'' [''loop'']);
               c \<leftarrow> mknod ''/dev/loop-control'' (448 OR S_IFCHR) 10 237;
               onok c (\<lambda>_. loop_nodes [0..<7]) }) }) }"

section \<open>The image in the program's own file\<close>

definition enter_magic :: string where "enter_magic = ''_SQMAGIC_''"

text \<open>
  The scan for the magic bytes: how many of them have just been seen, and the offset. The result is
  the offset after the last of them, or the state in which the next buffer is scanned.
\<close>

fun scan_bytes :: "string \<Rightarrow> string \<Rightarrow> nat \<times> 64 word \<Rightarrow> 64 word + nat \<times> 64 word" where
  "scan_bytes test [] st = Inr st"
| "scan_bytes test (b # bs) (found, offset) =
     (if b = test ! found
      then (if Suc found = length test then Inl (offset + 1) else scan_bytes test bs (Suc found, offset + 1))
      else scan_bytes test bs (0, offset + 1))"

fun scan_reads :: "string \<Rightarrow> string list \<Rightarrow> nat \<times> 64 word \<Rightarrow> 64 word option" where
  "scan_reads test [] st = None"
| "scan_reads test (buf # bufs) st =
     (case scan_bytes test buf st of Inl n \<Rightarrow> Some n | Inr st' \<Rightarrow> scan_reads test bufs st')"

text \<open>What the reads into a buffer of \<open>n\<close> bytes deliver.\<close>

fun read_chunks :: "nat \<Rightarrow> string \<Rightarrow> string list" where
  "read_chunks n c = (if c = [] \<or> n = 0 then [] else take n c # read_chunks n (drop n c))"

declare read_chunks.simps [simp del]

definition reexec_Self :: string where "reexec_Self = ''/proc/self/exe''"

definition inFile :: "string \<Rightarrow> (string \<times> 64 word) os" where
  "inFile arg0 = do {
     f \<leftarrow> os_Open reexec_Self;
     onok f (\<lambda>f. deferred (fd_Close f) (do {
       (content, err) \<leftarrow> fd_ReadAll f;
       State_Monad.return (case scan_reads (ToLower enter_magic) (read_chunks 8192 content) (0, 0) of
         Some n \<Rightarrow> Inr (reexec_Self, n)
       | None \<Rightarrow> (case err of
            Some e \<Rightarrow> Inl e
          | None \<Rightarrow> Inl (ErrMsg (''failed to find image in file '' @ arg0)))) })) }"

primrec find_beside :: "string list \<Rightarrow> string \<Rightarrow> (world, string option) state" where
  "find_beside [] arg0 = State_Monad.return None"
| "find_beside (sfx # rest) arg0 = do {
     st \<leftarrow> os_Stat (arg0 @ sfx);
     (case st of
        Inr _ \<Rightarrow> State_Monad.return (Some (arg0 @ sfx))
      | Inl _ \<Rightarrow> find_beside rest arg0) }"

definition findRoot :: "string \<Rightarrow> (string \<times> 64 word) os" where
  "findRoot arg0 = do {
     root \<leftarrow> Getenv ''ENTER_ROOT'';
     if root \<noteq> [] then State_Monad.return (Inr (root, 0))
     else do {
       t \<leftarrow> find_beside [''.root'', ''.squashfs''] arg0;
       (case t of
          Some test \<Rightarrow> State_Monad.return (Inr (test, 0))
        | None \<Rightarrow> inFile arg0) } }"

section \<open>Starting again as \<open>enter-root\<close>\<close>

text \<open>
  What the code asks the system about its process: \<^verbatim>\<open>os.Args\<close>, whose first element is \<open>p_arg0\<close>, the
  process number, whether the log already is at debug level, and the outcome of \<^verbatim>\<open>losetup.Attach\<close>:
  an error or the path of the device.
\<close>

record process =
  p_arg0 :: string
  p_rest :: "string list"
  p_pid :: int
  p_debug :: bool
  p_attach :: "string \<Rightarrow> 64 word \<Rightarrow> goerror + string"

definition isDebug :: "string \<Rightarrow> (world, bool) state" where
  "isDebug debugCmdline = do {
     e \<leftarrow> Getenv ''ENTER_DEBUG'';
     if e = ''true'' then State_Monad.return True
     else if debugCmdline = [] then State_Monad.return False
     else do {
       r \<leftarrow> os_ReadFile ''/proc/cmdline'';
       State_Monad.return (case r of Inl _ \<Rightarrow> False | Inr bytes \<Rightarrow> debugCmdline \<in> set (Fields bytes)) } }"

definition losetup_Attach :: "process \<Rightarrow> string \<Rightarrow> 64 word \<Rightarrow> string os" where
  "losetup_Attach p root offset =
     (case p_attach p root offset of
        Inl e \<Rightarrow> State_Monad.return (Inl e)
      | Inr dev \<Rightarrow> do { _ \<leftarrow> emit (EvAttach dev root offset); State_Monad.return (Inr dev) })"

text \<open>\<open>CLONE_NEWPID | CLONE_NEWUTS | CLONE_NEWIPC\<close>, \<open>CLONE_NEWNS\<close>, \<open>SIGKILL\<close>.\<close>

definition enter_attr :: sysproc where
  "enter_attr = \<lparr>sp_clone = 536870912 OR 67108864 OR 134217728, sp_unshare = 131072, sp_deathsig = 9\<rparr>"

text \<open>The value says whether the process was replaced; then nothing after the call runs.\<close>

definition enter_start :: "process \<Rightarrow> string list \<Rightarrow> bool os" where
  "enter_start p args =
     (case args of
        [] \<Rightarrow> State_Monad.return (Inl (GoPanic ''slice bounds out of range''))
      | _ # rest \<Rightarrow>
         if p_pid p = 1
         then do {
           env \<leftarrow> Environ;
           r \<leftarrow> sys_Exec (p_arg0 p) (''enter-root'' # rest) env;
           State_Monad.return (case r of Inl e \<Rightarrow> Inl (ErrWrap ''failed to exec enter-root'' e) | Inr _ \<Rightarrow> Inr True) }
         else do {
           env \<leftarrow> Environ;
           r \<leftarrow> cmd_Run \<lparr>c_name = p_arg0 p, c_argv0 = Some ''enter-root'', c_args = rest, c_env = Some env,
                          c_stdin = StdinInherit, c_attr = Some enter_attr\<rparr>;
           State_Monad.return (case r of Inl e \<Rightarrow> Inl e | Inr _ \<Rightarrow> Inr False) })"

text \<open>With an image file: the device is detached again unless the process was replaced.\<close>

definition enter_image :: "process \<Rightarrow> string list \<Rightarrow> string \<Rightarrow> 64 word \<Rightarrow> bool os" where
  "enter_image p args root offset = do {
     a \<leftarrow> losetup_Attach p root offset;
     (case a of
        Inl e \<Rightarrow> State_Monad.return (Inl (ErrWrap ''creating loopback device'' e))
      | Inr dev \<Rightarrow> do {
          _ \<leftarrow> Setenv ''ENTER_DEVICE'' dev;
          r \<leftarrow> enter_start p args;
          _ \<leftarrow> (if r = Inr True then State_Monad.return () else emit (EvDetach dev));
          State_Monad.return r }) }"

definition enter_Mount :: "process \<Rightarrow> string \<Rightarrow> string \<Rightarrow> string list \<Rightarrow> bool os" where
  "enter_Mount p debugCmdline dataDir args = do {
     l \<leftarrow> ensureloop;
     onok l (\<lambda>_. do {
       d \<leftarrow> isDebug debugCmdline;
       _ \<leftarrow> (if d \<or> p_debug p then Setenv ''ENTER_DEBUG'' ''true'' else State_Monad.return ());
       fr \<leftarrow> findRoot (p_arg0 p);
       onok fr (\<lambda>ro. case ro of (root, offset) \<Rightarrow> do {
         _ \<leftarrow> Setenv ''ENTER_DATA'' dataDir;
         _ \<leftarrow> Setenv ''ENTER_ROOT'' root;
         st \<leftarrow> os_Stat root;
         (case st of
            Inl e \<Rightarrow> State_Monad.return (Inl (ErrWrap (''failed to find '' @ root) e))
          | Inr fi \<Rightarrow> if IsDir fi then enter_start p args else enter_image p args root offset) }) }) }"

section \<open>Entering the root\<close>

definition inProcFS :: "(world, bool) state" where
  "inProcFS = do {
     r \<leftarrow> os_ReadFile ''/proc/filesystems'';
     (case r of
        Inl e \<Rightarrow> do { _ \<leftarrow> emit (EvLog (ErrWrap ''Failed to read /proc/filesystems'' e)); State_Monad.return False }
      | Inr bytes \<Rightarrow> State_Monad.return (Contains bytes ''squashfs'')) }"

definition squashfs_missing :: goerror where
  "squashfs_missing = ErrMsg (''This kernel does not support squashfs, please enable. '' @
     ''On Fedora you may need to run \"dnf install kernel-modules-$(uname -r)\"'')"

definition checkSquashfs :: "unit os" where
  "checkSquashfs = do {
     a \<leftarrow> inProcFS;
     _ \<leftarrow> (if a then State_Monad.return (Inr ()) else cmd_Run (Command ''modprobe'' [''squashfs'']));
     b \<leftarrow> inProcFS;
     State_Monad.return (if b then Inr () else Inl squashfs_missing) }"

definition enter_data :: "string \<Rightarrow> unit os" where
  "enter_data data = do {
     m \<leftarrow> Mounted data;
     (case m of
        Inl e \<Rightarrow> State_Monad.return (Inl (ErrWrap (''checking '' @ data @ '' mounted'') e))
      | Inr True \<Rightarrow> State_Monad.return (Inr ())
      | Inr False \<Rightarrow> do {
          d \<leftarrow> os_MkdirAll data 493;
          (case d of
             Inl e \<Rightarrow> State_Monad.return (Inl (ErrWrap (''mkdir '' @ data) e))
           | Inr _ \<Rightarrow> do {
               b \<leftarrow> Mount data data ''none'' ''rbind'';
               State_Monad.return (case b of Inl e \<Rightarrow> Inl (ErrWrap (''remounting data '' @ data) e) | Inr _ \<Rightarrow> Inr ()) }) }) }"

primrec enter_dirs :: "string \<Rightarrow> string list \<Rightarrow> unit os" where
  "enter_dirs data [] = State_Monad.return (Inr ())"
| "enter_dirs data (d # ds) = do {
     r \<leftarrow> os_MkdirAll d 493;
     (case r of
        Inl e \<Rightarrow> State_Monad.return (Inl (ErrWrap (''failed to make dir '' @ data) e))
      | Inr _ \<Rightarrow> enter_dirs data ds) }"

text \<open>\<open>Error()\<close> of an error made of a text.\<close>

definition error_text :: "goerror \<Rightarrow> string" where
  "error_text e = (case e of ErrMsg msg \<Rightarrow> msg | _ \<Rightarrow> [])"

definition enter_usr :: "string \<Rightarrow> string \<Rightarrow> string \<Rightarrow> unit os" where
  "enter_usr root device usr =
     (if device = []
      then do {
        r \<leftarrow> Mount root usr ''none'' ''bind'';
        State_Monad.return (case r of Inl _ \<Rightarrow> Inl (ErrMsg ''failed to bind mount'') | Inr _ \<Rightarrow> Inr ()) }
      else do {
        squashErr \<leftarrow> checkSquashfs;
        r \<leftarrow> Mount device usr ''squashfs'' ''ro'';
        State_Monad.return (case r of
            Inr _ \<Rightarrow> Inr ()
          | Inl e \<Rightarrow> (case squashErr of
               Inr _ \<Rightarrow> Inl (ErrWrap ''mounting squashfs'' e)
             | Inl s \<Rightarrow> Inl (ErrWrap (error_text s) (ErrWrap ''mounting squashfs'' e)))) })"

primrec enter_links :: "string list \<Rightarrow> unit os" where
  "enter_links [] = State_Monad.return (Inr ())"
| "enter_links (p # ps) = do {
     l \<leftarrow> os_Lstat p;
     (case l of
        Inl e \<Rightarrow>
          if IsNotExist e then do {
            r \<leftarrow> os_Symlink (path_Join [''usr'', p]) p;
            (case r of
               Inl e \<Rightarrow> State_Monad.return (Inl (ErrWrap (''failed to symlink '' @ p) e))
             | Inr _ \<Rightarrow> enter_links ps) }
          else enter_links ps
      | Inr _ \<Rightarrow> enter_links ps) }"

text \<open>From the new root on: nothing of the old one is used again.\<close>

definition enter_init :: "string list \<Rightarrow> unit os" where
  "enter_init argv = do {
     s \<leftarrow> os_Stat ''/usr/init'';
     (case s of
        Inl e \<Rightarrow> State_Monad.return (Inl (ErrWrap ''failed to find /usr/init'' e))
      | Inr _ \<Rightarrow> do {
          _ \<leftarrow> Unsetenv ''ENTER_ROOT'';
          _ \<leftarrow> Unsetenv ''ENTER_DATA'';
          _ \<leftarrow> Unsetenv ''ENTER_DEVICE'';
          env \<leftarrow> Environ;
          sys_Exec ''/usr/init'' argv env }) }"

definition enter_pivot :: "string \<Rightarrow> string list \<Rightarrow> unit os" where
  "enter_pivot data argv = do {
     p \<leftarrow> sys_PivotRoot ''.'' ''.base'';
     (case p of
        Inl e \<Rightarrow> State_Monad.return (Inl (ErrWrap ''pivot_root failed'' e))
      | Inr _ \<Rightarrow> do {
          m \<leftarrow> ForceMount '''' ''.'' ''none'' ''rprivate'';
          (case m of
             Inl e \<Rightarrow> State_Monad.return (Inl (ErrWrap (''making . private '' @ data) e))
           | Inr _ \<Rightarrow> do {
               c \<leftarrow> sys_Chroot ''/'';
               onok c (\<lambda>_. do {
                 d \<leftarrow> os_Chdir ''/'';
                 onok d (\<lambda>_. enter_init argv) }) }) }) }"

definition enter_symlinks :: "string list" where "enter_symlinks = [''lib'', ''bin'', ''sbin'']"

definition enter_run :: "string list \<Rightarrow> string \<Rightarrow> unit os" where
  "enter_run argv data = do {
     m \<leftarrow> enter_data data;
     onok m (\<lambda>_. do {
       root \<leftarrow> Getenv ''ENTER_ROOT'';
       device \<leftarrow> Getenv ''ENTER_DEVICE'';
       let usr = path_Join [data, ''usr''];
       let dotRoot = path_Join [data, ''.base''];
       d \<leftarrow> enter_dirs data [usr, dotRoot];
       onok d (\<lambda>_. do {
         u \<leftarrow> enter_usr root device usr;
         onok u (\<lambda>_. do {
           c \<leftarrow> os_Chdir data;
           onok c (\<lambda>_. do {
             l \<leftarrow> enter_links enter_symlinks;
             onok l (\<lambda>_. enter_pivot data argv) }) }) }) }) }"

text \<open>\<open>RLIMIT_NOFILE\<close>, \<open>RLIMIT_NPROC\<close> and \<open>RLIM_INFINITY\<close>.\<close>

definition setResourceLimit :: "int \<Rightarrow> 64 word \<Rightarrow> 64 word \<Rightarrow> (world, unit) state" where
  "setResourceLimit resource cur hard = do {
     r \<leftarrow> sys_Setrlimit resource cur hard;
     (case r of
        Inl e \<Rightarrow> emit (EvLog (ErrWrap ''Failed to set rlimit'' e))
      | Inr _ \<Rightarrow> State_Monad.return ()) }"

definition Enter :: "process \<Rightarrow> (world, unit) state" where
  "Enter p = do {
     _ \<leftarrow> setResourceLimit 7 1048576 1048576;
     _ \<leftarrow> setResourceLimit 6 (- 1) (- 1);
     data \<leftarrow> Getenv ''ENTER_DATA'';
     r \<leftarrow> enter_run (p_arg0 p # p_rest p) data;
     or_fatal r State_Monad.return }"

section \<open>The parts are programs\<close>

lemma program_mountProc [program_intros]: "program mountProc"
  unfolding mountProc_def by (intro program_intros)

lemma program_mountDev [program_intros]: "program mountDev"
  unfolding mountDev_def by (intro program_intros)

lemma program_mknod [program_intros]: "program (mknod path mode major minor)"
  unfolding mknod_def by (intro program_intros)

lemma program_loop_nodes [program_intros]: "program (loop_nodes ns)"
  by (induction ns) (auto intro!: program_intros)

lemma program_ensureloop [program_intros]: "program ensureloop"
  unfolding ensureloop_def by (intro program_intros)

lemma program_inFile [program_intros]: "program (inFile arg0)"
  unfolding inFile_def by (intro program_intros)

lemma program_find_beside [program_intros]: "program (find_beside sfx arg0)"
  by (induction sfx) (auto intro!: program_intros)

lemma program_findRoot [program_intros]: "program (findRoot arg0)"
  unfolding findRoot_def by (intro program_intros)

lemma program_isDebug [program_intros]: "program (isDebug dc)"
  unfolding isDebug_def by (intro program_intros)

lemma program_losetup_Attach [program_intros]: "program (losetup_Attach p root off)"
  unfolding losetup_Attach_def by (intro program_intros)

lemma program_enter_start [program_intros]: "program (enter_start p args)"
  unfolding enter_start_def by (intro program_intros)

lemma program_enter_image [program_intros]: "program (enter_image p args root off)"
  unfolding enter_image_def by (intro program_intros)

lemma program_enter_Mount [program_intros]: "program (enter_Mount p dc data args)"
  unfolding enter_Mount_def by (intro program_intros)

lemma program_inProcFS [program_intros]: "program inProcFS"
  unfolding inProcFS_def by (intro program_intros)

lemma program_checkSquashfs [program_intros]: "program checkSquashfs"
  unfolding checkSquashfs_def by (intro program_intros)

lemma program_enter_data [program_intros]: "program (enter_data data)"
  unfolding enter_data_def by (intro program_intros)

lemma program_enter_dirs [program_intros]: "program (enter_dirs data ds)"
  by (induction ds) (auto intro!: program_intros)

lemma program_enter_usr [program_intros]: "program (enter_usr root device usr)"
  unfolding enter_usr_def by (intro program_intros)

lemma program_enter_links [program_intros]: "program (enter_links ps)"
  by (induction ps) (auto intro!: program_intros)

lemma program_enter_init [program_intros]: "program (enter_init argv)"
  unfolding enter_init_def by (intro program_intros)

lemma program_enter_pivot [program_intros]: "program (enter_pivot data argv)"
  unfolding enter_pivot_def by (intro program_intros)

lemma program_enter_run [program_intros]: "program (enter_run argv data)"
  unfolding enter_run_def Let_def by (intro program_intros)

lemma program_setResourceLimit [program_intros]: "program (setResourceLimit r c h)"
  unfolding setResourceLimit_def by (intro program_intros)

lemma program_Enter [program_intros]: "program (Enter p)"
  unfolding Enter_def by (intro program_intros)

end
