(* ===== verification/EnterLaws.thy ===== *)
theory EnterLaws
  imports EnterChroot Traces
begin

text \<open>
  What entering the root promises: the image is found in the program's file, the devices have the
  numbers the kernel expects, the loop device is not leaked, \<^verbatim>\<open>/usr/init\<close> only runs in the new root.
\<close>

section \<open>The scan for the image\<close>

lemma scan_bytes_append:
  "scan_bytes test (xs @ ys) st = (case scan_bytes test xs st of Inl n \<Rightarrow> Inl n | Inr st' \<Rightarrow> scan_bytes test ys st')"
  by (induction test xs st rule: scan_bytes.induct) simp_all

lemma scan_reads_concat:
  "scan_reads test bufs st = (case scan_bytes test (concat bufs) st of Inl n \<Rightarrow> Some n | Inr _ \<Rightarrow> None)"
  by (induction bufs arbitrary: st) (simp_all add: scan_bytes_append split: sum.split)

lemma concat_read_chunks: "0 < n \<Longrightarrow> concat (read_chunks n c) = c"
  by (induction n c rule: read_chunks.induct) (subst read_chunks.simps, simp)

text \<open>Before the end: the bytes counted are the last ones read; at the end: the magic bytes are.\<close>

lemma scan_bytes_state:
  "found < length test \<Longrightarrow> scan_bytes test bs (found, off) = Inr (found', off') \<Longrightarrow>
   off' = off + of_nat (length bs) \<and> found' < length test
     \<and> suffix (take found' test) (take found test @ bs)"
proof (induction bs arbitrary: found off)
  case (Cons b bs)
  show ?case
  proof (cases "b = test ! found")
    case True
    then have s: "scan_bytes test bs (Suc found, off + 1) = Inr (found', off')" "Suc found < length test"
      using Cons.prems by (auto split: if_splits)
    have "take (Suc found) test @ bs = take found test @ b # bs"
      using Cons.prems(1) True by (simp add: take_Suc_conv_app_nth)
    then show ?thesis using Cons.IH [OF s(2,1)] by (simp add: add.assoc)
  next
    case False
    then have s: "scan_bytes test bs (0, off + 1) = Inr (found', off')" using Cons.prems by simp
    then have "suffix (take found' test) bs" using Cons.IH [OF _ s] Cons.prems(1) by force
    then have "suffix (take found' test) ((take found test @ [b]) @ bs)" by (rule suffix_appendI)
    then show ?thesis using Cons.IH [OF _ s] Cons.prems(1) by (force simp: add.assoc)
  qed
qed simp

lemma scan_bytes_found:
  "found < length test \<Longrightarrow> scan_bytes test bs (found, off) = Inl n \<Longrightarrow>
   \<exists>pre rest. bs = pre @ rest \<and> n = off + of_nat (length pre) \<and> suffix test (take found test @ pre)"
proof (induction bs arbitrary: found off)
  case (Cons b bs)
  consider (last) "b = test ! found" "Suc found = length test" | (next_byte) "b = test ! found" "Suc found < length test"
    | (reset) "b \<noteq> test ! found"
    using Cons.prems(1) by linarith
  then show ?case
  proof cases
    case last
    have "take found test @ [b] = test" using last Cons.prems(1) by (metis order_refl take_Suc_conv_app_nth take_all)
    then show ?thesis using last Cons.prems(2) by (intro exI [of _ "[b]"] exI [of _ bs]) simp
  next
    case next_byte
    then have "scan_bytes test bs (Suc found, off + 1) = Inl n" using Cons.prems by simp
    from Cons.IH [OF next_byte(2) this] obtain pre rest where r: "bs = pre @ rest" "n = off + 1 + of_nat (length pre)"
      "suffix test (take (Suc found) test @ pre)" by blast
    then show ?thesis using next_byte Cons.prems(1)
      by (intro exI [of _ "b # pre"] exI [of _ rest]) (simp add: take_Suc_conv_app_nth add.assoc)
  next
    case reset
    then have "scan_bytes test bs (0, off + 1) = Inl n" using Cons.prems by simp
    from Cons.IH [OF _ this] Cons.prems(1) obtain pre rest where r: "bs = pre @ rest" "n = off + 1 + of_nat (length pre)"
      "suffix test pre" by force
    have "suffix test ((take found test @ [b]) @ pre)" using r(3) by (rule suffix_appendI)
    then show ?thesis using r by (intro exI [of _ "b # pre"] exI [of _ rest]) (simp add: add.assoc)
  qed
qed simp

lemma scan_bytes_match:
  "k < length test \<Longrightarrow> scan_bytes test (drop k test @ rest) (k, off) = Inl (off + of_nat (length test - k))"
proof (induction "length test - k" arbitrary: k off)
  case (Suc m)
  have d: "drop k test = test ! k # drop (Suc k) test" using Suc.prems by (simp add: Cons_nth_drop_Suc)
  show ?case
  proof (cases "Suc k = length test")
    case False
    then have "Suc k < length test" using Suc.prems by simp
    moreover have "length test - k = Suc (length test - Suc k)" using Suc.prems by simp
    ultimately show ?thesis using Suc.hyps d False by (simp add: add.assoc)
  next
    case True
    then have "length test - k = 1" by simp
    then show ?thesis using d True by simp
  qed
qed simp

abbreviation magic_bytes :: string where "magic_bytes \<equiv> ToLower enter_magic"

lemma magic_bytes: "magic_bytes = ''_sqmagic_''"
  by code_simp

text \<open>The bytes before the image must not end in a beginning of the magic bytes.\<close>

definition clear_of :: "string \<Rightarrow> string \<Rightarrow> bool" where
  "clear_of test pre = (\<not> sublist test pre \<and> (\<forall>k \<in> {1..<length test}. \<not> suffix (take k test) pre))"

lemma scan_reads_clear:
  assumes "clear_of test pre" "test \<noteq> []" "0 < n"
  shows "scan_reads test (read_chunks n (pre @ test @ rest)) (0, 0) = Some (of_nat (length pre + length test))"
proof -
  have "\<exists>off. scan_bytes test pre (0, 0) = Inr (0, off) \<and> off = of_nat (length pre)"
  proof (cases "scan_bytes test pre (0, 0)")
    case (Inl m)
    then obtain p r where "pre = p @ r" "suffix test p" using scan_bytes_found [of 0 test pre 0 m] assms(2) by auto
    then have "sublist test pre" by (auto simp: suffix_def sublist_def) (metis append.assoc)
    then show ?thesis using assms(1) by (simp add: clear_of_def)
  next
    case (Inr st)
    obtain k off where st: "st = (k, off)" by fastforce
    have s: "off = of_nat (length pre)" "k < length test" "suffix (take k test) pre"
      using scan_bytes_state [of 0 test pre 0 k off] Inr st assms(2) by auto
    then have "k = 0" using assms(1) by (cases k) (auto simp: clear_of_def)
    then show ?thesis using Inr st s by simp
  qed
  then show ?thesis
    using scan_bytes_match [of 0 test rest "of_nat (length pre)"] assms(2,3)
    by (auto simp: scan_reads_concat concat_read_chunks scan_bytes_append)
qed

lemma inFile_run:
  assumes "fault_free w" "resolve w True reexec_Self = Inr p" "fs_get (w_fs w) p = Some i" "i_kind i = KReg c"
  shows "fst (run_state (inFile arg0) w) =
    (case scan_reads magic_bytes (read_chunks 8192 c) (0, 0) of
       Some n \<Rightarrow> Inr (reexec_Self, n) | None \<Rightarrow> Inl (ErrMsg (''failed to find image in file '' @ arg0)))"
proof -
  have o: "run_state (os_Open reexec_Self) w = (Inr p, tick w)"
    using assms by (simp add: os_Open_def run_fs_call path_cases)
  have r: "run_state (fd_ReadAll p) (tick w) = ((c, None), tick (tick w))"
    using assms by (simp add: fd_ReadAll_def fault_free_def)
  show ?thesis
    using assms(1) by (simp add: inFile_def o r deferred_def fd_Close_def fs_call_def fs_call_part_def fault_free_def
        split: option.split)
qed

text \<open>
  C8. The image in the program's own file is found, at the offset right after the magic bytes, whichever way the
  bytes fall into the buffers: where the bytes before the magic ones neither hold it nor end in a beginning of it.
\<close>

theorem inFile_finds_image:
  assumes "fault_free w" "resolve w True reexec_Self = Inr p" "fs_get (w_fs w) p = Some i"
    and "i_kind i = KReg (pre @ magic_bytes @ img)" "clear_of magic_bytes pre"
  shows "fst (run_state (inFile arg0) w) = Inr (reexec_Self, of_nat (length pre + 9))"
  using inFile_run [OF assms(1-4), of arg0] scan_reads_clear [OF assms(5), of 8192 img] magic_bytes by simp

abbreviation exe_path :: path where "exe_path \<equiv> [''proc'', ''self'', ''exe'']"

theorem inFile_finds_image_witness:
  "fst (run_state (inFile ''init'') (calm_world (lone_file exe_path ''ELF _s-_sqmagic_hsqs''))) = Inr (''/proc/self/exe'', 16)"
proof -
  let ?c = "''ELF _s-'' @ magic_bytes @ ''hsqs''"
  have a: "reexec_Self = abs_path exe_path" by (simp add: reexec_Self_def abs_path_def)
  have "file_is exe_path ?c (calm_world (lone_file exe_path ?c))" by (rule lone_file_is) code_simp+
  then obtain i where i: "resolve (calm_world (lone_file exe_path ?c)) True reexec_Self = Inr exe_path"
    "fs_get (w_fs (calm_world (lone_file exe_path ?c))) exe_path = Some i" "i_kind i = KReg ?c"
    unfolding a by (rule file_is_resolve)
  have c: "clear_of magic_bytes ''ELF _s-''"
    unfolding magic_bytes clear_of_def suffix_to_prefix
    by (auto simp: numeral_eq_Suc atLeastLessThanSuc dest: sublist_length_le)
  have "fst (run_state (inFile ''init'') (calm_world (lone_file exe_path ?c))) = Inr (reexec_Self, of_nat (length ''ELF _s-'' + 9))"
    by (rule inFile_finds_image [OF _ i c]) simp
  then show ?thesis by (simp add: magic_bytes reexec_Self_def)
qed

text \<open>
  A beginning of the magic bytes right before them hides them: the byte that breaks the match is not looked at
  again as the first of a new one.
\<close>

lemma magic_after_underscore: "scan_reads magic_bytes (read_chunks 8192 ''__sqmagic_hsqs'') (0, 0) = None"
  unfolding scan_reads_concat magic_bytes by (simp add: concat_read_chunks)

text \<open>Whatever fails: an offset that is returned is right after magic bytes.\<close>

lemma scan_reads_sound:
  assumes "scan_reads test (read_chunks n c) (0, 0) = Some off" "test \<noteq> []" "0 < n"
  shows "\<exists>pre rest. c = pre @ test @ rest \<and> off = of_nat (length pre + length test)"
proof -
  have "scan_bytes test c (0, 0) = Inl off"
    using assms(1,3) by (simp add: scan_reads_concat concat_read_chunks split: sum.splits)
  from scan_bytes_found [OF _ this] assms(2) obtain p rest
    where "c = p @ rest" "off = of_nat (length p)" "suffix test p" by auto
  then show ?thesis by (auto simp: suffix_def) (metis of_nat_add length_append)
qed

section \<open>Device numbers\<close>

text \<open>
  C39. The number \<open>mknod\<close> gives a device is the one Linux has for it, for the majors that fit twelve bits and
  the minors that fit twenty.
\<close>

theorem mknod_dev_Mkdev:
  assumes "major < 4096" "minor < 1048576"
  shows "mknod_dev (ucast major) (ucast minor) = Mkdev major minor"
proof (rule bit_eqI)
  fix n :: nat
  have M: "12 \<le> k \<Longrightarrow> \<not> bit major k" for k
    by (rule small_word_bits [of major 12 k]) (use assms(1) in \<open>simp_all add: word_less_def\<close>)
  have m: "20 \<le> k \<Longrightarrow> \<not> bit minor k" for k
    by (rule small_word_bits [of minor 20 k]) (use assms(2) in \<open>simp_all add: word_less_def\<close>)
  consider "n < 8" | "8 \<le> n" "n < 20" | "20 \<le> n" "n < 32" | "32 \<le> n" by linarith
  then show "bit (mknod_dev (ucast major) (ucast minor)) n = bit (Mkdev major minor) n"
    unfolding mknod_dev_def Mkdev_def mask_words
    using M [of "n - 8"] M [of "n - 32"] m [of "n - 12"] by cases (auto simp: bit_simps)
qed

theorem mknod_dev_Mkdev_witness: "mknod_dev 7 6 = Mkdev 7 6 \<and> mknod_dev 10 237 = Mkdev 10 237"
  using mknod_dev_Mkdev [of 7 6] mknod_dev_Mkdev [of 10 237] by simp

text \<open>A larger minor number loses its high bits.\<close>

lemma mknod_dev_wide_minor: "mknod_dev 7 1048576 \<noteq> Mkdev 7 1048576"
  by (simp add: mknod_dev_def Mkdev_def)

section \<open>The loop device\<close>

definition no_exec_attach :: "event \<Rightarrow> bool" where
  "no_exec_attach ev = (case ev of EvExecve _ _ _ \<Rightarrow> False | EvAttach _ _ _ \<Rightarrow> False | _ \<Rightarrow> True)"

lemma no_exec_attach_simps [simp]:
  "no_exec_attach (EvRun c)" "no_exec_attach (EvMount m)" "no_exec_attach (EvLog e)" "no_exec_attach (EvPivot s t)"
  "no_exec_attach (EvChroot s)" "no_exec_attach (EvDetach d)" "\<not> no_exec_attach (EvExecve s args env)"
  "\<not> no_exec_attach (EvAttach d r off)"
  by (simp_all add: no_exec_attach_def)

lemma emits_mknod [emits_intros]: "emits P (mknod path mode major minor)"
  unfolding mknod_def by (intro emits_intros)

lemma emits_loop_nodes [emits_intros]: "emits P (loop_nodes ns)"
  by (induction ns) (auto intro!: emits_intros)

lemma emits_ensureloop: "emits no_exec_attach ensureloop"
  unfolding ensureloop_def mountProc_def mountDev_def by (intro emits_intros) simp_all

lemma emits_isDebug [emits_intros]: "emits P (isDebug dc)"
  unfolding isDebug_def by (intro emits_intros)

lemma emits_find_beside [emits_intros]: "emits P (find_beside sfx arg0)"
  by (induction sfx) (auto intro!: emits_intros)

lemma emits_findRoot [emits_intros]: "emits P (findRoot arg0)"
  unfolding findRoot_def inFile_def by (intro emits_intros)

text \<open>\<open>enter_start\<close> records the exec that replaced the process last, or it replaced nothing.\<close>

definition enters_root :: "process \<Rightarrow> string list \<Rightarrow> event \<Rightarrow> bool" where
  "enters_root p args ev = (\<exists>env. ev = EvExecve (p_arg0 p) (''enter-root'' # tl args) env)"

lemma enter_start_events:
  assumes "run_state (enter_start p args) w = (r, w')"
  shows "(r = Inr True \<longrightarrow> (\<exists>ev. enters_root p args ev \<and> w_trace w' = w_trace w @ [ev]))
    \<and> (r \<noteq> Inr True \<longrightarrow> w_trace w' = w_trace w \<or> (\<exists>c. w_trace w' = w_trace w @ [EvRun c]))
    \<and> (p_pid p = 1 \<longrightarrow> r \<noteq> Inr False)"
  using assms
  by (auto simp: enter_start_def Environ_def cmd_Run_def enters_root_def
      split: list.splits if_splits option.splits sum.splits prod.splits dest: sys_Exec_trace)

text \<open>
  What holds when \<open>enter_Mount\<close> is done: nothing is attached, or the process is another one; the first process
  starts no other one beside itself.
\<close>

definition loop_settled :: "process \<Rightarrow> string list \<Rightarrow> world \<Rightarrow> goerror + bool \<Rightarrow> world \<Rightarrow> bool" where
  "loop_settled p args w r w' = ((\<exists>es. w_trace w' = w_trace w @ es
     \<and> (if r = Inr True then es \<noteq> [] \<and> enters_root p args (last es)
        else \<forall>dev root off. EvAttach dev root off \<in> set es \<longrightarrow> last es = EvDetach dev))
     \<and> (p_pid p = 1 \<longrightarrow> r \<noteq> Inr False))"

lemma loop_settled_before:
  assumes "loop_settled p args v r w'" "added no_exec_attach w v"
  shows "loop_settled p args w r w'"
proof -
  obtain es where e: "w_trace v = w_trace w @ es" "list_all no_exec_attach es" using assms(2) by (auto simp: added_def)
  obtain fs where f: "w_trace w' = w_trace v @ fs" "if r = Inr True then fs \<noteq> [] \<and> enters_root p args (last fs)
        else \<forall>dev root off. EvAttach dev root off \<in> set fs \<longrightarrow> last fs = EvDetach dev" and pid: "p_pid p = 1 \<longrightarrow> r \<noteq> Inr False"
    using assms(1) by (auto simp: loop_settled_def)
  have no: "EvAttach dev root off \<notin> set es" for dev root off using e(2) by (auto simp: list_all_iff)
  have "if r = Inr True then es @ fs \<noteq> [] \<and> enters_root p args (last (es @ fs))
        else \<forall>dev root off. EvAttach dev root off \<in> set (es @ fs) \<longrightarrow> last (es @ fs) = EvDetach dev"
    using f(2) no by (cases "fs = []") (auto split: if_splits)
  then show ?thesis unfolding loop_settled_def using f(1) e(1) pid by (intro conjI exI [of _ "es @ fs"]) simp_all
qed

lemma loop_settled_error: "added no_exec_attach w v \<Longrightarrow> loop_settled p args w (Inl e) v"
  by (rule loop_settled_before [of _ _ v]) (simp_all add: loop_settled_def)

lemma enter_start_settled: "wp (enter_start p args) (loop_settled p args w) w"
  by (rule wpI) (drule enter_start_events, auto simp: loop_settled_def enters_root_def)

lemma enter_image_settled: "wp (enter_image p args root off) (loop_settled p args w) w"
proof (cases "p_attach p root off")
  case (Inr dev)
  let ?v = "w\<lparr>w_trace := w_trace w @ [EvAttach dev root off], w_env := AList.update ''ENTER_DEVICE'' dev (w_env w)\<rparr>"
  obtain r u where s: "run_state (enter_start p args) ?v = (r, u)" by fastforce
  show ?thesis
    using Inr s enter_start_events [OF s]
    by (auto simp: enter_image_def losetup_Attach_def emit_def Setenv_def wp_def [of "enter_start _ _"] loop_settled_def)
qed (simp add: enter_image_def losetup_Attach_def loop_settled_def)

lemma enter_rest_settled:
  assumes "added no_exec_attach w v"
  shows "wp (if d then enter_start p args else enter_image p args root off) (loop_settled p args w) v"
proof -
  have "wp (enter_start p args) (loop_settled p args w) v" "wp (enter_image p args root off) (loop_settled p args w) v"
    by (rule wp_mono [OF enter_start_settled], erule loop_settled_before [OF _ assms])
      (rule wp_mono [OF enter_image_settled], erule loop_settled_before [OF _ assms])
  then show ?thesis by simp
qed

lemma enter_Mount_settled: "wp (enter_Mount p dc data args) (loop_settled p args w) w"
  unfolding enter_Mount_def
proof (rule wp_added_bind [OF added_refl emits_ensureloop], rule wp_added_onok)
  fix v and l :: unit
  assume v: "added no_exec_attach w v"
  show "wp (do {
     d \<leftarrow> isDebug dc;
     _ \<leftarrow> (if d \<or> p_debug p then Setenv ''ENTER_DEBUG'' ''true'' else State_Monad.return ());
     fr \<leftarrow> findRoot (p_arg0 p);
     onok fr (\<lambda>ro. case ro of (root, offset) \<Rightarrow> do {
       _ \<leftarrow> Setenv ''ENTER_DATA'' data;
       _ \<leftarrow> Setenv ''ENTER_ROOT'' root;
       st \<leftarrow> os_Stat root;
       (case st of
          Inl e \<Rightarrow> State_Monad.return (Inl (ErrWrap (''failed to find '' @ root) e))
        | Inr fi \<Rightarrow> if IsDir fi then enter_start p args else enter_image p args root offset) }) }) (loop_settled p args w) v"
    by (rule wp_added_bind [OF v emits_isDebug], erule wp_added_bind, (intro emits_intros)[1],
        erule wp_added_bind, (intro emits_intros)[1], erule wp_added_onok, erule loop_settled_error,
        clarsimp simp del: wp_bind,
        erule wp_added_bind, (intro emits_intros)[1], erule wp_added_bind, (intro emits_intros)[1],
        erule wp_added_bind, (intro emits_intros)[1])
      (auto split: sum.split simp: loop_settled_error enter_rest_settled [unfolded if_bool_eq_conj, simplified])
qed (simp_all add: loop_settled_error)
text \<open>
  C7. \<open>Mount\<close> leaks no loop device: when it returns, whatever failed, the device it attached has been
  detached, and that was the last thing it did; only a process that has become \<^verbatim>\<open>enter-root\<close> keeps it.
\<close>

theorem enter_Mount_detaches:
  assumes "run_state (enter_Mount p dc data args) w = (r, w')"
  shows "\<exists>es. w_trace w' = w_trace w @ es
    \<and> (if r = Inr True then \<exists>s as env. last es = EvExecve s as env \<and> es \<noteq> []
       else \<forall>dev root off. EvAttach dev root off \<in> set es \<longrightarrow> last es = EvDetach dev)"
proof -
  have "loop_settled p args w r w'" by (rule wpD [OF enter_Mount_settled assms])
  then show ?thesis unfolding loop_settled_def enters_root_def by (elim conjE exE) (auto split: if_splits)
qed

definition image_world :: world where
  "image_world = (calm_world (([''img''], mkfile ''hsqs'') # map (\<lambda>p. (p, mkdir_inode))
       [[], [''dev''], [''dev'', ''a''], [''dev'', ''b''], [''dev'', ''c'']]))
     \<lparr>w_env := [(''ENTER_ROOT'', ''/img'')]\<rparr>"

definition image_process :: process where
  "image_process = \<lparr>p_arg0 = ''/init'', p_rest = [], p_pid = 2, p_debug = False, p_attach = \<lambda>_ _. Inr ''/dev/loop0''\<rparr>"

theorem enter_Mount_detaches_witness:
  "last (w_trace (snd (run_state (enter_Mount image_process ''k3os.debug'' ''/d'' [''/init'']) image_world))) = EvDetach ''/dev/loop0''"
proof -
  let ?run = "run_state (enter_Mount image_process ''k3os.debug'' ''/d'' [''/init'']) image_world"
  have r: "?run = (fst ?run, snd ?run)" by (rule prod.collapse [symmetric])
  have e: "fst ?run \<noteq> Inr True" "w_trace image_world = []"
    "EvAttach ''/dev/loop0'' ''/img'' 0 \<in> set (w_trace (snd ?run))"
    by code_simp+
  from enter_Mount_detaches [OF r] obtain es where es: "w_trace (snd ?run) = w_trace image_world @ es"
    "\<forall>dev root off. EvAttach dev root off \<in> set es \<longrightarrow> last es = EvDetach dev"
    unfolding if_not_P [OF e(1)] by blast
  then have "w_trace (snd ?run) = es" by (simp only: e(2) append_Nil)
  then show ?thesis using es(2) e(3) by (simp only:)
qed

section \<open>The new root\<close>

definition enter_keys :: "string set" where
  "enter_keys = {''ENTER_ROOT'', ''ENTER_DATA'', ''ENTER_DEVICE''}"

definition rprivate_root :: mountreq where
  "rprivate_root = \<lparr>m_source = [], m_target = ''.'', m_fstype = ''none'', m_flags = MS_PRIVATE OR MS_REC, m_data = []\<rparr>"

lemma ForceMount_rprivate: "ForceMount [] ''.'' ''none'' ''rprivate'' = sys_mount rprivate_root"
  by (simp add: ForceMount_def parseOptions_def parse_option_def mount_flags_def MS_defs mount_call_def onok_unit
      rprivate_root_def)

text \<open>What a run that went well recorded last, and what one that did not never recorded.\<close>

definition init_after :: "string list \<Rightarrow> event list \<Rightarrow> world \<Rightarrow> goerror + unit \<Rightarrow> world \<Rightarrow> bool" where
  "init_after argv steps w r w' =
     (if is_ok r
      then \<exists>es E. w_trace w' = w_trace w @ es @ steps @ [EvExecve ''/usr/init'' argv (environ_list E)]
        \<and> list_all no_exec_attach es \<and> fst ` set E \<inter> enter_keys = {}
      else added no_exec_attach w w')"

lemma init_after_error: "added no_exec_attach w v \<Longrightarrow> init_after argv steps w (Inl e) v"
  by (simp add: init_after_def)

lemma init_after_before:
  assumes "init_after argv steps v r u" "added no_exec_attach w v"
  shows "init_after argv steps w r u"
proof (cases "is_ok r")
  case True
  then obtain fs E where f: "w_trace u = w_trace v @ fs @ steps @ [EvExecve ''/usr/init'' argv (environ_list E)]"
    "list_all no_exec_attach fs" "fst ` set E \<inter> enter_keys = {}"
    using assms(1) by (auto simp: init_after_def)
  obtain es where "w_trace v = w_trace w @ es" "list_all no_exec_attach es" using assms(2) by (auto simp: added_def)
  then show ?thesis using True f unfolding init_after_def
    by (auto intro!: exI [of _ "es @ fs"] exI [of _ E])
qed (use assms in \<open>auto simp: init_after_def intro: added_trans\<close>)

lemma added_same [simp]: "w_trace v = w_trace w \<Longrightarrow> added P w v"
  by (simp add: added_def)

lemma added_one: "w_trace v = w_trace w @ [ev] \<Longrightarrow> P ev \<Longrightarrow> added P w v"
  by (simp add: added_def)

lemma enter_init_trace:
  assumes "run_state (enter_init argv) w = (r, w')"
  shows "(is_ok r \<and> (\<exists>E. w_trace w' = w_trace w @ [EvExecve ''/usr/init'' argv (environ_list E)]
      \<and> fst ` set E \<inter> enter_keys = {})) \<or> (\<not> is_ok r \<and> w_trace w' = w_trace w)"
proof -
  obtain s v where s: "run_state (os_Stat ''/usr/init'') w = (s, v)" by fastforce
  have t: "w_trace v = w_trace w" using emits_run [OF emits_files(1) s, of "\<lambda>_. False"] by (auto simp: list_all_iff)
  show ?thesis
  proof (cases s)
    case (Inr fi)
    let ?E = "AList.delete ''ENTER_DEVICE'' (AList.delete ''ENTER_DATA'' (AList.delete ''ENTER_ROOT'' (w_env v)))"
    have "run_state (sys_Exec ''/usr/init'' argv (environ_list ?E)) (v\<lparr>w_env := ?E\<rparr>) = (r, w')"
      using assms s Inr by (simp add: enter_init_def Unsetenv_def Environ_def environ_list_def)
    from sys_Exec_trace [OF this]
    have "w_trace w' = w_trace w @ (if is_ok r then [EvExecve ''/usr/init'' argv (environ_list ?E)] else [])"
      by (simp add: t)
    moreover have "fst ` set ?E \<inter> enter_keys = {}" by (auto simp: enter_keys_def AList.delete_eq)
    ultimately show ?thesis by (cases "is_ok r") auto
  qed (use assms s t in \<open>auto simp: enter_init_def\<close>)
qed

lemma enter_init_after: "wp (enter_init argv) (init_after argv [] w) w"
  by (rule wpI, drule enter_init_trace) (auto simp: init_after_def)

text \<open>The steps up to the exec are recorded one after the other.\<close>

definition root_steps :: "event list" where
  "root_steps = [EvPivot ''.'' ''.base'', EvMount rprivate_root, EvChroot ''/'']"

lemma enter_pivot_after: "wp (enter_pivot data argv) (init_after argv root_steps w) w"
proof (rule wpI)
  fix r w'
  assume r: "run_state (enter_pivot data argv) w = (r, w')"
  obtain p w1 where p: "run_state (sys_PivotRoot ''.'' ''.base'') w = (p, w1)" by fastforce
  obtain m w2 where m: "run_state (sys_mount rprivate_root) w1 = (m, w2)" by fastforce
  obtain c w3 where c: "run_state (sys_Chroot ''/'') w2 = (c, w3)" by fastforce
  obtain d w4 where d: "run_state (os_Chdir ''/'') w3 = (d, w4)" by fastforce
  obtain i w5 where i: "run_state (enter_init argv) w4 = (i, w5)" by fastforce
  have t1: "w_trace w1 = w_trace w @ (if is_ok p then [EvPivot ''.'' ''.base''] else [])"
    using p by (auto simp: sys_PivotRoot_def tick_def split: option.splits sum.splits)
  have t2: "w_trace w2 = w_trace w1 @ [EvMount rprivate_root]"
    using m by (auto simp: sys_mount_def split: prod.splits option.splits)
  have t3: "w_trace w3 = w_trace w2 @ (if is_ok c then [EvChroot ''/''] else [])"
    using c by (auto simp: sys_Chroot_def tick_def split: option.splits sum.splits)
  have t4: "w_trace w4 = w_trace w3" using emits_run [OF emits_os_Chdir d, of "\<lambda>_. False"] by (auto simp: list_all_iff)
  show "init_after argv root_steps w r w'"
  proof (cases "is_ok p \<and> is_ok m \<and> is_ok c \<and> is_ok d")
    case True
    then have "r = i" "w' = w5" using r p m c d i by (auto simp: enter_pivot_def ForceMount_rprivate is_ok_iff)
    then show ?thesis
      using True t1 t2 t3 t4 enter_init_trace [OF i] by (auto simp: init_after_def root_steps_def added_def)
  next
    case False
    then have "\<not> is_ok r \<and> added no_exec_attach w w'"
      using r p m c d t1 t2 t3 t4
      by (cases p; cases m; cases c; cases d) (auto simp: enter_pivot_def ForceMount_rprivate added_def)
    then show ?thesis by (simp add: init_after_def)
  qed
qed

lemma emits_inProcFS [emits_intros]: "emits no_exec_attach inProcFS"
  unfolding inProcFS_def by (intro emits_intros) simp_all

lemma emits_enter_dirs [emits_intros]: "emits P (enter_dirs data ds)"
  by (induction ds) (auto intro!: emits_intros)

lemma emits_enter_links [emits_intros]: "emits P (enter_links ps)"
  by (induction ps) (auto intro!: emits_intros)

lemma emits_enter_usr: "emits no_exec_attach (enter_usr root device usr)"
  unfolding enter_usr_def checkSquashfs_def by (intro emits_intros) simp_all

lemma emits_enter_data: "emits no_exec_attach (enter_data data)"
  unfolding enter_data_def by (intro emits_intros) simp_all

text \<open>
  C6. \<^verbatim>\<open>/usr/init\<close> is started as the last thing and only in the new root: the data directory has become the
  root, mounts no longer propagate to the old one, and the variables the two stages share are gone from the
  environment. A run that fails starts nothing.
\<close>

theorem enter_run_init_in_new_root:
  assumes "run_state (enter_run argv data) w = (r, w')"
  shows "if is_ok r
    then \<exists>es E. w_trace w' = w_trace w @ es @ [EvPivot ''.'' ''.base'', EvMount rprivate_root, EvChroot ''/'',
           EvExecve ''/usr/init'' argv (environ_list E)]
        \<and> list_all no_exec_attach es \<and> fst ` set E \<inter> enter_keys = {}
    else \<exists>es. w_trace w' = w_trace w @ es \<and> list_all no_exec_attach es"
proof -
  have "wp (enter_run argv data) (init_after argv root_steps w) w"
    unfolding enter_run_def Let_def
    apply (rule wp_added_bind [OF added_refl emits_enter_data], erule wp_added_onok, erule init_after_error)
    apply (erule wp_added_bind, rule emits_environment, erule wp_added_bind, rule emits_environment)
    apply (erule wp_added_bind, rule emits_enter_dirs, erule wp_added_onok, erule init_after_error)
    apply (erule wp_added_bind, rule emits_enter_usr, erule wp_added_onok, erule init_after_error)
    apply (erule wp_added_bind, rule emits_os_Chdir, erule wp_added_onok, erule init_after_error)
    apply (erule wp_added_bind, rule emits_enter_links, erule wp_added_onok, erule init_after_error)
    apply (rule wp_mono [OF enter_pivot_after], erule init_after_before, assumption)
    done
  from wpD [OF this assms] show ?thesis
    unfolding init_after_def root_steps_def added_def append.simps .
qed

text \<open>A data directory that the table of mounts names.\<close>

definition data_tree :: fs where
  "data_tree = (table_path, mkfile (''20 1 0:5 / /d rw - proc proc rw'' @ [newline]))
     # map (\<lambda>p. (p, mkdir_inode)) [[], [''proc''], [''proc'', ''self''], [''d''], [''d'', ''usr''], [''d'', ''.base'']]
     @ [([''d'', ''usr'', ''init''], (mkfile ''#!'')\<lparr>i_mode := 493\<rparr>)]"

definition data_world :: world where
  "data_world = (calm_world data_tree)\<lparr>w_env := [(''ENTER_DATA'', ''/d''), (''TERM'', ''linux'')]\<rparr>"

theorem enter_run_init_in_new_root_witness:
  "\<exists>es E. w_trace (snd (run_state (enter_run [''init''] ''/d'') data_world))
     = es @ [EvPivot ''.'' ''.base'', EvMount rprivate_root, EvChroot ''/'', EvExecve ''/usr/init'' [''init''] (environ_list E)]"
proof -
  obtain r w' where r: "run_state (enter_run [''init''] ''/d'') data_world = (r, w')" by fastforce
  have "is_ok (fst (run_state (enter_run [''init''] ''/d'') data_world))" by code_simp
  then have "is_ok r" by (simp only: r fst_conv)
  with enter_run_init_in_new_root [OF r] obtain es E where "w_trace w' = w_trace data_world @ es @
      [EvPivot ''.'' ''.base'', EvMount rprivate_root, EvChroot ''/'', EvExecve ''/usr/init'' [''init''] (environ_list E)]"
    by (simp only: if_True) blast
  moreover have "w_trace data_world = []" by code_simp
  ultimately show ?thesis unfolding r snd_conv by (metis append_Nil)
qed

end
