(* ===== verification/Transferroot.thy ===== *)
theory Transferroot
  imports GoCopy Traces
begin

text \<open>
  \<^verbatim>\<open>pkg/transferroot/transferroot.go\<close>: the files of an initial ram file system are moved to a new one that can be
  pivoted from, and the program starts again there. Which device a file is on is what the kernel says: a
  parameter of type \<open>devices\<close>, as is the kind of the file system.
\<close>

section \<open>Calls\<close>

type_synonym devices = "world \<Rightarrow> path \<Rightarrow> int"

text \<open>\<open>lstat\<close> and \<open>stat\<close> with the device number of the file.\<close>

definition stat_dev :: "devices \<Rightarrow> bool \<Rightarrow> string \<Rightarrow> (fileinfo \<times> int) os" where
  "stat_dev dv follow s = fs_call (\<lambda>w. with_inode w follow s
     (\<lambda>p i. Inr ((\<lparr>fi_name = path_Base s, fi_inode = i\<rparr>, dv w p), w_fs w)))"

definition os_Lchown :: "string \<Rightarrow> int \<Rightarrow> int \<Rightarrow> unit os" where
  "os_Lchown s uid gid = fs_call (\<lambda>w. with_inode w False s
     (\<lambda>p i. Inr ((), fs_put p (i\<lparr>i_uid := uid, i_gid := gid\<rparr>) (w_fs w))))"

text \<open>Times are not part of the model; setting them is a call that may fail.\<close>

definition os_UtimesNano :: "string \<Rightarrow> unit os" where
  "os_UtimesNano s = fs_call (\<lambda>w. with_inode w False s (\<lambda>p i. Inr ((), w_fs w)))"

text \<open>\<open>open\<close> with \<open>O_WRONLY|O_CREATE\<close>: a file that is there keeps its content, which a write replaces from the start.\<close>

definition os_OpenCreate :: "string \<Rightarrow> filemode \<Rightarrow> path os" where
  "os_OpenCreate s perm = fs_call (\<lambda>w. with_path w True s
     (\<lambda>p. case fs_get (w_fs w) p of
        None \<Rightarrow>
         (case new_inode p \<lparr>i_kind = KReg [], i_mode = syscallMode perm AND NOT (w_umask w),
                            i_uid = w_uid w, i_gid = w_uid w\<rparr> (w_fs w) of
            Inl e \<Rightarrow> Inl e | Inr f \<Rightarrow> Inr (p, f))
      | Some i \<Rightarrow> (case i_kind i of KDir \<Rightarrow> Inl EISDIR | KLink _ \<Rightarrow> Inl ELOOP | _ \<Rightarrow> Inr (p, w_fs w))))"

definition overwrite_file :: "path \<Rightarrow> string \<Rightarrow> fs \<Rightarrow> fs" where
  "overwrite_file p data f =
     (case fs_get f p of
        Some i \<Rightarrow> (case i_kind i of
            KReg c \<Rightarrow> fs_put p (i\<lparr>i_kind := KReg (data @ drop (length data) c)\<rparr>) f | _ \<Rightarrow> f)
      | None \<Rightarrow> f)"

definition io_CopyBuffer :: "path \<Rightarrow> path \<Rightarrow> unit os" where
  "io_CopyBuffer dst src = do {
     d \<leftarrow> fd_ReadAll src;
     r \<leftarrow> fs_call_part (\<lambda>k w. overwrite_file dst (take k (fst d)) (w_fs w))
            (\<lambda>w. Inr ((), overwrite_file dst (fst d) (w_fs w)));
     onok r (\<lambda>_. State_Monad.return (case snd d of None \<Rightarrow> Inr () | Some e \<Rightarrow> Inl e)) }"

section \<open>Walking a tree\<close>

text \<open>
  \<^verbatim>\<open>filepath.Walk\<close>: the names of a directory are read before the function sees it; \<open>SkipDir\<close> is the error with
  which the function keeps the walk out of a directory. The depth is bounded as that of \<open>copy_go\<close> is.
\<close>

type_synonym walkfn = "string \<Rightarrow> (fileinfo \<times> int) option \<Rightarrow> goerror option \<Rightarrow> unit os"

definition SkipDir :: goerror where "SkipDir = ErrMsg ''skip this directory''"

primrec walk_names :: "devices \<Rightarrow> (string \<Rightarrow> fileinfo \<times> int \<Rightarrow> unit os) \<Rightarrow> walkfn \<Rightarrow> string \<Rightarrow> string list \<Rightarrow> unit os" where
  "walk_names dv wk fn path [] = State_Monad.return (Inr ())"
| "walk_names dv wk fn path (name # names) = do {
     let filename = path_Join [path, name];
     fi \<leftarrow> stat_dev dv False filename;
     (case fi of
        Inl e \<Rightarrow> do {
          r \<leftarrow> fn filename None (Some e);
          (case r of
             Inl e' \<Rightarrow> if e' \<noteq> SkipDir then State_Monad.return (Inl e') else walk_names dv wk fn path names
           | Inr _ \<Rightarrow> walk_names dv wk fn path names) }
      | Inr info \<Rightarrow> do {
          r \<leftarrow> wk filename info;
          (case r of
             Inl e \<Rightarrow> if \<not> IsDir (fst info) \<or> e \<noteq> SkipDir then State_Monad.return (Inl e)
                       else walk_names dv wk fn path names
           | Inr _ \<Rightarrow> walk_names dv wk fn path names) }) }"

primrec walk :: "devices \<Rightarrow> walkfn \<Rightarrow> nat \<Rightarrow> string \<Rightarrow> fileinfo \<times> int \<Rightarrow> unit os" where
  "walk dv fn 0 = (\<lambda>path info. State_Monad.return (Inl (Errno ENAMETOOLONG)))"
| "walk dv fn (Suc n) = (\<lambda>path info.
     if \<not> IsDir (fst info) then fn path (Some info) None
     else do {
       names \<leftarrow> os_ReadDir path;
       (case names of
          Inl e \<Rightarrow> fn path (Some info) (Some e)
        | Inr names \<Rightarrow> do {
            r \<leftarrow> fn path (Some info) None;
            onok r (\<lambda>_. walk_names dv (walk dv fn n) fn path names) }) })"

definition Walk :: "devices \<Rightarrow> string \<Rightarrow> walkfn \<Rightarrow> unit os" where
  "Walk dv root fn = do {
     info \<leftarrow> stat_dev dv False root;
     r \<leftarrow> (case info of Inl e \<Rightarrow> fn root None (Some e) | Inr i \<Rightarrow> walk dv fn copy_depth root i);
     State_Monad.return (if r = Inl SkipDir then Inr () else r) }"

text \<open>The functions of the program return an error they are given at once.\<close>

definition walk_step :: "(string \<Rightarrow> fileinfo \<Rightarrow> int \<Rightarrow> unit os) \<Rightarrow> walkfn" where
  "walk_step f path info err =
     (case err of
        Some e \<Rightarrow> State_Monad.return (Inl e)
      | None \<Rightarrow> (case info of
            Some (fi, dev) \<Rightarrow> f path fi dev
          | None \<Rightarrow> State_Monad.return (Inl (GoPanic ''invalid memory address or nil pointer dereference''))))"

section \<open>Copying\<close>

definition copyMetadata :: "fileinfo \<Rightarrow> string \<Rightarrow> unit os" where
  "copyMetadata info path = do {
     c \<leftarrow> os_Lchown path (i_uid (fi_inode info)) (i_gid (fi_inode info));
     onok c (\<lambda>_. do {
       t \<leftarrow> os_UtimesNano path;
       onok t (\<lambda>_. if is_link info then State_Monad.return (Inr ()) else os_Chmod path (fi_Mode info)) }) }"

text \<open>The first walk: the directories.\<close>

definition copy_directory :: "int \<Rightarrow> string \<Rightarrow> string \<Rightarrow> fileinfo \<Rightarrow> int \<Rightarrow> unit os" where
  "copy_directory rootDev newRoot path info dev =
     (if \<not> IsDir info then State_Monad.return (Inr ())
      else let dest = path_Join [newRoot, path] in do {
        m \<leftarrow> (if path = ''/'' then os_Chmod newRoot (fi_Mode info) else os_Mkdir dest (fi_Mode info));
        onok m (\<lambda>_. do {
          c \<leftarrow> copyMetadata info dest;
          onok c (\<lambda>_. State_Monad.return (if rootDev \<noteq> dev then Inl SkipDir else Inr ())) }) })"

text \<open>The second walk: everything else is moved. A file mode of Go goes into \<^verbatim>\<open>mknod\<close> as it is.\<close>

definition move_file :: "string \<Rightarrow> string \<Rightarrow> filemode \<Rightarrow> unit os" where
  "move_file path dest mode = do {
     n \<leftarrow> os_OpenCreate dest mode;
     onok n (\<lambda>n. do {
       old \<leftarrow> os_Open path;
       onok old (\<lambda>old. do {
         c \<leftarrow> io_CopyBuffer n old;
         onok c (\<lambda>_. do {
           a \<leftarrow> fd_Close old;
           onok a (\<lambda>_. do {
             b \<leftarrow> fd_Close n;
             onok b (\<lambda>_. do {
               _ \<leftarrow> os_Remove path;
               State_Monad.return (Inr ()) }) }) }) }) }) }"

definition move_node :: "string \<Rightarrow> string \<Rightarrow> fileinfo \<Rightarrow> unit os" where
  "move_node path dest info =
     (case i_kind (fi_inode info) of
        KDir \<Rightarrow> State_Monad.return (Inr ())
      | KReg _ \<Rightarrow> move_file path dest (fi_Mode info)
      | KLink _ \<Rightarrow> do { link \<leftarrow> os_Readlink path; onok link (\<lambda>link. os_Symlink link dest) }
      | KDev _ rdev \<Rightarrow> os_Mknod dest (fi_Mode info) rdev
      | KFifo \<Rightarrow> os_Mknod dest (fi_Mode info OR 4096) 0
      | KSock \<Rightarrow> State_Monad.return (Inl (ErrMsg ''Unsupported socket on rootfs'')))"

definition move_entry :: "int \<Rightarrow> string \<Rightarrow> string \<Rightarrow> fileinfo \<Rightarrow> int \<Rightarrow> unit os" where
  "move_entry rootDev newRoot path info dev =
     (if rootDev \<noteq> dev \<and> IsDir info then State_Monad.return (Inl SkipDir)
      else if IsDir info then State_Monad.return (Inr ())
      else let dest = path_Join [newRoot, path] in do {
        m \<leftarrow> move_node path dest info;
        onok m (\<lambda>_. copyMetadata info dest) })"

text \<open>The third walk: what is left of the old tree goes.\<close>

definition delete_entry :: "int \<Rightarrow> string \<Rightarrow> fileinfo \<Rightarrow> int \<Rightarrow> unit os" where
  "delete_entry rootDev path info dev =
     (if path = ''/'' then State_Monad.return (Inr ())
      else if IsDir info then
        (if rootDev \<noteq> dev then State_Monad.return (Inl SkipDir)
         else do { _ \<leftarrow> os_RemoveAll path; State_Monad.return (Inl SkipDir) })
      else do { _ \<leftarrow> os_Remove path; State_Monad.return (Inr ()) })"

definition move_request :: mountreq where
  "move_request = \<lparr>m_source = ''.'', m_target = ''/'', m_fstype = [], m_flags = 8192, m_data = []\<rparr>"

definition copyFS :: "devices \<Rightarrow> string \<Rightarrow> unit os" where
  "copyFS dv newRoot = do {
     info \<leftarrow> stat_dev dv True ''/'';
     onok info (\<lambda>info. do {
       let rootDev = snd info;
       m \<leftarrow> sys_mount \<lparr>m_source = ''rootfs'', m_target = newRoot, m_fstype = ''tmpfs'', m_flags = 0, m_data = []\<rparr>;
       onok m (\<lambda>_. do {
         a \<leftarrow> Walk dv ''/'' (walk_step (copy_directory rootDev newRoot));
         onok a (\<lambda>_. do {
           b \<leftarrow> Walk dv ''/'' (walk_step (move_entry rootDev newRoot));
           onok b (\<lambda>_. do {
             c \<leftarrow> os_Chdir newRoot;
             onok c (\<lambda>_. do {
               d \<leftarrow> Walk dv ''/'' (walk_step (delete_entry rootDev));
               onok d (\<lambda>_. do {
                 mv \<leftarrow> sys_mount move_request;
                 onok mv (\<lambda>_. do {
                   ch \<leftarrow> sys_Chroot ''.'';
                   onok ch (\<lambda>_. os_Chdir ''/'') }) }) }) }) }) }) }) }"

section \<open>Starting again\<close>

definition relocated :: string where "relocated = ''K3OS_RELOCATED''"
definition nextInit :: string where "nextInit = ''/init''"
definition ramfsMagic :: int where "ramfsMagic = - 2054924042"
definition tmpfsMagic :: int where "tmpfsMagic = 16914836"

text \<open>The value of these parts: does the function return to its caller.\<close>

definition restart_init :: "(world, bool) state" where
  "restart_init = do {
     env \<leftarrow> Environ;
     x \<leftarrow> sys_Exec nextInit [nextInit] (env @ [''K3OS_RELOCATED=true'']);
     (case x of
        Inl _ \<Rightarrow> do { _ \<leftarrow> fatal (ErrMsg ''Cannot exec /sbin/init''); State_Monad.return False }
      | Inr _ \<Rightarrow> State_Monad.return False) }"

definition relocate_root :: "devices \<Rightarrow> (world, bool) state" where
  "relocate_root dv = do {
     m \<leftarrow> os_MkdirAll ''/mnt'' 493;
     (case m of
        Inl _ \<Rightarrow> do { _ \<leftarrow> fatal (ErrMsg ''Failed to mkdir /mnt''); State_Monad.return False }
      | Inr _ \<Rightarrow> do {
          c \<leftarrow> copyFS dv ''/mnt'';
          (case c of
             Inl e \<Rightarrow> do { _ \<leftarrow> fatal (ErrWrap ''Copy root failed'' e); State_Monad.return False }
           | Inr _ \<Rightarrow> restart_init) }) }"

text \<open>\<open>sfs\<close> is what \<open>statfs\<close> says of the working directory.\<close>

definition Relocate :: "devices \<Rightarrow> (world \<Rightarrow> errno + int) \<Rightarrow> (world, bool) state" where
  "Relocate dv sfs = do {
     r \<leftarrow> Getenv relocated;
     if r = ''true'' then do { _ \<leftarrow> Unsetenv relocated; State_Monad.return True }
     else do {
       w \<leftarrow> State_Monad.get;
       (case sfs w of
          Inl e \<Rightarrow> do { _ \<leftarrow> fatal (ErrWrap ''Cannot statfs cwd'' (Errno e)); State_Monad.return False }
        | Inr typ \<Rightarrow>
           if typ = ramfsMagic \<or> typ = tmpfsMagic then relocate_root dv else State_Monad.return True) } }"

section \<open>The parts are programs\<close>

lemma program_stat_dev [program_intros]: "program (stat_dev dv follow s)"
  unfolding stat_dev_def by (rule program_fs_call) (auto simp: path_cases split: sum.splits option.splits)

lemma program_os_Lchown [program_intros]: "program (os_Lchown s u g)"
  unfolding os_Lchown_def
  by (rule program_fs_call) (auto simp: path_cases split: sum.splits option.splits intro!: k_change)

lemma program_os_UtimesNano [program_intros]: "program (os_UtimesNano s)"
  unfolding os_UtimesNano_def by (rule program_fs_call) (auto simp: path_cases split: sum.splits option.splits)

lemma program_os_OpenCreate [program_intros]: "program (os_OpenCreate s perm)"
  unfolding os_OpenCreate_def
  by (rule program_fs_call) (auto simp: path_cases split: sum.splits option.splits kind.splits intro: k_new)

lemma ksteps_overwrite: "ksteps w (w\<lparr>w_fs := overwrite_file p data (w_fs w)\<rparr>)"
  by (auto simp: overwrite_file_def split: option.split kind.split intro!: r_into_rtranclp k_change)

lemma program_io_CopyBuffer [program_intros]: "program (io_CopyBuffer d s)"
  unfolding io_CopyBuffer_def
  by (intro program_intros program_fs_call_part) (auto intro: ksteps_overwrite)

lemma program_walk_names [program_intros]:
  "(\<And>p i. program (wk p i)) \<Longrightarrow> (\<And>p i e. program (fn p i e)) \<Longrightarrow> program (walk_names dv wk fn path ns)"
  by (induction ns) (auto simp: Let_def intro!: program_intros)

lemma program_walk [program_intros]: "(\<And>p i e. program (fn p i e)) \<Longrightarrow> program (walk dv fn n path info)"
  by (induction n arbitrary: path info) (auto intro!: program_intros)

lemma program_Walk [program_intros]: "(\<And>p i e. program (fn p i e)) \<Longrightarrow> program (Walk dv root fn)"
  unfolding Walk_def by (intro program_intros)

lemma program_walk_step [program_intros]: "(\<And>p i d. program (f p i d)) \<Longrightarrow> program (walk_step f path info err)"
  unfolding walk_step_def by (intro program_intros)

lemma program_copyMetadata [program_intros]: "program (copyMetadata info path)"
  unfolding copyMetadata_def by (intro program_intros)

lemma program_copy_directory [program_intros]: "program (copy_directory rd nr path info dev)"
  unfolding copy_directory_def Let_def by (intro program_intros)

lemma program_move_node [program_intros]: "program (move_node path dest info)"
  unfolding move_node_def move_file_def by (cases "i_kind (fi_inode info)") (auto intro!: program_intros)

lemma program_move_entry [program_intros]: "program (move_entry rd nr path info dev)"
  unfolding move_entry_def Let_def by (intro program_intros)

lemma program_delete_entry [program_intros]: "program (delete_entry rd path info dev)"
  unfolding delete_entry_def by (intro program_intros)

lemma program_copyFS [program_intros]: "program (copyFS dv nr)"
  unfolding copyFS_def Let_def by (intro program_intros)

lemma program_get [program_intros]: "program State_Monad.get"
  by (rule programI) simp

lemma program_Relocate [program_intros]: "program (Relocate dv sfs)"
  unfolding Relocate_def relocate_root_def restart_init_def by (intro program_intros)

end
