(* ===== verification/TransferLaws.thy ===== *)
theory TransferLaws
  imports Transferroot
begin

text \<open>
  What moving the root promises: no file is lost on the way, the new root is spared when the old tree is deleted, and
  the program goes on only with the tree it had, or starts again, or ends.
\<close>

section \<open>Moving a file\<close>

lemma fd_ReadAll_file:
  "file_is p c w \<Longrightarrow> \<exists>k e. fst (run_state (fd_ReadAll p) w) \<in> {(c, None), (take k c, Some (Errno e))}
     \<and> snd (run_state (fd_ReadAll p) w) = tick w"
  by (auto simp: fd_ReadAll_def file_is_def split: option.split)

lemma file_is_overwrite:
  assumes "file_is q b w" "w_fs v = overwrite_file q data (w_fs w)"
  shows "file_is q (data @ drop (length data) b) v"
    and "file_is p c w \<Longrightarrow> p \<noteq> q \<Longrightarrow> file_is p c v"
    and "x \<noteq> q \<Longrightarrow> fs_get (w_fs v) x = fs_get (w_fs w) x"
proof -
  obtain i where i: "fs_get (w_fs w) q = Some i" "i_kind i = KReg b" using assms(1) by (auto simp: file_is_def)
  have f: "fs_get (w_fs v) x = (if x = q then Some (i\<lparr>i_kind := KReg (data @ drop (length data) b)\<rparr>) else fs_get (w_fs w) x)" for x
    using i assms(2) by (simp add: overwrite_file_def)
  have nd: "\<not> is_dir (w_fs w) q" using i by (simp add: is_dir_def)
  show "x \<noteq> q \<Longrightarrow> fs_get (w_fs v) x = fs_get (w_fs w) x" by (simp add: f)
  show "file_is p c w \<Longrightarrow> p \<noteq> q \<Longrightarrow> file_is p c v"
    by (rule file_is_other [of _ _ w q]) (use f nd in simp_all)
  have "direct (w_fs v) q"
    by (rule direct_mono [of "w_fs w"]) (use assms(1) f nd in \<open>auto simp: file_is_def is_dir_def split: if_splits\<close>)
  then show "file_is q (data @ drop (length data) b) v" by (simp add: file_is_def f)
qed

text \<open>While the file is being moved: the old file is complete, the new one has \<open>d\<close>.\<close>

definition moving :: "world \<Rightarrow> path \<Rightarrow> path \<Rightarrow> string \<Rightarrow> string \<Rightarrow> world \<Rightarrow> bool" where
  "moving w p q c d v = (file_is p c v \<and> file_is q d v \<and> (\<forall>x. x \<notin> {p, q} \<longrightarrow> fs_get (w_fs v) x = fs_get (w_fs w) x))"

lemma moving_tick [simp]: "moving w p q c d (tick v) = moving w p q c d v"
  by (simp add: moving_def)

definition move_safe :: "world \<Rightarrow> path \<Rightarrow> path \<Rightarrow> string \<Rightarrow> goerror + unit \<Rightarrow> world \<Rightarrow> bool" where
  "move_safe w p q c r v = ((file_is p c v \<or> file_is q c v) \<and> (is_ok r \<longrightarrow> file_is q c v)
     \<and> (\<forall>x. x \<notin> {p, q} \<longrightarrow> fs_get (w_fs v) x = fs_get (w_fs w) x))"

lemma move_safe_error: "moving w p q c d v \<Longrightarrow> move_safe w p q c (Inl e) v"
  by (simp add: moving_def move_safe_def)

lemma wp_os_OpenCreate_new:
  assumes "direct (w_fs w) q" "fs_get (w_fs w) q = None" "\<And>e. Q (Inl e) (tick w)"
    and "\<And>i. i_kind i = KReg [] \<Longrightarrow> Q (Inr q) ((tick w)\<lparr>w_fs := fs_put q i (w_fs w)\<rparr>)"
  shows "wp (os_OpenCreate (abs_path q) perm) Q w"
proof -
  have "resolve w True (abs_path q) = Inr q" by (rule resolve_abs) (use assms(1,2) in auto)
  then show ?thesis
    unfolding os_OpenCreate_def
    by (intro wp_fs_call) (use assms in \<open>auto simp: with_path_def new_inode_def split: if_splits\<close>)
qed

lemma wp_io_CopyBuffer:
  assumes "moving w p q c [] v" "p \<noteq> q"
    and "\<And>d e u. moving w p q c d u \<Longrightarrow> Q (Inl e) u" "\<And>u. moving w p q c c u \<Longrightarrow> Q (Inr ()) u"
  shows "wp (io_CopyBuffer q p) Q v"
proof -
  have f: "file_is p c v" "file_is q [] v" using assms(1) by (simp_all add: moving_def)
  have over: "moving w p q c data u" if "w_fs u = overwrite_file q data (w_fs v)" for u data
    using file_is_overwrite [OF f(2), of u data] that assms(1,2) by (auto simp: moving_def)
  obtain d k e where d: "run_state (fd_ReadAll p) v = (d, tick v)" "d \<in> {(c, None), (take k c, Some (Errno e))}"
    using fd_ReadAll_file [OF f(1)] by (metis prod.collapse)
  show ?thesis
    unfolding io_CopyBuffer_def wp_bind [of "fd_ReadAll _"] wp_def [of "fd_ReadAll _"] d(1) prod.case wp_bind
  proof (rule wp_fs_call_part, goal_cases)
    case (1 e k)
    then show ?case by (simp add: assms(3) [OF over])
  next
    case (3 a f)
    then have m: "moving w p q c (fst d) ((tick (tick v))\<lparr>w_fs := f\<rparr>)" by (intro over) simp
    then show ?case using d(2) assms(3) [OF m] assms(4) [of "(tick (tick v))\<lparr>w_fs := f\<rparr>"] by auto
  qed simp
qed

lemma wp_close_onok:
  assumes "\<And>e. Q (Inl e) (tick v)" "wp m Q (tick v)"
  shows "wp (do { r \<leftarrow> fd_Close h; onok r (\<lambda>_. m) }) Q v"
proof -
  have "wp (fd_Close h) (\<lambda>r. wp (onok r (\<lambda>_. m)) Q) v"
    by (rule wp_fd_Close) (simp add: wp_onok assms split: sum.split)
  then show ?thesis by simp
qed

lemma wp_remove_moved:
  assumes "moving w p q c c v" "p \<noteq> q"
  shows "wp (do { _ \<leftarrow> os_Remove (abs_path p); State_Monad.return (Inr ()) }) (move_safe w p q c) v"
  unfolding wp_bind
proof (rule wp_os_Remove, goal_cases)
  case (1 e)
  then show ?case using assms(1) by (simp add: move_safe_def moving_def)
next
  case (2 p' i)
  have "resolve v False (abs_path p) = Inr p" by (rule resolve_abs) (use assms(1) in \<open>auto simp: moving_def file_is_def\<close>)
  then have p': "p' = p" using 2 by simp
  have nd: "\<not> is_dir (w_fs v) p" using assms(1) by (auto simp: moving_def file_is_def is_dir_def)
  have "file_is q c ((tick v)\<lparr>w_fs := fs_del p' (w_fs v)\<rparr>)"
    by (rule file_is_other [of _ _ v p]) (use assms p' nd in \<open>auto simp: moving_def\<close>)
  then show ?case using assms p' by (simp add: move_safe_def moving_def)
qed

text \<open>
  C9. Moving a file to the new root loses it under no schedule of failures: the old file is there whole or the new
  one is, after a success the new one is, and no other file changes.
\<close>

theorem move_file_never_loses:
  assumes old: "file_is p c w" and new: "direct (w_fs w) q" "fs_get (w_fs w) q = None"
    and run: "run_state (move_file (abs_path p) (abs_path q) mode) w = (r, w')"
  shows "(file_is p c w' \<or> file_is q c w') \<and> (is_ok r \<longrightarrow> file_is q c w')
    \<and> (\<forall>x. x \<notin> {p, q} \<longrightarrow> fs_get (w_fs w') x = fs_get (w_fs w) x)"
proof -
  have ne: "p \<noteq> q" using old new by (auto simp: file_is_def)
  have close: "wp (do { a \<leftarrow> fd_Close p; onok a (\<lambda>_. do { b \<leftarrow> fd_Close q;
        onok b (\<lambda>_. do { _ \<leftarrow> os_Remove (abs_path p); State_Monad.return (Inr ()) }) }) }) (move_safe w p q c) v"
    if "moving w p q c c v" for v
    by (intro wp_close_onok wp_remove_moved) (use that ne in \<open>auto intro: move_safe_error\<close>)
  have rest: "wp (do { old \<leftarrow> os_Open (abs_path p); onok old (\<lambda>old. do {
         c \<leftarrow> io_CopyBuffer q old;
         onok c (\<lambda>_. do { a \<leftarrow> fd_Close old; onok a (\<lambda>_. do { b \<leftarrow> fd_Close q;
           onok b (\<lambda>_. do { _ \<leftarrow> os_Remove (abs_path p); State_Monad.return (Inr ()) }) }) }) }) }) (move_safe w p q c) v"
    if m: "moving w p q c [] v" for v
  proof -
    have "resolve v True (abs_path p) = Inr p" by (rule resolve_abs) (use m in \<open>auto simp: moving_def file_is_def\<close>)
    then have o: "resolve v True (abs_path p) = Inr x \<Longrightarrow> x = p" for x by simp
    show ?thesis
      unfolding wp_bind [of "os_Open _"]
    proof (rule wp_os_Open, goal_cases)
      case (1 e)
      then show ?case using move_safe_error [of w p q c "[]" "tick v"] m by simp
    next
      case (2 x i)
      then have "x = p" by (intro o)
      moreover have "moving w p q c [] (tick v)" using m by simp
      ultimately show ?case
        unfolding onok_simps wp_bind [of "io_CopyBuffer _ _"]
        by (auto simp: move_safe_error simp del: wp_bind intro!: wp_io_CopyBuffer [of w p q c] ne close)
    qed
  qed
  have "wp (move_file (abs_path p) (abs_path q) mode) (move_safe w p q c) w"
    unfolding move_file_def wp_bind [of "os_OpenCreate _ _"]
  proof (rule wp_os_OpenCreate_new [OF new], goal_cases)
    case (1 e)
    then show ?case using old by (simp add: move_safe_def)
  next
    case (2 i)
    let ?v = "(tick w)\<lparr>w_fs := fs_put q i (w_fs w)\<rparr>"
    have "direct (w_fs ?v) q" by (rule direct_mono [OF new(1)]) (use new(2) in \<open>auto simp: is_dir_def\<close>)
    then have "moving w p q c [] ?v" using file_is_new [OF old new(2), of ?v i] 2 by (simp add: moving_def file_is_def)
    then show ?case unfolding onok_simps by (rule rest)
  qed
  then show ?thesis using wpD run unfolding move_safe_def by fast
qed

theorem move_file_never_loses_witness:
  "file_is [''mnt'', ''x''] ''abc'' (snd (run_state (move_file ''/x'' ''/mnt/x'' 420)
     (calm_world [([''x''], mkfile ''abc''), ([''mnt''], mkdir_inode), ([], mkdir_inode)])))"
proof -
  let ?w = "calm_world [([''x''], mkfile ''abc''), ([''mnt''], mkdir_inode), ([], mkdir_inode)]"
  let ?run = "run_state (move_file (abs_path [''x'']) (abs_path [''mnt'', ''x'']) 420) ?w"
  have a: "abs_path [''x''] = ''/x''" "abs_path [''mnt'', ''x''] = ''/mnt/x''" by code_simp+
  have f: "file_is [''x''] ''abc'' ?w"
    by (simp add: file_is_def direct_def plain_def mkfile_def mkdir_inode_def is_dir_def)
  have d: "direct (w_fs ?w) [''mnt'', ''x'']" "fs_get (w_fs ?w) [''mnt'', ''x''] = None"
    by (auto simp: direct_def plain_def mkdir_inode_def is_dir_def less_Suc_eq)
  have r: "?run = (fst ?run, snd ?run)" by (rule prod.collapse [symmetric])
  have "is_ok (fst ?run)" by code_simp
  with move_file_never_loses [OF f d r] show ?thesis unfolding a by blast
qed

section \<open>Deleting the old tree\<close>

text \<open>What the deletion keeps: the root, and the directory the new root is mounted on with all that is below.\<close>

definition spared :: "string \<Rightarrow> world \<Rightarrow> world \<Rightarrow> bool" where
  "spared m w v = (is_dir (w_fs v) [] \<and> is_dir (w_fs v) [m]
     \<and> (\<forall>q. prefix [m] q \<longrightarrow> fs_get (w_fs v) q = fs_get (w_fs w) q))"

lemma spared_tick [simp]: "spared m w (tick v) = spared m w v"
  by (simp add: spared_def)

lemma resolve_top:
  assumes "is_dir (w_fs w) []" "plain c"
  shows "resolve w False (abs_path [c]) = Inr [c]"
  by (rule resolve_abs) (use assms in \<open>auto simp: direct_def\<close>)

lemma resolve_top_dir:
  assumes "is_dir (w_fs w) []" "plain c" "is_dir (w_fs w) [c]"
  shows "resolve w True (abs_path [c]) = Inr [c]"
  by (rule resolve_abs) (use assms in \<open>auto simp: direct_def is_dir_def split: option.splits\<close>)

lemma wp_stat_dev:
  assumes "\<And>e. Q (Inl e) (tick w)"
    and "\<And>p i. resolve w follow s = Inr p \<Longrightarrow> fs_get (w_fs w) p = Some i \<Longrightarrow>
      Q (Inr (\<lparr>fi_name = path_Base s, fi_inode = i\<rparr>, dv w p)) (tick w)"
  shows "wp (stat_dev dv follow s) Q w"
  unfolding stat_dev_def by (rule wp_fs_call) (auto simp: call_results assms)

lemma spared_remove_tree:
  "spared m w v \<Longrightarrow> c \<noteq> m \<Longrightarrow> spared m w (v\<lparr>w_fs := fs_remove_tree [c] (w_fs v)\<rparr>)"
  by (auto simp: spared_def prefix_def)

lemma spared_removed_part:
  "spared m w v \<Longrightarrow> c \<noteq> m \<Longrightarrow> spared m w (v\<lparr>w_fs := removed_part [c] k (w_fs v)\<rparr>)"
  by (auto simp: spared_def fs_get_removed_part is_dir_removed_part strict_prefix_def prefix_def)

lemma spared_delete: "spared m w v \<Longrightarrow> c \<noteq> m \<Longrightarrow> spared m w (v\<lparr>w_fs := fs_del [c] (w_fs v)\<rparr>)"
  by (auto simp: spared_def prefix_def)

lemma tick_update: "(tick v)\<lparr>w_fs := f\<rparr> = tick (v\<lparr>w_fs := f\<rparr>)"
  by (simp add: tick_def)

text \<open>One entry of the root directory, a directory or not.\<close>

lemma delete_entry_spares:
  assumes J: "spared m w v" and c: "plain c" and no: "c = m \<longrightarrow> IsDir info \<and> rootDev \<noteq> dev"
  shows "wp (delete_entry rootDev (abs_path [c]) info dev)
    (\<lambda>r u. spared m w u \<and> (IsDir info \<longrightarrow> r = Inl SkipDir)) v"
proof -
  have top: "resolve v False (abs_path [c]) = Inr [c]" using J c by (intro resolve_top) (auto simp: spared_def)
  have np: "abs_path [c] \<noteq> ''/''" using c by (auto simp: abs_path_def plain_def)
  consider (other) "IsDir info" "rootDev \<noteq> dev" | (tree) "IsDir info" "rootDev = dev" "c \<noteq> m" | (other_file) "\<not> IsDir info" "c \<noteq> m"
    using no by blast
  then show ?thesis
  proof cases
    case tree
    have "wp (os_RemoveAll (abs_path [c])) (\<lambda>_ u. spared m w u) v"
      unfolding os_RemoveAll_def
      by (rule wp_fs_call_part)
        (use J top tree in \<open>auto simp: with_path_def tick_update spared_remove_tree spared_removed_part\<close>)
    then show ?thesis using tree np by (simp add: delete_entry_def wp_def split_def)
  next
    case other_file
    have "wp (os_Remove (abs_path [c])) (\<lambda>_ u. spared m w u) v"
      by (rule wp_os_Remove) (use J top other_file in \<open>auto simp: tick_update spared_delete\<close>)
    then show ?thesis using other_file np by (simp add: delete_entry_def wp_def split_def)
  qed (use J np in \<open>simp add: delete_entry_def\<close>)
qed

lemma walk_top_spares:
  assumes J: "spared m w v" and c: "plain c" and no: "c = m \<longrightarrow> IsDir (fst info) \<and> rootDev \<noteq> snd info"
  shows "wp (walk dv (walk_step (delete_entry rootDev)) n (abs_path [c]) info) (\<lambda>_ u. spared m w u) v"
proof (cases n)
  case (Suc k)
  obtain fi dev where info: "info = (fi, dev)" by fastforce
  have d: "wp (delete_entry rootDev (abs_path [c]) fi dev) (\<lambda>r u. spared m w u \<and> (IsDir fi \<longrightarrow> r = Inl SkipDir)) u"
    if "spared m w u" for u using delete_entry_spares [OF that c, of fi rootDev dev] no info by simp
  show ?thesis
  proof (cases "IsDir fi")
    case False
    then show ?thesis using wp_mono [OF d [OF J]] Suc info by (simp add: walk_step_def)
  next
    case True
    have rd: "wp (os_ReadDir (abs_path [c])) (\<lambda>_ u. spared m w u) v"
      unfolding os_ReadDir_def by (rule wp_fs_call) (use J in \<open>auto simp: call_results split: if_splits\<close>)
    have "wp (case names of Inl e \<Rightarrow> walk_step (delete_entry rootDev) (abs_path [c]) (Some (fi, dev)) (Some e)
        | Inr names \<Rightarrow> do { r \<leftarrow> walk_step (delete_entry rootDev) (abs_path [c]) (Some (fi, dev)) None;
            onok r (\<lambda>_. walk_names dv (walk dv (walk_step (delete_entry rootDev)) k) (walk_step (delete_entry rootDev))
              (abs_path [c]) names) }) (\<lambda>_ u. spared m w u) u" if u: "spared m w u" for names u
    proof (cases names)
      case (Inr ns)
      show ?thesis
        unfolding Inr sum.case wp_bind walk_step_def [of _ _ _ None] option.case prod.case
        by (rule wp_mono [OF d [OF u]]) (use True in auto)
    qed (simp add: walk_step_def u)
    then show ?thesis
      unfolding Suc info walk.simps using True by (simp del: wp_bind add: wp_bind [of "os_ReadDir _"]) (rule wp_mono [OF rd])
  qed
qed (simp add: J)

lemma path_Join_root: "plain c \<Longrightarrow> path_Join [''/'', c] = abs_path [c]"
  using path_Join_elem [of "[]" c] by (simp add: abs_path_def)

lemma walk_names_spares:
  assumes dv: "\<And>v. dv v [m] \<noteq> rootDev"
  shows "spared m w v \<Longrightarrow> \<forall>c \<in> set names. plain c \<Longrightarrow>
    wp (walk_names dv (walk dv (walk_step (delete_entry rootDev)) n) (walk_step (delete_entry rootDev)) ''/'' names)
      (\<lambda>_ u. spared m w u) v"
proof (induction names arbitrary: v)
  case (Cons c names)
  have c: "plain c" using Cons.prems by simp
  have rest: "wp (walk_names dv (walk dv (walk_step (delete_entry rootDev)) n) (walk_step (delete_entry rootDev)) ''/'' names)
      (\<lambda>_ u. spared m w u) u" if "spared m w u" for u
    using Cons that by simp
  show ?case
    unfolding walk_names.simps Let_def path_Join_root [OF c] wp_bind [of "stat_dev _ _ _"]
  proof (rule wp_stat_dev, goal_cases)
    case (1 e)
    then show ?case using rest [of "tick v"] Cons.prems by (simp add: walk_step_def)
  next
    case (2 p i)
    have top: "resolve v False (abs_path [c]) = Inr [c]" using Cons.prems c by (intro resolve_top) (auto simp: spared_def)
    then have p: "p = [c]" using 2 by simp
    let ?fi = "\<lparr>fi_name = path_Base (abs_path [c]), fi_inode = i\<rparr>"
    have no: "c = m \<longrightarrow> IsDir (fst (?fi, dv v p)) \<and> rootDev \<noteq> snd (?fi, dv v p)"
      using Cons.prems(1) 2 p dv by (auto simp: spared_def is_dir_def IsDir_def)
    have J: "spared m w (tick v)" using Cons.prems by simp
    show ?case
      unfolding sum.case wp_bind
      by (rule wp_mono [OF walk_top_spares [OF J c no]]) (use rest in \<open>auto split: sum.split\<close>)
  qed
qed simp

text \<open>
  C10. The walk that deletes the old tree, whatever fails, leaves the new root alone: where the directory it is
  mounted on is on another device, nothing at it or below it changes.
\<close>

theorem delete_spares_new_root:
  assumes dir: "is_dir (w_fs w) []" "is_dir (w_fs w) [m]" and names: "\<forall>c \<in> set (children (w_fs w) []). plain c"
    and dv: "\<And>v. dv v [m] \<noteq> rootDev"
    and run: "run_state (Walk dv ''/'' (walk_step (delete_entry rootDev))) w = (r, w')" and q: "prefix [m] q"
  shows "fs_get (w_fs w') q = fs_get (w_fs w) q"
proof -
  let ?fn = "walk_step (delete_entry rootDev)"
  have r: "resolve v follow ''/'' = Inr []" for v follow by (simp add: resolve_def is_rooted_def)
  have J: "spared m w v" if "w_fs v = w_fs w" for v using dir that by (simp add: spared_def)
  have rd: "wp (os_ReadDir ''/'') (\<lambda>names v. w_fs v = w_fs w \<and> (\<forall>ns. names = Inr ns \<longrightarrow> (\<forall>c \<in> set ns. plain c))) v"
    if "w_fs v = w_fs w" for v
    unfolding os_ReadDir_def
    by (rule wp_fs_call) (use that names r in \<open>auto simp: call_results split: if_splits\<close>)
  have fn: "?fn ''/'' (Some (fi, dev)) None = State_Monad.return (Inr ())" "?fn ''/'' info (Some e) = State_Monad.return (Inl e)"
    for fi dev info e by (simp_all add: walk_step_def delete_entry_def)
  have top: "wp (walk dv ?fn copy_depth ''/'' (fi, dev)) (\<lambda>_ u. spared m w u) v" if "w_fs v = w_fs w" "IsDir fi" for v fi dev
  proof -
    obtain n where n: "copy_depth = Suc n" by (simp add: copy_depth_def)
    have "walk dv ?fn copy_depth ''/'' (fi, dev) = do {
        names \<leftarrow> os_ReadDir ''/'';
        (case names of Inl e \<Rightarrow> State_Monad.return (Inl e) | Inr names \<Rightarrow> walk_names dv (walk dv ?fn n) ?fn ''/'' names) }"
      using that(2) by (simp add: n fn cong: sum.case_cong)
    note w = this
    show ?thesis
      unfolding w wp_bind
      by (rule wp_mono [OF rd [OF that(1)]])
        (auto simp: J split: sum.split intro!: walk_names_spares [where dv = dv and m = m and rootDev = rootDev, OF dv])
  qed
  have "wp (Walk dv ''/'' ?fn) (\<lambda>_ u. spared m w u) w"
    unfolding Walk_def wp_bind
  proof (rule wp_stat_dev, goal_cases)
    case (1 e)
    then show ?case using J by (simp add: walk_step_def)
  next
    case (2 p i)
    have "IsDir \<lparr>fi_name = path_Base ''/'', fi_inode = i\<rparr>" using 2 r dir(1) by (auto simp: IsDir_def is_dir_def)
    then show ?case unfolding sum.case wp_return by (intro top) simp_all
  qed
  then show ?thesis using wpD run q unfolding spared_def by fast
qed

theorem delete_spares_new_root_witness:
  "fs_get (w_fs (snd (run_state (Walk (\<lambda>_ p. if prefix [''mnt''] p then 1 else 0) ''/'' (walk_step (delete_entry 0)))
     (calm_world [([], mkdir_inode), ([''bin''], mkdir_inode), ([''mnt''], mkdir_inode), ([''mnt'', ''x''], mkfile ''abc'')]))))
     [''mnt'', ''x''] = Some (mkfile ''abc'')"
proof -
  let ?w = "calm_world [([], mkdir_inode), ([''bin''], mkdir_inode), ([''mnt''], mkdir_inode), ([''mnt'', ''x''], mkfile ''abc'')]"
  let ?run = "run_state (Walk (\<lambda>_ p. if prefix [''mnt''] p then 1 else 0) ''/'' (walk_step (delete_entry 0))) ?w"
  have r: "?run = (fst ?run, snd ?run)" by (rule prod.collapse [symmetric])
  have c: "is_dir (w_fs ?w) []" "is_dir (w_fs ?w) [''mnt'']" "\<forall>c \<in> set (children (w_fs ?w) []). plain c" by code_simp+
  have "fs_get (w_fs (snd ?run)) [''mnt'', ''x''] = fs_get (w_fs ?w) [''mnt'', ''x'']"
    by (rule delete_spares_new_root [OF c _ r]) simp_all
  then show ?thesis by simp
qed

section \<open>Devices\<close>

text \<open>A device is given the mode bits of Go, which lack the type: the new root gets an empty regular file for it.\<close>

lemma move_node_device:
  "map_option i_kind (fs_get (w_fs (snd (run_state (move_node ''/null'' ''/mnt/null''
      \<lparr>fi_name = ''null'', fi_inode = \<lparr>i_kind = KDev True 259, i_mode = 438, i_uid = 0, i_gid = 0\<rparr>\<rparr>)
      (calm_world [([], mkdir_inode), ([''mnt''], mkdir_inode)])))) [''mnt'', ''null''])
   = Some (KReg [])"
  by code_simp

text \<open>The kind of a ram file system, \<^verbatim>\<open>0x858458f6\<close>, as \<^verbatim>\<open>statfs\<close> gives it in 64 bits, is not the constant compared.\<close>

lemma ramfs_not_recognised: "(2240043254 :: int) \<noteq> ramfsMagic"
  by (simp add: ramfsMagic_def)

text \<open>
  What is mounted deeper is not spared: a directory on the device of the root is removed with all below it, whatever the
  devices there.
\<close>

lemma delete_crosses_devices:
  assumes "fault_free w" "resolve w False path = Inr p" "p \<noteq> []" "path \<noteq> ''/''" "IsDir info" "prefix p q"
  shows "fs_get (w_fs (snd (run_state (delete_entry dev path info dev) w))) q = None"
  using assms by (simp add: delete_entry_def os_RemoveAll_def fs_call_part_def fault_free_def with_path_def split_def)

section \<open>Starting again\<close>

text \<open>How \<open>Relocate\<close> ends: it returns and has done nothing, or the process ends, or is \<^verbatim>\<open>/init\<close> again.\<close>

definition relocation_done :: "world \<Rightarrow> bool \<Rightarrow> world \<Rightarrow> bool" where
  "relocation_done w ret w' =
     (if ret then w_fs w' = w_fs w \<and> w_trace w' = w_trace w
      else \<exists>es ev. w_trace w' = w_trace w @ es @ [ev]
        \<and> (ev = EvExit 1 \<or> (\<exists>env. ev = EvExecve nextInit [nextInit] (env @ [''K3OS_RELOCATED=true'']))))"

lemma relocation_fatal:
  "prefix (w_trace w) (w_trace v) \<Longrightarrow> wp (do { _ \<leftarrow> fatal e; State_Monad.return False }) (relocation_done w) v"
  by (auto simp: fatal_def emit_def relocation_done_def prefix_def)

lemma wp_prefix:
  assumes "prefix (w_trace w) (w_trace v)" "program m" "\<And>a u. prefix (w_trace w) (w_trace u) \<Longrightarrow> wp (f a) Q u"
  shows "wp (State_Monad.bind m f) Q v"
proof -
  obtain a u where r: "run_state m v = (a, u)" by (meson surj_pair)
  have "prefix (w_trace w) (w_trace u)" using trace.run_keeps [OF assms(2) r assms(1)] .
  from assms(3) [OF this, of a] r show ?thesis unfolding wp_def by simp
qed

lemma restart_init_done:
  assumes "prefix (w_trace w) (w_trace v)"
  shows "wp restart_init (relocation_done w) v"
proof -
  let ?env = "environ_list (w_env v) @ [''K3OS_RELOCATED=true'']"
  obtain x u where x: "run_state (sys_Exec nextInit [nextInit] ?env) v = (x, u)" by (meson surj_pair)
  note t = sys_Exec_trace [OF x]
  show ?thesis
  proof (cases x)
    case (Inl e)
    then have "prefix (w_trace w) (w_trace u)" using t assms by simp
    then show ?thesis
      using x Inl relocation_fatal [of w u "ErrMsg ''Cannot exec /sbin/init''"]
      by (simp add: restart_init_def wp_def Environ_def environ_list_def)
  next
    case (Inr y)
    then show ?thesis
      using x t assms by (auto simp: restart_init_def wp_def Environ_def environ_list_def relocation_done_def prefix_def)
  qed
qed

lemma relocate_root_done: "wp (relocate_root dv) (relocation_done w) w"
  unfolding relocate_root_def
proof (rule wp_prefix [OF prefix_order.refl program_os_MkdirAll])
  fix m :: "goerror + unit" and u :: world
  assume "prefix (w_trace w) (w_trace u)"
  then have "wp (do { c \<leftarrow> copyFS dv ''/mnt'';
      (case c of Inl e \<Rightarrow> do { _ \<leftarrow> fatal (ErrWrap ''Copy root failed'' e); State_Monad.return False }
       | Inr _ \<Rightarrow> restart_init) }) (relocation_done w) u"
    by (rule wp_prefix [OF _ program_copyFS]) (auto simp del: wp_bind split: sum.split intro: relocation_fatal restart_init_done)
  with relocation_fatal [of w u] \<open>prefix (w_trace w) (w_trace u)\<close>
  show "wp (case m of
        Inl _ \<Rightarrow> do { _ \<leftarrow> fatal (ErrMsg ''Failed to mkdir /mnt''); State_Monad.return False }
      | Inr _ \<Rightarrow> do {
          c \<leftarrow> copyFS dv ''/mnt'';
          (case c of
             Inl e \<Rightarrow> do { _ \<leftarrow> fatal (ErrWrap ''Copy root failed'' e); State_Monad.return False }
           | Inr _ \<Rightarrow> restart_init) }) (relocation_done w) u"
    by (simp del: wp_bind split: sum.split)
qed

lemma Relocate_done: "wp (Relocate dv sfs) (relocation_done w) w"
proof -
  let ?m = "case sfs w of
        Inl e \<Rightarrow> do { _ \<leftarrow> fatal (ErrWrap ''Cannot statfs cwd'' (Errno e)); State_Monad.return False }
      | Inr typ \<Rightarrow> if typ = ramfsMagic \<or> typ = tmpfsMagic then relocate_root dv else State_Monad.return True"
  have stat: "wp ?m (relocation_done w) w"
  proof (cases "sfs w")
    case (Inl e)
    then show ?thesis unfolding Inl sum.case by (intro relocation_fatal) simp
  next
    case (Inr t)
    then show ?thesis using relocate_root_done [of dv w] by (simp add: relocation_done_def [of _ True])
  qed
  show ?thesis
  proof (cases "fst (run_state (Getenv relocated) w) = ''true''")
    case True
    then show ?thesis by (simp add: Relocate_def Getenv_def Unsetenv_def relocation_done_def)
  next
    case False
    then have "run_state (Relocate dv sfs) w = run_state ?m w" by (simp add: Relocate_def Getenv_def)
    then show ?thesis using stat unfolding wp_def by simp
  qed
qed

text \<open>
  C11. \<open>Relocate\<close> returns to its caller only with every file as it was and nothing done; whatever fails once it has
  begun to move the root, the process ends with status 1 or is \<^verbatim>\<open>/init\<close> again, with the mark that it need not
  move once more.
\<close>

theorem Relocate_all_or_nothing:
  assumes "run_state (Relocate dv sfs) w = (ret, w')"
  shows "if ret then w_fs w' = w_fs w \<and> w_trace w' = w_trace w
    else \<exists>es ev. w_trace w' = w_trace w @ es @ [ev]
      \<and> (ev = EvExit 1 \<or> (\<exists>env. ev = EvExecve nextInit [nextInit] (env @ [''K3OS_RELOCATED=true''])))"
  using wpD [OF Relocate_done assms] unfolding relocation_done_def .

theorem Relocate_all_or_nothing_witness:
  "\<exists>es ev. w_trace (snd (run_state (Relocate (\<lambda>_ _. 0) (\<lambda>_. Inr tmpfsMagic)) (calm_world []))) = es @ [ev]
     \<and> (ev = EvExit 1 \<or> (\<exists>env. ev = EvExecve nextInit [nextInit] (env @ [''K3OS_RELOCATED=true''])))"
proof -
  let ?run = "run_state (Relocate (\<lambda>_ _. 0) (\<lambda>_. Inr tmpfsMagic)) (calm_world [])"
  have r: "?run = (fst ?run, snd ?run)" by (rule prod.collapse [symmetric])
  have n: "\<not> fst ?run" "w_trace (calm_world []) = []" by code_simp+
  from Relocate_all_or_nothing [OF r] show ?thesis unfolding if_not_P [OF n(1)] n(2) append_Nil .
qed

end
