(* ===== verification/GoFlag.thy ===== *)
theory GoFlag
  imports GoQuote
begin

text \<open>
  Go's \<^verbatim>\<open>flag\<close> package as the command line library uses it: a set of flags with their values, and the
  parser of arguments, which stops at the first argument that is no flag and at the first error.
\<close>

section \<open>Values of flags\<close>

definition ParseBool :: "string \<Rightarrow> bool option" where
  "ParseBool s =
     (if s \<in> set [''1'', ''t'', ''T'', ''TRUE'', ''true'', ''True''] then Some True
      else if s \<in> set [''0'', ''f'', ''F'', ''FALSE'', ''false'', ''False''] then Some False
      else None)"

definition FormatBool :: "bool \<Rightarrow> string" where
  "FormatBool b = (if b then ''true'' else ''false'')"

lemma ParseBool_FormatBool [simp]: "ParseBool (FormatBool b) = Some b"
  by (simp add: ParseBool_def FormatBool_def)

datatype flag_value = BoolValue bool | TextValue string

definition value_String :: "flag_value \<Rightarrow> string" where
  "value_String v = (case v of BoolValue b \<Rightarrow> FormatBool b | TextValue s \<Rightarrow> s)"

text \<open>\<^verbatim>\<open>Set\<close> of a value: the new value, and whether the text was one. A bad text leaves \<open>False\<close>.\<close>

definition value_Set :: "flag_value \<Rightarrow> string \<Rightarrow> bool \<times> flag_value" where
  "value_Set v s =
     (case v of
        BoolValue _ \<Rightarrow> (case ParseBool s of Some b \<Rightarrow> (True, BoolValue b) | None \<Rightarrow> (False, BoolValue False))
      | TextValue _ \<Rightarrow> (True, TextValue s))"

section \<open>Sets of flags\<close>

text \<open>The flags with their values, the names that were set, the arguments that are left.\<close>

record flagset =
  fl_formal :: "(string \<times> flag_value) list"
  fl_actual :: "string list"
  fl_args :: "string list"

definition NewFlagSet :: flagset where
  "NewFlagSet = \<lparr>fl_formal = [], fl_actual = [], fl_args = []\<rparr>"

definition flag_Var :: "string \<Rightarrow> flag_value \<Rightarrow> flagset \<Rightarrow> flagset" where
  "flag_Var name v s = s\<lparr>fl_formal := fl_formal s @ [(name, v)]\<rparr>"

definition flag_Set :: "string \<Rightarrow> string \<Rightarrow> flagset \<Rightarrow> bool \<times> flagset" where
  "flag_Set name text s =
     (case map_of (fl_formal s) name of
        None \<Rightarrow> (False, s)
      | Some v \<Rightarrow>
         (case value_Set v text of (ok, v') \<Rightarrow>
            (ok, s\<lparr>fl_formal := AList.update name v' (fl_formal s),
                   fl_actual := (if ok then name # fl_actual s else fl_actual s)\<rparr>)))"

definition flag_bool :: "(string \<times> flag_value) list \<Rightarrow> string \<Rightarrow> bool" where
  "flag_bool vars name = (case map_of vars name of Some (BoolValue b) \<Rightarrow> b | _ \<Rightarrow> False)"

definition flag_text :: "(string \<times> flag_value) list \<Rightarrow> string \<Rightarrow> string" where
  "flag_text vars name = (case map_of vars name of Some (TextValue s) \<Rightarrow> s | _ \<Rightarrow> [])"

section \<open>Arguments\<close>

datatype arg_word = NoFlag | EndOfFlags | BadFlag | FlagWord string "string option"

text \<open>The name ends at the first \<open>=\<close>, which is not its first character.\<close>

definition arg_word :: "string \<Rightarrow> arg_word" where
  "arg_word s =
     (if length s < 2 \<or> hd s \<noteq> CHR ''-'' then NoFlag
      else if s = ''--'' then EndOfFlags
      else let name = (if HasPrefix s ''--'' then drop 2 s else tl s) in
        if name = [] \<or> hd name = CHR ''-'' \<or> hd name = CHR ''='' then BadFlag
        else FlagWord (takeWhile (\<lambda>c. c \<noteq> CHR ''='') name)
          (case dropWhile (\<lambda>c. c \<noteq> CHR ''='') name of [] \<Rightarrow> None | _ # v \<Rightarrow> Some v))"

fun flag_Parse :: "string list \<Rightarrow> flagset \<Rightarrow> string option \<times> flagset" where
  "flag_Parse [] s = (None, s\<lparr>fl_args := []\<rparr>)"
| "flag_Parse (a # as) s =
     (case arg_word a of
        NoFlag \<Rightarrow> (None, s\<lparr>fl_args := a # as\<rparr>)
      | EndOfFlags \<Rightarrow> (None, s\<lparr>fl_args := as\<rparr>)
      | BadFlag \<Rightarrow> (Some (''bad flag syntax: '' @ a), s\<lparr>fl_args := a # as\<rparr>)
      | FlagWord name val \<Rightarrow>
         (case map_of (fl_formal s) name of
            None \<Rightarrow>
              (Some (if name = ''help'' \<or> name = ''h'' then ''flag: help requested''
                     else ''flag provided but not defined: -'' @ name), s\<lparr>fl_args := as\<rparr>)
          | Some (BoolValue _) \<Rightarrow>
             (case flag_Set name (case val of Some v \<Rightarrow> v | None \<Rightarrow> ''true'') s of
                (True, s') \<Rightarrow> flag_Parse as s'
              | (False, s') \<Rightarrow>
                 (Some (''invalid boolean value '' @ Quote (case val of Some v \<Rightarrow> v | None \<Rightarrow> ''true'') @ '' for -''
                    @ name @ '': parse error''), s'\<lparr>fl_args := as\<rparr>))
          | Some (TextValue _) \<Rightarrow>
             (case val of
                Some v \<Rightarrow> flag_Parse as (snd (flag_Set name v s))
              | None \<Rightarrow>
                 (case as of
                    [] \<Rightarrow> (Some (''flag needs an argument: -'' @ name), s\<lparr>fl_args := []\<rparr>)
                  | v # as' \<Rightarrow> flag_Parse as' (snd (flag_Set name v s))))))"

text \<open>What is left of the arguments are arguments that were given.\<close>

lemma flag_Parse_args: "set (fl_args (snd (flag_Parse as s))) \<subseteq> set as"
proof (induction as s rule: flag_Parse.induct)
  case (2 a as s)
  show ?case
  proof (cases "arg_word a")
    case (FlagWord name val)
    note word = FlagWord
    show ?thesis
    proof (cases "map_of (fl_formal s) name")
      case (Some v)
      show ?thesis
      proof (cases v)
        case (BoolValue b)
        obtain ok s' where set: "flag_Set name (case val of Some v \<Rightarrow> v | None \<Rightarrow> ''true'') s = (ok, s')" by fastforce
        show ?thesis
        proof (cases ok)
          case True
          then show ?thesis using 2 (1) [OF word Some BoolValue] set word Some BoolValue by fastforce
        qed (use set word Some BoolValue in auto)
      next
        case (TextValue t)
        show ?thesis
        proof (cases val)
          case None
          show ?thesis
          proof (cases as)
            case (Cons v' as')
            then show ?thesis using 2 (2) [OF word Some TextValue None Cons] word Some TextValue None by (simp, blast)
          qed (use word Some TextValue None in simp)
        next
          case (Some v')
          then show ?thesis using 2 (3) [OF word \<open>map_of _ _ = _\<close> TextValue Some] word \<open>map_of _ _ = _\<close> TextValue
            by (simp, blast)
        qed
      qed
    qed (use word in auto)
  qed auto
qed simp

text \<open>The flags stay the flags that were defined, each with a value of its kind.\<close>

definition same_kind :: "flag_value \<Rightarrow> flag_value \<Rightarrow> bool" where
  "same_kind v v' = (case (v, v') of (BoolValue _, BoolValue _) \<Rightarrow> True | (TextValue _, TextValue _) \<Rightarrow> True | _ \<Rightarrow> False)"

lemma same_kind_simps [simp]:
  "same_kind v v" "same_kind (BoolValue a) v' \<longleftrightarrow> (\<exists>b. v' = BoolValue b)" "same_kind (TextValue t) v' \<longleftrightarrow> (\<exists>b. v' = TextValue b)"
  by (cases v; cases v'; simp add: same_kind_def)+

lemma value_Set_kind: "same_kind v (snd (value_Set v s))"
  by (cases v) (auto simp: value_Set_def split: option.split)

text \<open>An argument that spells a value out.\<close>

definition spelled :: "string \<times> flag_value \<Rightarrow> string" where
  "spelled kv = ''--'' @ fst kv @ ''='' @ value_String (snd kv)"

definition flag_name_ok :: "string \<Rightarrow> bool" where
  "flag_name_ok n = (n \<noteq> [] \<and> hd n \<noteq> CHR ''-'' \<and> CHR ''='' \<notin> set n)"

lemma takeWhile_upto: "c \<notin> set n \<Longrightarrow> takeWhile (\<lambda>x. x \<noteq> c) (n @ c # v) = n"
  by (induction n) auto

lemma dropWhile_upto: "c \<notin> set n \<Longrightarrow> dropWhile (\<lambda>x. x \<noteq> c) (n @ c # v) = c # v"
  by (induction n) auto

lemma arg_word_spelled:
  assumes "flag_name_ok n"
  shows "arg_word (spelled (n, v)) = FlagWord n (Some (value_String v))"
proof -
  have "n \<noteq> []" "hd n \<noteq> CHR ''-''" "CHR ''='' \<notin> set n" "hd n \<noteq> CHR ''=''"
    using assms unfolding flag_name_ok_def by (simp_all, metis hd_in_set)
  then show ?thesis
    by (simp add: arg_word_def spelled_def HasPrefix_def takeWhile_upto dropWhile_upto)
qed

lemma value_Set_String: "same_kind u v \<Longrightarrow> value_Set u (value_String v) = (True, v)"
  by (cases u) (auto simp: value_Set_def value_String_def)

lemma flag_Set_String:
  assumes "map_of (fl_formal s) n = Some u" "same_kind u v"
  shows "flag_Set n (value_String v) s
    = (True, s\<lparr>fl_formal := AList.update n v (fl_formal s), fl_actual := n # fl_actual s\<rparr>)"
  using assms by (simp add: flag_Set_def value_Set_String)

text \<open>Arguments that spell values out are parsed to these values, in their order.\<close>

definition set_flag :: "string \<times> flag_value \<Rightarrow> flagset \<Rightarrow> flagset" where
  "set_flag kv s = s\<lparr>fl_formal := AList.update (fst kv) (snd kv) (fl_formal s), fl_actual := fst kv # fl_actual s\<rparr>"

definition fits :: "(string \<times> flag_value) list \<Rightarrow> string \<times> flag_value \<Rightarrow> bool" where
  "fits formal kv = (flag_name_ok (fst kv) \<and>
     (case map_of formal (fst kv) of Some u \<Rightarrow> same_kind u (snd kv) | None \<Rightarrow> False))"

lemma same_kind_trans: "same_kind u v \<Longrightarrow> same_kind u w \<Longrightarrow> same_kind v w"
  by (cases u) auto

lemma fits_update: "fits formal kv \<Longrightarrow> fits formal kw \<Longrightarrow> fits (AList.update (fst kv) (snd kv) formal) kw"
  by (auto simp: fits_def update_conv' split: option.splits intro: same_kind_trans)

lemma flag_Parse_spelled:
  assumes "\<forall>kv \<in> set kvs. fits (fl_formal s) kv"
  shows "flag_Parse (map spelled kvs @ rest) s = flag_Parse rest (fold set_flag kvs s)"
  using assms
proof (induction kvs arbitrary: s)
  case (Cons kv kvs)
  obtain n v where kv: "kv = (n, v)" by fastforce
  obtain u where u: "map_of (fl_formal s) n = Some u" "same_kind u v" and n: "flag_name_ok n"
    using Cons.prems by (auto simp: kv fits_def split: option.splits)
  have "\<forall>kw \<in> set kvs. fits (fl_formal (set_flag kv s)) kw"
    using Cons.prems by (auto simp: set_flag_def intro: fits_update)
  then have "flag_Parse (map spelled kvs @ rest) (set_flag kv s) = flag_Parse rest (fold set_flag (kv # kvs) s)"
    using Cons.IH by simp
  moreover have "flag_Set n (value_String v) s = (True, set_flag kv s)"
    using flag_Set_String [OF u] by (simp add: set_flag_def kv)
  ultimately show ?case
    using u by (cases u) (simp_all add: kv arg_word_spelled [OF n])
qed simp

text \<open>The values after that: the last one of each name.\<close>

lemma fold_set_flag:
  "fl_formal (fold set_flag kvs s) = fold (\<lambda>kv. AList.update (fst kv) (snd kv)) kvs (fl_formal s)"
  "set (fl_actual (fold set_flag kvs s)) = fst ` set kvs \<union> set (fl_actual s)"
  "fl_args (fold set_flag kvs s) = fl_args s"
  by (induction kvs arbitrary: s) (auto simp: set_flag_def)

lemma map_of_fold_update:
  "map_of (fold (\<lambda>kv. AList.update (fst kv) (snd kv)) kvs al) = map_of al ++ map_of (rev kvs)"
  by (induction kvs arbitrary: al) (auto simp: update_conv' fun_eq_iff map_add_def split: option.splits)

end
