(* ===== verification/CommandLine.thy ===== *)
theory CommandLine
  imports GoFlag Traces
begin

text \<open>
  The vendored command line library, \<^verbatim>\<open>vendor/github.com/urfave/cli\<close>, as the program uses it: flags that may take
  their default from the environment, the order in which an application and a command deal with bad usage,
  help, required flags, \<open>Before\<close> and \<open>Action\<close>. Texts of help are a parameter. No flag of the
  program names a file for its value, no command has commands below it, short options are not combined and
  shell completion is off; these parts of the library are left out.
\<close>

section \<open>Flags\<close>

text \<open>A flag; a text flag has a default value.\<close>

datatype flag_kind = BoolFlag | StringFlag string

record cli_flag =
  flag_Name :: string
  flag_Usage :: string
  flag_EnvVar :: string
  flag_Required :: bool
  flag_Hidden :: bool
  flag_kind :: flag_kind

type_synonym env = "(string \<times> string) list"

definition env_lookup :: "env \<Rightarrow> string \<Rightarrow> string option" where
  "env_lookup env name = (if name = [] then None else map_of env name)"

text \<open>Names are separated by commas.\<close>

definition eachName :: "string \<Rightarrow> string list" where
  "eachName names = map (TrimFunc (\<lambda>c. c = CHR '' '')) (Split names (CHR '',''))"

abbreviation flag_names :: "cli_flag \<Rightarrow> string list" where
  "flag_names f \<equiv> eachName (flag_Name f)"

definition flagFromFileEnv :: "env \<Rightarrow> string \<Rightarrow> string option" where
  "flagFromFileEnv env names =
     (case List.map_filter (\<lambda>v. env_lookup env (TrimSpace v)) (Split names (CHR '','')) of
        [] \<Rightarrow> None
      | v # _ \<Rightarrow> Some v)"

text \<open>The value a flag has before any argument is read.\<close>

definition flag_default :: "env \<Rightarrow> cli_flag \<Rightarrow> string + flag_value" where
  "flag_default env f =
     (case (flag_kind f, flagFromFileEnv env (flag_EnvVar f)) of
        (BoolFlag, None) \<Rightarrow> Inr (BoolValue False)
      | (BoolFlag, Some v) \<Rightarrow>
          if v = [] then Inr (BoolValue False)
          else (case ParseBool v of
                  Some b \<Rightarrow> Inr (BoolValue b)
                | None \<Rightarrow> Inl (''could not parse '' @ v @ '' as bool value for flag '' @ flag_Name f
                            @ '': strconv.ParseBool: parsing '' @ Quote v @ '': invalid syntax''))
      | (StringFlag d, None) \<Rightarrow> Inr (TextValue d)
      | (StringFlag d, Some v) \<Rightarrow> Inr (TextValue v))"

definition ApplyWithError :: "env \<Rightarrow> cli_flag \<Rightarrow> flagset \<Rightarrow> string + flagset" where
  "ApplyWithError env f s =
     (case flag_default env f of
        Inl e \<Rightarrow> Inl e
      | Inr v \<Rightarrow> Inr (fold (\<lambda>name. flag_Var name v) (flag_names f) s))"

fun flagSet :: "env \<Rightarrow> cli_flag list \<Rightarrow> flagset \<Rightarrow> string + flagset" where
  "flagSet env [] s = Inr s"
| "flagSet env (f # fs) s =
     (case ApplyWithError env f s of Inl e \<Rightarrow> Inl e | Inr s' \<Rightarrow> flagSet env fs s')"

text \<open>All names of a flag get the value of the one that was used; two of them at once are an error.\<close>

definition normalize_flag :: "string list \<Rightarrow> cli_flag \<Rightarrow> flagset \<Rightarrow> string + flagset" where
  "normalize_flag visited f s =
     (let parts = flag_names f in
      if length parts = 1 then Inr s
      else (case filter (\<lambda>n. n \<in> set visited) parts of
         [] \<Rightarrow> Inr s
       | [n] \<Rightarrow>
           (case map_of (fl_formal s) n of
              None \<Rightarrow> Inr s
            | Some v \<Rightarrow> Inr (fold (\<lambda>m s. snd (flag_Set m (value_String v) s))
                              (filter (\<lambda>n. n \<notin> set visited) parts) s))
       | n # m # _ \<Rightarrow> Inl (''Cannot use two forms of the same flag: '' @ m @ '' '' @ n)))"

fun normalizeFlags :: "string list \<Rightarrow> cli_flag list \<Rightarrow> flagset \<Rightarrow> string + flagset" where
  "normalizeFlags visited [] s = Inr s"
| "normalizeFlags visited (f # fs) s =
     (case normalize_flag visited f s of Inl e \<Rightarrow> Inl e | Inr s' \<Rightarrow> normalizeFlags visited fs s')"

lemma flag_Set_args [simp]: "fl_args (snd (flag_Set name text s)) = fl_args s"
  by (simp add: flag_Set_def split: option.split prod.split)

lemma normalize_flag_args:
  assumes "normalize_flag visited f s = Inr s'"
  shows "fl_args s' = fl_args s"
proof -
  have fold: "fl_args (fold (\<lambda>m s. snd (flag_Set m t s)) ms s) = fl_args s" for t ms s
    by (induction ms arbitrary: s) simp_all
  let ?ps = "filter (\<lambda>n. n \<in> set visited) (flag_names f)"
  consider "length (flag_names f) = 1" | "?ps = []" | n where "?ps = [n]" | n m ns where "?ps = n # m # ns"
    by (metis list.exhaust)
  then show ?thesis
    using assms by cases (auto simp: normalize_flag_def Let_def fold split: if_splits option.splits)
qed

lemma normalizeFlags_args: "normalizeFlags visited fs s = Inr s' \<Longrightarrow> fl_args s' = fl_args s"
  by (induction visited fs s rule: normalizeFlags.induct) (auto split: sum.splits dest: normalize_flag_args)

text \<open>A flag is set by an argument or by its variable, be that empty.\<close>

definition env_names :: "env \<Rightarrow> string \<Rightarrow> bool" where
  "env_names env names = list_ex (\<lambda>v. env_lookup env (TrimSpace v) \<noteq> None) (eachName names)"

definition IsSet :: "env \<Rightarrow> cli_flag list \<Rightarrow> flagset \<Rightarrow> string \<Rightarrow> bool" where
  "IsSet env flags s name =
     (name \<in> set (fl_actual s) \<or> map_of (fl_formal s) name \<noteq> None \<and>
        list_ex (\<lambda>f. name \<in> set (flag_names f) \<and> env_names env (flag_EnvVar f)) flags)"

definition missing_flag :: "env \<Rightarrow> cli_flag list \<Rightarrow> flagset \<Rightarrow> cli_flag \<Rightarrow> string option" where
  "missing_flag env flags s f =
     (let keys = Split (flag_Name f) (CHR '','');
          long = filter (\<lambda>k. 1 < length k) keys in
      if flag_Required f \<and> \<not> list_ex (\<lambda>k. IsSet env flags s (TrimSpace k)) keys \<and> long \<noteq> []
      then Some (last long) else None)"

definition checkRequiredFlags :: "env \<Rightarrow> cli_flag list \<Rightarrow> flagset \<Rightarrow> string option" where
  "checkRequiredFlags env flags s =
     (case List.map_filter (missing_flag env flags s) flags of
        [] \<Rightarrow> None
      | [m] \<Rightarrow> Some (''Required flag '' @ Quote m @ '' not set'')
      | ms \<Rightarrow> Some (''Required flags '' @ Quote (Join ms '', '') @ '' not set''))"

section \<open>Arguments of a command\<close>

definition flag_of_arg :: "string \<Rightarrow> string" where
  "flag_of_arg arg =
     (let a = (if HasPrefix arg ''--'' then drop 2 arg else arg);
          a = (if HasPrefix a ''-'' then drop 1 a else a)
      in hd (Split a (CHR ''='')))"

definition argIsFlag :: "cli_flag list \<Rightarrow> string \<Rightarrow> bool" where
  "argIsFlag flags arg =
     (arg \<noteq> ''-'' \<and> HasPrefix arg ''-'' \<and>
      list_ex (\<lambda>f. list_ex (\<lambda>key. TrimSpace key = flag_of_arg arg) (Split (flag_Name f) (CHR '',''))) flags)"

text \<open>
  Flags go before the other arguments, each with the argument that may be its value; \<open>val\<close>: the next
  argument may be one.
\<close>

fun reorder :: "cli_flag list \<Rightarrow> bool \<Rightarrow> string list \<Rightarrow> string list \<times> string list" where
  "reorder flags val [] = ([], [])"
| "reorder flags val (arg # args) =
     (if arg = ''--'' then ([], arg # args)
      else if val \<and> \<not> HasPrefix arg ''-'' then apfst ((#) arg) (reorder flags False args)
      else if argIsFlag flags arg then apfst ((#) arg) (reorder flags (\<not> Contains arg ''='') args)
      else apsnd ((#) arg) (reorder flags val args))"

definition reorderArgs :: "cli_flag list \<Rightarrow> string list \<Rightarrow> string list" where
  "reorderArgs flags args = (case reorder flags False args of (flagged, remaining) \<Rightarrow> flagged @ remaining)"

definition parseFlags :: "env \<Rightarrow> cli_flag list \<Rightarrow> string list \<Rightarrow> string + flagset" where
  "parseFlags env flags args =
     (case flagSet env flags NewFlagSet of
        Inl e \<Rightarrow> Inl e
      | Inr s \<Rightarrow>
         (case flag_Parse (reorderArgs flags args) s of
            (Some e, _) \<Rightarrow> Inl e
          | (None, s') \<Rightarrow> normalizeFlags (fl_actual s') flags s'))"

text \<open>Reordering loses and invents no argument.\<close>

lemma reorderArgs_mset: "mset (reorderArgs flags args) = mset args"
proof -
  have "mset (fst (reorder flags val args)) + mset (snd (reorder flags val args)) = mset args" for val
    by (induction flags val args rule: reorder.induct) (auto simp: Let_def)
  then show ?thesis by (simp add: reorderArgs_def split: prod.split) (metis fst_conv snd_conv)
qed

section \<open>Commands and applications\<close>

record cli_command =
  cmd_Name :: string
  cmd_ShortName :: string
  cmd_Aliases :: "string list"
  cmd_Usage :: string
  cmd_Flags :: "cli_flag list"
  cmd_Hidden :: bool

definition Names :: "'x cli_command_scheme \<Rightarrow> string list" where
  "Names c = cmd_Name c # (if cmd_ShortName c \<noteq> [] then [cmd_ShortName c] else []) @ cmd_Aliases c"

definition HasName :: "'x cli_command_scheme \<Rightarrow> string \<Rightarrow> bool" where
  "HasName c name = (name \<in> set (Names c))"

text \<open>The process goes on with a value, or it has exited.\<close>

datatype 'a ended = Exited | Returned 'a

text \<open>An error that wants the process to exit with a code.\<close>

record exit_error =
  ee_code :: int
  ee_message :: string

text \<open>
  A command with what it runs. \<open>Before\<close> gets the help of the command to print, and the variables
  the flags are bound to, which it may change for \<open>Action\<close>.
\<close>

type_synonym vars = "(string \<times> flag_value) list"

record app_command = cli_command +
  cmd_Before :: "(world, unit) state \<Rightarrow> vars \<Rightarrow> (world, (goerror + vars) ended) state"
  cmd_Action :: "string list \<Rightarrow> vars \<Rightarrow> (world, exit_error option) state"

record cli_app =
  a_HelpName :: string
  a_Name :: string
  a_Usage :: string
  a_Version :: string
  a_Flags :: "cli_flag list"
  a_Commands :: "app_command list"
  a_Before :: "vars \<Rightarrow> (world, string option) state"

text \<open>
  The texts of help: of the application, of one command, of a command without a name. They are templates filled
  from the application, with its flags and commands.
\<close>

record help_texts =
  help_app :: "cli_app \<Rightarrow> cli_flag list \<Rightarrow> cli_command list \<Rightarrow> string"
  help_command :: "string \<Rightarrow> cli_command \<Rightarrow> string"
  help_subcommand :: "cli_app \<Rightarrow> cli_flag list \<Rightarrow> cli_command list \<Rightarrow> string"

definition bool_flag :: "string \<Rightarrow> string \<Rightarrow> string \<Rightarrow> bool \<Rightarrow> cli_flag" where
  "bool_flag name usage env hidden =
     \<lparr>flag_Name = name, flag_Usage = usage, flag_EnvVar = env, flag_Required = False, flag_Hidden = hidden,
      flag_kind = BoolFlag\<rparr>"

definition string_flag :: "string \<Rightarrow> string \<Rightarrow> string \<Rightarrow> bool \<Rightarrow> bool \<Rightarrow> cli_flag" where
  "string_flag name env val required hidden =
     \<lparr>flag_Name = name, flag_Usage = [], flag_EnvVar = env, flag_Required = required, flag_Hidden = hidden,
      flag_kind = StringFlag val\<rparr>"

definition HelpFlag :: cli_flag where
  "HelpFlag = bool_flag ''help, h'' ''show help'' [] False"

definition VersionFlag :: cli_flag where
  "VersionFlag = bool_flag ''version, v'' ''print the version'' [] False"

definition helpCommand :: cli_command where
  "helpCommand = \<lparr>cmd_Name = ''help'', cmd_ShortName = [], cmd_Aliases = [''h''],
     cmd_Usage = ''Shows a list of commands or help for one command'', cmd_Flags = [], cmd_Hidden = False\<rparr>"

text \<open>What \<^verbatim>\<open>Setup\<close> adds: the command and the flag for help and the flag for the version.\<close>

definition all_flags :: "cli_app \<Rightarrow> cli_flag list" where
  "all_flags app = a_Flags app @ [HelpFlag, VersionFlag]"

definition all_commands :: "cli_app \<Rightarrow> cli_command list" where
  "all_commands app = map cli_command.truncate (a_Commands app) @ [helpCommand]"

definition print_text :: "string \<Rightarrow> (world, unit) state" where
  "print_text s = emit (EvPrint s)"

definition ShowAppHelp :: "help_texts \<Rightarrow> cli_app \<Rightarrow> (world, unit) state" where
  "ShowAppHelp h app = print_text (help_app h app (all_flags app) (all_commands app))"

definition ShowCommandHelp :: "help_texts \<Rightarrow> cli_app \<Rightarrow> string \<Rightarrow> (world, exit_error option) state" where
  "ShowCommandHelp h app name =
     (if name = [] then do {
        _ \<leftarrow> print_text (help_subcommand h app (all_flags app) (all_commands app));
        State_Monad.return None }
      else (case find (\<lambda>c. HasName c name) (all_commands app) of
        Some c \<Rightarrow> do { _ \<leftarrow> print_text (help_command h (a_HelpName app) c); State_Monad.return None }
      | None \<Rightarrow> State_Monad.return (Some \<lparr>ee_code = 3, ee_message = ''No help topic for '' @ [CHR 0x27] @ name @ [CHR 0x27]\<rparr>)))"

definition help_Action :: "help_texts \<Rightarrow> cli_app \<Rightarrow> string list \<Rightarrow> (world, exit_error option) state" where
  "help_Action h app args =
     (case args of
        [] \<Rightarrow> do { _ \<leftarrow> ShowAppHelp h app; State_Monad.return None }
      | a # _ \<Rightarrow> ShowCommandHelp h app a)"

text \<open>The commands of an application, its own and \<open>help\<close>.\<close>

definition runnable :: "help_texts \<Rightarrow> cli_app \<Rightarrow> app_command list" where
  "runnable h app = a_Commands app
     @ [cli_command.extend helpCommand
          \<lparr>cmd_Before = \<lambda>_ vars. State_Monad.return (Returned (Inr vars)),
           cmd_Action = \<lambda>args _. help_Action h app args\<rparr>]"

text \<open>The end of an action: an error that wants the process to exit is printed, and the process exits.\<close>

definition HandleExitCoder :: "exit_error option \<Rightarrow> (world, (goerror + unit) ended) state" where
  "HandleExitCoder r =
     (case r of
        None \<Rightarrow> State_Monad.return (Returned (Inr ()))
      | Some e \<Rightarrow> do {
          _ \<leftarrow> (if ee_message e \<noteq> [] then print_text (ee_message e @ [newline]) else State_Monad.return ());
          _ \<leftarrow> emit (EvExit (ee_code e));
          State_Monad.return Exited })"

text \<open>Bad usage, or a \<open>Before\<close> that fails: what went wrong, the help, and the error is the result.\<close>

definition usage_error :: "string \<Rightarrow> (world, 'a) state \<Rightarrow> goerror \<Rightarrow> (world, (goerror + unit) ended) state" where
  "usage_error said show e = do {
     _ \<leftarrow> (if said = [] then State_Monad.return () else print_text said);
     _ \<leftarrow> show;
     State_Monad.return (Returned (Inl e)) }"

definition current_env :: "(world, env) state" where
  "current_env = State (\<lambda>w. (w_env w, w))"

text \<open>A command once its flags are read: \<open>Before\<close>, then \<open>Action\<close> with the variables as \<open>Before\<close> left them.\<close>

definition Command_act ::
  "(world, exit_error option) state \<Rightarrow> app_command \<Rightarrow> string list \<Rightarrow> vars \<Rightarrow> (world, (goerror + unit) ended) state" where
  "Command_act show_help c args vars = do {
     b \<leftarrow> cmd_Before c (do { _ \<leftarrow> show_help; State_Monad.return () }) vars;
     (case b of
        Exited \<Rightarrow> State_Monad.return Exited
      | Returned (Inl e) \<Rightarrow> usage_error [] show_help e
      | Returned (Inr vars) \<Rightarrow> do { r \<leftarrow> cmd_Action c args vars; HandleExitCoder r }) }"

text \<open>One command, with the arguments after its name.\<close>

definition Command_Run :: "help_texts \<Rightarrow> cli_app \<Rightarrow> app_command \<Rightarrow> string list \<Rightarrow> (world, (goerror + unit) ended) state" where
  "Command_Run h app c args = do {
     env \<leftarrow> current_env;
     let flags = cmd_Flags c @ [HelpFlag];
     let show_help = ShowCommandHelp h app (cmd_Name c);
     (case parseFlags env flags args of
        Inl e \<Rightarrow> usage_error (''Incorrect Usage: '' @ e @ [newline, newline]) show_help (ErrMsg e)
      | Inr s \<Rightarrow>
          if flag_bool (fl_formal s) ''h'' \<or> flag_bool (fl_formal s) ''help''
          then do { _ \<leftarrow> show_help; State_Monad.return (Returned (Inr ())) }
          else (case checkRequiredFlags env flags s of
             Some e \<Rightarrow> usage_error [] show_help (ErrMsg e)
           | None \<Rightarrow> Command_act show_help c (fl_args s) (fl_formal s))) }"

text \<open>The application, with the arguments after its name.\<close>

definition App_Run :: "help_texts \<Rightarrow> cli_app \<Rightarrow> string list \<Rightarrow> (world, (goerror + unit) ended) state" where
  "App_Run h app args = do {
     env \<leftarrow> current_env;
     let flags = all_flags app;
     let show_help = ShowAppHelp h app;
     (case flagSet env flags NewFlagSet of
        Inl e \<Rightarrow> State_Monad.return (Returned (Inl (ErrMsg e)))
      | Inr s0 \<Rightarrow>
         (case flag_Parse args s0 of (err, s1) \<Rightarrow>
            (case normalizeFlags (fl_actual s1) flags s1 of
               Inl e \<Rightarrow> usage_error (e @ [newline]) show_help (ErrMsg e)
             | Inr s \<Rightarrow>
                (case err of
                   Some e \<Rightarrow> usage_error (''Incorrect Usage. '' @ e @ [newline, newline]) show_help (ErrMsg e)
                 | None \<Rightarrow>
                    if flag_bool (fl_formal s) ''help'' \<or> flag_bool (fl_formal s) ''h''
                    then do { _ \<leftarrow> show_help; State_Monad.return (Returned (Inr ())) }
                    else if flag_bool (fl_formal s) ''version'' \<or> flag_bool (fl_formal s) ''v''
                    then do {
                      _ \<leftarrow> print_text (a_Name app @ '' version '' @ a_Version app @ [newline]);
                      State_Monad.return (Returned (Inr ())) }
                    else (case checkRequiredFlags env flags s of
                       Some e \<Rightarrow> usage_error [] show_help (ErrMsg e)
                     | None \<Rightarrow> do {
                         b \<leftarrow> a_Before app (fl_formal s);
                         (case b of
                            Some e \<Rightarrow> usage_error (e @ [newline, newline]) show_help (ErrMsg e)
                          | None \<Rightarrow>
                             (case fl_args s of
                                [] \<Rightarrow> do { r \<leftarrow> help_Action h app []; HandleExitCoder r }
                              | name # rest \<Rightarrow>
                                 (case find (\<lambda>c. HasName c name) (runnable h app) of
                                    Some c \<Rightarrow> Command_Run h app c rest
                                  | None \<Rightarrow> do { r \<leftarrow> help_Action h app (name # rest); HandleExitCoder r }))) }))))) }"

section \<open>Values of flags\<close>

lemma fold_flag_Var:
  "fl_formal (fold (\<lambda>name. flag_Var name v) ns s) = fl_formal s @ map (\<lambda>n. (n, v)) ns"
  "fl_actual (fold (\<lambda>name. flag_Var name v) ns s) = fl_actual s"
  "fl_args (fold (\<lambda>name. flag_Var name v) ns s) = fl_args s"
  by (induction ns arbitrary: s) (simp_all add: flag_Var_def)

text \<open>A flag whose names are its own has its default before the arguments are read.\<close>

lemma flagSet_defaults:
  assumes "flagSet env fs s = Inr s'"
  shows "fl_actual s' = fl_actual s" "fl_args s' = fl_args s"
    "\<exists>al. fl_formal s' = fl_formal s @ al \<and> map fst al = concat (map flag_names fs) \<and>
       (\<forall>f n. f \<in> set fs \<longrightarrow> n \<in> set (flag_names f) \<longrightarrow> (\<exists>v. (n, v) \<in> set al \<and> flag_default env f = Inr v))"
  using assms
proof (induction env fs s rule: flagSet.induct)
  case (2 env f fs s)
  {
    case 1
    then show ?case using 2 by (auto simp: ApplyWithError_def fold_flag_Var split: sum.splits)
  next
    case 2
    then show ?case using "2.IH" by (auto simp: ApplyWithError_def fold_flag_Var split: sum.splits)
  next
    case 3
    then obtain v where v: "flag_default env f = Inr v"
      and rest: "flagSet env fs (fold (\<lambda>name. flag_Var name v) (flag_names f) s) = Inr s'"
      by (auto simp: ApplyWithError_def split: sum.splits)
    obtain al where al: "fl_formal s' = fl_formal s @ map (\<lambda>n. (n, v)) (flag_names f) @ al"
      "map fst al = concat (map flag_names fs)"
      "\<forall>f n. f \<in> set fs \<longrightarrow> n \<in> set (flag_names f) \<longrightarrow> (\<exists>v. (n, v) \<in> set al \<and> flag_default env f = Inr v)"
      using "2.IH"(3) [OF _ rest] v by (auto simp: ApplyWithError_def fold_flag_Var)
    show ?case
      using v al(2,3)
      by (intro exI [of _ "map (\<lambda>n. (n, v)) (flag_names f) @ al"]) (simp add: al(1) comp_def, blast)
  }
qed simp_all

lemma flagSet_default:
  assumes "flagSet env fs NewFlagSet = Inr s" "distinct (concat (map flag_names fs))"
    "f \<in> set fs" "n \<in> set (flag_names f)"
  shows "\<exists>v. map_of (fl_formal s) n = Some v \<and> flag_default env f = Inr v"
proof -
  obtain al where al: "fl_formal s = al" "map fst al = concat (map flag_names fs)"
    "\<And>f n. f \<in> set fs \<Longrightarrow> n \<in> set (flag_names f) \<Longrightarrow> \<exists>v. (n, v) \<in> set al \<and> flag_default env f = Inr v"
    using flagSet_defaults(3) [OF assms(1)] by (auto simp: NewFlagSet_def)
  obtain v where "(n, v) \<in> set al" "flag_default env f = Inr v" using al(3) [OF assms(3,4)] by blast
  moreover have "distinct (map fst al)" using assms(2) al(2) by simp
  ultimately show ?thesis using al(1) by auto
qed

lemma normalizeFlags_none:
  assumes "\<And>f n. \<lbrakk>f \<in> set fs; n \<in> set (flag_names f); n \<in> set visited\<rbrakk> \<Longrightarrow> length (flag_names f) = 1"
  shows "normalizeFlags visited fs s = Inr s"
  using assms
proof (induction fs)
  case (Cons f fs)
  have "normalize_flag visited f s = Inr s"
  proof (cases "length (flag_names f) = 1")
    case False
    then have "filter (\<lambda>n. n \<in> set visited) (flag_names f) = []"
      using Cons.prems [of f] by (auto simp: filter_empty_conv)
    then show ?thesis by (simp add: normalize_flag_def Let_def)
  qed (simp add: normalize_flag_def Let_def)
  then show ?case using Cons by auto
qed simp

lemma Split_hd: "c \<notin> set n \<Longrightarrow> hd (Split (n @ c # v) c) = n"
  by (induction n) (auto split: list.split)

text \<open>A command line that spells values out is read as these values.\<close>

lemma reorder_spelled:
  assumes "\<forall>kv \<in> set kvs. flag_name_ok (fst kv) \<and> (\<exists>f \<in> set fs. \<exists>k \<in> set (Split (flag_Name f) (CHR '','')). TrimSpace k = fst kv)"
  shows "reorder fs False (map spelled kvs) = (map spelled kvs, [])"
  using assms
proof (induction kvs)
  case (Cons kv kvs)
  obtain n v where kv: "kv = (n, v)" by fastforce
  have n: "flag_name_ok n" using Cons.prems by (simp add: kv)
  then obtain c cs where c: "n = c # cs" "c \<noteq> CHR ''-''" by (cases n) (auto simp: flag_name_ok_def)
  have "flag_of_arg (spelled kv) = n"
  proof -
    have "\<not> HasPrefix (n @ CHR ''='' # value_String v) ''-''" using c by (simp add: HasPrefix_def)
    moreover have "HasPrefix (spelled kv) ''--''" "drop 2 (spelled kv) = n @ CHR ''='' # value_String v"
      by (simp_all add: HasPrefix_def spelled_def kv)
    ultimately show ?thesis
      using n by (simp add: flag_of_arg_def Split_hd flag_name_ok_def)
  qed
  moreover have "spelled kv \<noteq> ''--''" "spelled kv \<noteq> ''-''" "HasPrefix (spelled kv) ''-''"
    by (simp_all add: spelled_def HasPrefix_def)
  moreover have "Contains (spelled kv) ''=''"
    unfolding Contains_def sublist_def spelled_def by (metis append_Cons append_Nil append_assoc)
  ultimately show ?case using Cons by (auto simp: argIsFlag_def list_ex_iff kv)
qed simp

lemma parseFlags_spelled:
  assumes s0: "flagSet env fs NewFlagSet = Inr s0"
    and fit: "\<forall>kv \<in> set kvs. fits (fl_formal s0) kv \<and> (\<exists>f \<in> set fs. \<exists>k \<in> set (Split (flag_Name f) (CHR '','')). TrimSpace k = fst kv)"
    and single: "\<And>f n. \<lbrakk>f \<in> set fs; n \<in> set (flag_names f); n \<in> fst ` set kvs\<rbrakk> \<Longrightarrow> length (flag_names f) = 1"
  shows "parseFlags env fs (map spelled kvs) = Inr ((fold set_flag kvs s0)\<lparr>fl_args := []\<rparr>)"
proof -
  have "reorderArgs fs (map spelled kvs) = map spelled kvs"
    unfolding reorderArgs_def
    by (subst reorder_spelled) (use fit in \<open>auto simp: fits_def\<close>)
  moreover have "flag_Parse (map spelled kvs) s0 = (None, (fold set_flag kvs s0)\<lparr>fl_args := []\<rparr>)"
    using flag_Parse_spelled [of kvs s0 "[]"] fit by simp
  moreover have "normalizeFlags (fl_actual (fold set_flag kvs s0)) fs s = Inr s" for s
  proof (rule normalizeFlags_none)
    fix f n
    assume "f \<in> set fs" "n \<in> set (flag_names f)" "n \<in> set (fl_actual (fold set_flag kvs s0))"
    then show "length (flag_names f) = 1"
      using single by (simp add: fold_set_flag flagSet_defaults(1) [OF s0] NewFlagSet_def)
  qed
  ultimately show ?thesis using s0 by (simp add: parseFlags_def)
qed

lemma flagSet_ok:
  assumes "\<forall>f \<in> set fs. is_ok (flag_default env f)"
  shows "\<exists>s'. flagSet env fs s = Inr s'"
  using assms by (induction fs arbitrary: s) (auto simp: ApplyWithError_def is_ok_iff)

lemma flag_default_no_env: "flag_kind f = BoolFlag \<Longrightarrow> flag_EnvVar f = [] \<Longrightarrow> flag_default env f = Inr (BoolValue False)"
  by (simp add: flag_default_def flagFromFileEnv_def env_lookup_def TrimSpace_def TrimFunc_def TrimLeft_def TrimRight_def
      map_filter_simps)

lemma library_names: "flag_names HelpFlag = [''help'', ''h'']" "flag_names VersionFlag = [''version'', ''v'']"
  by code_simp+

lemma library_default: "flag_default env HelpFlag = Inr (BoolValue False)" "flag_default env VersionFlag = Inr (BoolValue False)"
  by (simp_all add: flag_default_no_env HelpFlag_def VersionFlag_def bool_flag_def)

lemma unset_flag:
  assumes "flagSet env fs NewFlagSet = Inr s" "distinct (concat (map flag_names fs))"
    "f \<in> set fs" "n \<in> set (flag_names f)" "flag_default env f = Inr (BoolValue False)"
  shows "\<not> flag_bool (fl_formal s) n"
  using flagSet_default [OF assms(1-4)] assms(5) by (auto simp: flag_bool_def)

lemma nothing_required: "list_all (\<lambda>f. \<not> flag_Required f) flags \<Longrightarrow> checkRequiredFlags env flags s = None"
proof -
  assume none: "list_all (\<lambda>f. \<not> flag_Required f) flags"
  have "List.map_filter (missing_flag env all s) fs = []" if "list_all (\<lambda>f. \<not> flag_Required f) fs" for all fs
    using that by (induction fs) (simp_all add: map_filter_simps missing_flag_def Let_def)
  then show ?thesis using none by (simp add: checkRequiredFlags_def)
qed

lemma checkRequiredFlags_None: "checkRequiredFlags env flags s = None \<Longrightarrow> f \<in> set flags \<Longrightarrow> missing_flag env flags s f = None"
  by (auto simp: checkRequiredFlags_def List.map_filter_def filter_empty_conv split: list.splits)

lemma missing_flag_single:
  "Split (flag_Name f) (CHR '','') = [n] \<Longrightarrow> TrimSpace n = n \<Longrightarrow> IsSet env flags s n \<Longrightarrow> missing_flag env flags s f = None"
  by (simp add: missing_flag_def)

text \<open>The name of a command as the first argument: the application runs the command with the rest.\<close>

lemma App_Run_command:
  assumes ok: "\<forall>f \<in> set (a_Flags app). is_ok (flag_default (w_env w) f) \<and> \<not> flag_Required f"
    and names: "distinct (concat (map flag_names (all_flags app)))"
    and word: "arg_word name = NoFlag" and before: "\<And>vars. a_Before app vars = State_Monad.return None"
    and cmd: "find (\<lambda>c. HasName c name) (runnable h app) = Some c"
  shows "run_state (App_Run h app (name # rest)) w = run_state (Command_Run h app c rest) w"
proof -
  have "\<forall>f \<in> set (all_flags app). is_ok (flag_default (w_env w) f)"
    using ok by (auto simp: all_flags_def library_default)
  then obtain s0 where s0: "flagSet (w_env w) (all_flags app) NewFlagSet = Inr s0" using flagSet_ok by blast
  have lib: "HelpFlag \<in> set (all_flags app)" "VersionFlag \<in> set (all_flags app)" by (simp_all add: all_flags_def)
  have unset: "\<not> flag_bool (fl_formal s0) n" if "n \<in> {''help'', ''h'', ''version'', ''v''}" for n
    using unset_flag [OF s0 names lib(1) _ library_default(1)] unset_flag [OF s0 names lib(2) _ library_default(2)] that
    by (auto simp: library_names)
  have actual: "fl_actual s0 = []" using flagSet_defaults(1) [OF s0] by (simp add: NewFlagSet_def)
  have norm: "normalizeFlags [] (all_flags app) s = Inr s" for s by (rule normalizeFlags_none) simp
  have req: "checkRequiredFlags env (all_flags app) s = None" for env s
    by (rule nothing_required)
      (use ok in \<open>auto simp: all_flags_def list_all_iff HelpFlag_def VersionFlag_def bool_flag_def\<close>)
  show ?thesis
    using s0 unset by (simp add: App_Run_def current_env_def Let_def word actual norm req before cmd)
qed

section \<open>What the library does by itself\<close>

text \<open>
  A relation between worlds that printing and exiting keep is kept by every run of an application
  whose commands keep it, those commands that the arguments can name.
\<close>

locale command_frame =
  fixes R :: "world \<Rightarrow> world \<Rightarrow> bool"
  assumes same: "reflp R" and later: "transp R"
    and prints: "keeps R (emit (EvPrint s))" and exits: "keeps R (emit (EvExit n))"
begin

lemma bind: "keeps R m \<Longrightarrow> (\<And>a. keeps R (f a)) \<Longrightarrow> keeps R (State_Monad.bind m f)"
  by (rule keeps_bind [OF later])

lemma ret: "keeps R (State_Monad.return a)"
  by (rule keeps_return [OF same])

lemma env: "keeps R current_env"
  using same by (simp add: keeps_def current_env_def reflp_def)

lemma help_app: "keeps R (ShowAppHelp h app)"
  unfolding ShowAppHelp_def print_text_def by (rule prints)

lemma help_command: "keeps R (ShowCommandHelp h app name)"
  unfolding ShowCommandHelp_def print_text_def
  by (auto intro!: bind ret prints split: option.split)

lemma help_action: "keeps R (help_Action h app args)"
  unfolding help_Action_def by (auto intro!: bind ret help_app help_command split: list.split)

lemma exit_coder: "keeps R (HandleExitCoder r)"
  unfolding HandleExitCoder_def print_text_def by (auto intro!: bind ret prints exits split: option.split)

lemma usage: "keeps R show \<Longrightarrow> keeps R (usage_error said show e)"
  unfolding usage_error_def print_text_def by (auto intro!: bind ret prints)

lemma act:
  assumes "keeps R show" "\<And>sh vars. keeps R sh \<Longrightarrow> keeps R (cmd_Before c sh vars)"
    "\<And>as vars. keeps R (cmd_Action c as vars)"
  shows "keeps R (Command_act show c args vars)"
  unfolding Command_act_def
  by (auto intro!: bind ret assms usage exit_coder split: ended.split sum.split)

lemma run_command:
  assumes "\<And>sh args vars. keeps R sh \<Longrightarrow> keeps R (Command_act sh c args vars)"
  shows "keeps R (Command_Run h app c args)"
  unfolding Command_Run_def Let_def
  by (auto intro!: bind ret env usage help_command assms split: option.split sum.split)

lemma run_app:
  assumes before: "\<And>vars. keeps R (a_Before app vars)"
    and commands: "\<And>c n sh as vars. \<lbrakk>c \<in> set (a_Commands app); n \<in> set args; HasName c n; keeps R sh\<rbrakk>
      \<Longrightarrow> keeps R (Command_act sh c as vars)"
  shows "keeps R (App_Run h app args)"
proof -
  have dispatch: "keeps R (case fl_args s of
      [] \<Rightarrow> do { r \<leftarrow> help_Action h app []; HandleExitCoder r }
    | name # rest \<Rightarrow>
       (case find (\<lambda>c. HasName c name) (runnable h app) of
          Some c \<Rightarrow> Command_Run h app c rest
        | None \<Rightarrow> do { r \<leftarrow> help_Action h app (name # rest); HandleExitCoder r }))"
    if "set (fl_args s) \<subseteq> set args" for s
  proof (cases "fl_args s")
    case Nil
    then show ?thesis by (auto intro!: bind help_action exit_coder)
  next
    case (Cons name rest)
    show ?thesis
    proof (cases "find (\<lambda>c. HasName c name) (runnable h app)")
      case None
      then show ?thesis using Cons by (auto intro!: bind help_action exit_coder)
    next
      case (Some c)
      then have c: "c \<in> set (runnable h app)" "HasName c name" by (auto simp: find_Some_iff)
      have "keeps R (Command_act sh c as vars)" if sh: "keeps R sh" for sh as vars
      proof (cases "c \<in> set (a_Commands app)")
        case True
        then show ?thesis using commands [OF True _ c(2) sh] Cons \<open>set (fl_args s) \<subseteq> set args\<close> by auto
      next
        case False
        then have "c = cli_command.extend helpCommand
            \<lparr>cmd_Before = \<lambda>_ vars. State_Monad.return (Returned (Inr vars)),
             cmd_Action = \<lambda>args _. help_Action h app args\<rparr>"
          using c(1) by (simp add: runnable_def)
        then show ?thesis
          by (intro act sh) (simp_all add: cli_command.defs ret help_action)
      qed
      then show ?thesis using Some Cons by (simp add: run_command)
    qed
  qed
  have rest: "set (fl_args s) \<subseteq> set args" if "flag_Parse args s0 = (err, s1)" "normalizeFlags v fs s1 = Inr s" for v fs s0 s1 s err
    using flag_Parse_args [of args s0] normalizeFlags_args [OF that(2)] that(1) by simp
  show ?thesis
    unfolding App_Run_def Let_def
    by (auto intro!: bind ret env usage help_app before prints simp: print_text_def
        split: option.split sum.split prod.split dest!: rest intro!: dispatch)
qed

end

end
