(* ===== verification/Cli.thy ===== *)
theory Cli
  imports CC Upgrade InstallLaws RCLaws EnterLaws TransferLaws CommandLine
begin

text \<open>
  The program as a whole: \<^verbatim>\<open>main.go\<close>, the commands of \<^verbatim>\<open>pkg/cli\<close> and what every way of calling the program
  keeps. The command line library is that of the theory \<open>CommandLine\<close>; the texts of help are a parameter.
\<close>

section \<open>The commands\<close>

definition version_Version :: string where "version_Version = ''HEAD''"

text \<open>The variables that the flags of \<open>config\<close> are bound to.\<close>

record config_flags =
  cf_initrd :: bool
  cf_bootPhase :: bool
  cf_installPhase :: bool
  cf_dump :: bool
  cf_dumpJSON :: bool

text \<open>Everything the program takes from outside the model.\<close>

record outside_world =
  ow_deps :: deps
  ow_unmarshal :: yaml
  ow_marshal :: yaml_printer
  ow_json :: "CloudConfig \<Rightarrow> goerror + string"
  ow_output :: "cmd \<Rightarrow> fs \<Rightarrow> string"
  ow_tty :: tty
  ow_upgrade :: upgrade_env
  ow_devices :: devices
  ow_statfs :: "world \<Rightarrow> errno + int"
  ow_process :: process
  ow_help :: help_texts

definition print_out :: "string \<Rightarrow> unit os" where
  "print_out bytes = do { _ \<leftarrow> emit (EvPrint bytes); State_Monad.return (Inr ()) }"

definition config_Main :: "outside_world \<Rightarrow> config_flags \<Rightarrow> unit os" where
  "config_Main ow f = do {
     (cfg, err) \<leftarrow> ReadConfig (ow_unmarshal ow);
     (case err of
        Some e \<Rightarrow> State_Monad.return (Inl e)
      | None \<Rightarrow>
         if cf_initrd f then InitApply (ow_deps ow) cfg
         else if cf_bootPhase f then BootApply (ow_deps ow) cfg
         else if cf_installPhase f then InstallApply (ow_deps ow) cfg
         else if cf_dump f then Write (ow_marshal ow) cfg print_out
         else if cf_dumpJSON f then
           (case ow_json ow cfg of Inl e \<Rightarrow> State_Monad.return (Inl e) | Inr bytes \<Rightarrow> print_out bytes)
         else RunApply (ow_deps ow) cfg) }"

text \<open>An action whose error is only logged.\<close>

definition log_error :: "unit os \<Rightarrow> unit os" where
  "log_error m = do {
     r \<leftarrow> m;
     (case r of
        Inl e \<Rightarrow> do { _ \<leftarrow> emit (EvLog e); State_Monad.return (Inr ()) }
      | Inr _ \<Rightarrow> State_Monad.return (Inr ())) }"

definition config_Action :: "outside_world \<Rightarrow> config_flags \<Rightarrow> unit os" where
  "config_Action ow f = log_error (config_Main ow f)"

definition install_Action :: "outside_world \<Rightarrow> unit os" where
  "install_Action ow =
     log_error (cliinstall_Run (ow_unmarshal ow) (ow_marshal ow) (ow_output ow) (ow_tty ow) (p_arg0 (ow_process ow)))"

text \<open>\<open>install\<close> is not shown in the help of an installed system.\<close>

definition install_hidden :: "(world, bool) state" where
  "install_hidden = do {
     mode \<leftarrow> mode_Get [];
     State_Monad.return (case mode of Inl _ \<Rightarrow> False | Inr m \<Rightarrow> m = ''local'') }"

definition no_result :: "(world, 'a) state \<Rightarrow> (world, exit_error option) state" where
  "no_result m = do { _ \<leftarrow> m; State_Monad.return None }"

text \<open>The \<open>Before\<close> of \<open>rc\<close>, \<open>config\<close> and \<open>install\<close>.\<close>

definition root_Before :: "(world, unit) state \<Rightarrow> vars \<Rightarrow> (world, (goerror + vars) ended) state" where
  "root_Before show_help vars = do {
     b \<leftarrow> must_be_root;
     State_Monad.return (Returned (case b of Inl e \<Rightarrow> Inl e | Inr _ \<Rightarrow> Inr vars)) }"

definition rc_Command :: app_command where
  "rc_Command =
     \<lparr>cmd_Name = ''rc'', cmd_ShortName = [], cmd_Aliases = [],
      cmd_Usage = ''early phase \"run commands\" / \"run control\"'', cmd_Flags = [], cmd_Hidden = False,
      cmd_Before = root_Before, cmd_Action = \<lambda>_ _. no_result rc_Action\<rparr>"

definition config_Flags :: "cli_flag list" where
  "config_Flags =
     [bool_flag ''initrd'' ''Run initrd stage'' [] False,
      bool_flag ''boot'' ''Run boot stage'' [] False,
      bool_flag ''install'' ''Run install stage'' [] False,
      bool_flag ''dump'' ''Print current configuration'' [] False,
      bool_flag ''dump-json'' ''Print current configuration in json'' [] False]"

definition config_flags_of :: "vars \<Rightarrow> config_flags" where
  "config_flags_of vars =
     \<lparr>cf_initrd = flag_bool vars ''initrd'', cf_bootPhase = flag_bool vars ''boot'',
      cf_installPhase = flag_bool vars ''install'', cf_dump = flag_bool vars ''dump'',
      cf_dumpJSON = flag_bool vars ''dump-json''\<rparr>"

definition config_Command :: "outside_world \<Rightarrow> app_command" where
  "config_Command ow =
     \<lparr>cmd_Name = ''config'', cmd_ShortName = ''cfg'', cmd_Aliases = [], cmd_Usage = ''configure k3OS'',
      cmd_Flags = config_Flags, cmd_Hidden = False, cmd_Before = root_Before,
      cmd_Action = \<lambda>_ vars. no_result (config_Action ow (config_flags_of vars))\<rparr>"

definition install_Command :: "outside_world \<Rightarrow> bool \<Rightarrow> app_command" where
  "install_Command ow hidden =
     \<lparr>cmd_Name = ''install'', cmd_ShortName = [], cmd_Aliases = [], cmd_Usage = ''install k3OS'',
      cmd_Flags = [], cmd_Hidden = hidden, cmd_Before = root_Before,
      cmd_Action = \<lambda>_ _. no_result (install_Action ow)\<rparr>"

text \<open>The flags of \<open>upgrade\<close>; the two directories are required although they have a default.\<close>

definition upgrade_Flags :: "cli_flag list" where
  "upgrade_Flags =
     [bool_flag ''k3os'' [] ''K3OS_UPGRADE_K3OS'' True,
      bool_flag ''k3s'' [] ''K3OS_UPGRADE_K3S'' True,
      bool_flag ''kernel'' ''upgrade the kernel'' ''K3OS_UPGRADE_KERNEL'' False,
      bool_flag ''rootfs'' ''upgrade k3os+k3s'' ''K3OS_UPGRADE_ROOTFS'' False,
      bool_flag ''remount'' ''pre-upgrade remount?'' ''K3OS_UPGRADE_REMOUNT'' False,
      bool_flag ''sync'' ''post-upgrade sync?'' ''K3OS_UPGRADE_SYNC'' False,
      bool_flag ''reboot'' ''post-upgrade reboot?'' ''K3OS_UPGRADE_REBOOT'' False,
      string_flag ''source'' ''K3OS_UPGRADE_SOURCE'' (RootPath []) True False,
      string_flag ''destination'' ''K3OS_UPGRADE_DESTINATION'' (RootPath []) True False,
      string_flag ''lock-file'' ''K3OS_UPGRADE_LOCK_FILE'' (StatePath [''upgrade.lock'']) False True]"

definition upgrade_flags_of :: "vars \<Rightarrow> upgrade_flags" where
  "upgrade_flags_of vars =
     \<lparr>upgradeK3OS = flag_bool vars ''k3os'', upgradeK3S = flag_bool vars ''k3s'',
      upgradeKernel = flag_bool vars ''kernel'', upgradeRootFS = flag_bool vars ''rootfs'',
      doRemount = flag_bool vars ''remount'', doSync = flag_bool vars ''sync'', doReboot = flag_bool vars ''reboot'',
      sourceDir = flag_text vars ''source'', destinationDir = flag_text vars ''destination'',
      lockFile = flag_text vars ''lock-file''\<rparr>"

text \<open>What is wrong with the settings is said after the help, and the process exits.\<close>

definition upgrade_or_exit :: "(world, unit) state \<Rightarrow> vars \<Rightarrow> (world, (goerror + vars) ended) state" where
  "upgrade_or_exit show_help vars =
     (case upgrade_Before (upgrade_flags_of vars) of
        Inl msg \<Rightarrow> do { _ \<leftarrow> show_help; _ \<leftarrow> fatal (ErrMsg msg); State_Monad.return Exited }
      | Inr u \<Rightarrow>
          State_Monad.return (Returned (Inr
            (AList.update ''k3s'' (BoolValue (upgradeK3S u)) (AList.update ''k3os'' (BoolValue (upgradeK3OS u)) vars)))))"

definition upgrade_Command :: "outside_world \<Rightarrow> app_command" where
  "upgrade_Command ow =
     \<lparr>cmd_Name = ''upgrade'', cmd_ShortName = [], cmd_Aliases = [], cmd_Usage = ''perform upgrades'',
      cmd_Flags = upgrade_Flags, cmd_Hidden = False, cmd_Before = upgrade_or_exit,
      cmd_Action = \<lambda>_ vars. no_result (upgrade_Run (ow_upgrade ow) (upgrade_flags_of vars))\<rparr>"

section \<open>The application\<close>

definition app_Name :: string where "app_Name = ''k3os''"

definition app_commands :: "outside_world \<Rightarrow> bool \<Rightarrow> app_command list" where
  "app_commands ow hidden = [rc_Command, config_Command ow, install_Command ow hidden, upgrade_Command ow]"

text \<open>\<open>Before\<close> sets the level of the log, which only matters to messages that are left out here.\<close>

definition app_New :: "outside_world \<Rightarrow> (world, cli_app) state" where
  "app_New ow = do {
     hidden \<leftarrow> install_hidden;
     State_Monad.return
       \<lparr>a_HelpName = path_Base (p_arg0 (ow_process ow)), a_Name = app_Name,
        a_Usage = ''Booting to k3s so you don'' @ [CHR 0x27] @ ''t have to'', a_Version = version_Version,
        a_Flags = [bool_flag ''debug'' ''Turn on debug logs'' ''K3OS_DEBUG'' False],
        a_Commands = app_commands ow hidden,
        a_Before = \<lambda>_. State_Monad.return None\<rparr> }"

section \<open>main.go\<close>

text \<open>A link to the program that has the name of a command is that command.\<close>

definition main_args :: "cli_app \<Rightarrow> string \<Rightarrow> string list \<Rightarrow> string list" where
  "main_args app arg0 rest =
     (let path = path_Base arg0 in
      a_Name app # (if path \<noteq> a_Name app \<and> list_ex (\<lambda>c. HasName c path) (a_Commands app) then [path] else []) @ rest)"

definition initrd :: "outside_world \<Rightarrow> (world, unit) state" where
  "initrd ow = do {
     ret \<leftarrow> Relocate (ow_devices ow) (ow_statfs ow);
     if \<not> ret then State_Monad.return ()
     else do {
       m \<leftarrow> Mount [] ''/'' ''none'' ''rw,remount'';
       _ \<leftarrow> warn ''failed to remount root as rw'' m;
       let p = ow_process ow;
       r \<leftarrow> enter_Mount p ''k3os.debug'' ''./k3os/data'' (p_arg0 p # p_rest p);
       (case r of Inl e \<Rightarrow> fatal (ErrWrap ''failed to enter root'' e) | Inr _ \<Rightarrow> State_Monad.return ()) } }"

definition main :: "outside_world \<Rightarrow> (world, unit) state" where
  "main ow =
     (let p = ow_process ow in
      if p_arg0 p = ''/init'' \<or> p_arg0 p = ''/sbin/init'' then initrd ow
      else if p_arg0 p = ''enter-root'' then Enter p
      else do {
        app \<leftarrow> app_New ow;
        r \<leftarrow> App_Run (ow_help ow) app (tl (main_args app (p_arg0 p) (p_rest p)));
        (case r of Exited \<Rightarrow> State_Monad.return () | Returned res \<Rightarrow> or_fatal res State_Monad.return) })"

section \<open>The parts are programs\<close>

lemma program_quiz [program_intros]: "program (quiz q)"
  unfolding quiz_def
proof (rule program_State)
  fix w :: world
  obtain r inp out where q: "q (w_stdin w) = (r, inp, out)" by (metis prod_cases3)
  show "ksteps w (snd (case q (w_stdin w) of
      (r, inp, out) \<Rightarrow> (r, w\<lparr>w_stdin := inp, w_trace := w_trace w @ [EvPrint out]\<rparr>)))"
    using ksteps_emit [OF r_into_rtranclp, OF k_stdin [of w inp], of "EvPrint out"] q by simp
qed

lemma program_cmd_Output [program_intros]: "program (cmd_Output out c)"
  unfolding cmd_Output_def by (intro program_intros)

lemma program_the_install [program_intros]: "(\<And>i. program (f i)) \<Longrightarrow> program (the_install cfg f)"
  unfolding the_install_def by (intro program_intros)

lemma program_readers [program_intros]:
  "program (readSystemConfig y)" "program readCmdline" "program (readLocalConfig y)" "program readCloudConfig"
  "program (readUserData y)" "program (readLocalConfigs y)"
  unfolding readSystemConfig_def readCmdline_def readLocalConfig_def readCloudConfig_def readUserData_def
    readLocalConfigs_def readFile_def Let_def
  by (intro program_intros)+

lemma readLocalConfigs_programs:
  "run_state (readLocalConfigs y) w = (rs, v) \<Longrightarrow> r \<in> set rs \<Longrightarrow> program r"
  by (auto simp: readLocalConfigs_def readFile_def split: sum.splits prod.splits if_splits intro!: program_intros)

lemma program_merge_from [program_intros]: "(\<And>r. r \<in> set rs \<Longrightarrow> program r) \<Longrightarrow> program (merge_from data rs)"
  by (induction rs arbitrary: data) (auto intro!: program_intros)

lemma program_readersToObject: "(\<And>r. r \<in> set rs \<Longrightarrow> program r) \<Longrightarrow> program (readersToObject rs)"
  unfolding readersToObject_def merge_def by (intro program_intros)

lemma program_ReadConfig [program_intros]: "program (ReadConfig y)"
proof (rule programI)
  fix w a w'
  assume r: "run_state (ReadConfig y) w = (a, w')"
  obtain rs v where l: "run_state (readLocalConfigs y) w = (rs, v)" by fastforce
  have m: "run_state (readersToObject (default_readers y @ rs)) v = (a, w')" using r l by (simp add: ReadConfig_def)
  have "program (readersToObject (default_readers y @ rs))"
    by (rule program_readersToObject)
      (use readLocalConfigs_programs [OF l] in \<open>auto simp: default_readers_def intro: program_readers\<close>)
  then have "ksteps v w'" using m unfolding program_def by (rule keeps_run)
  moreover have "ksteps w v" using program_readers(6) l unfolding program_def by (rule keeps_run)
  ultimately show "ksteps w w'" by (rule rtranclp_trans [rotated])
qed

lemma program_questions [program_intros]:
  "program isInstall" "program (AskInstallDevice out cfg)" "program (AskConfigURL cfg)" "program (AskGithub cfg)"
  "program (AskPassword t cfg)" "program (AskWifi cfg)" "program (AskToken cfg b)" "program (isServer cfg)"
  unfolding isInstall_def AskInstallDevice_def AskConfigURL_def AskGithub_def AskPassword_def encrypt_password_def
    read_encrypted_def AskWifi_def AskToken_def isServer_def Let_def
  by (intro program_intros)+

lemma program_AskServerAgent [program_intros]: "program (AskServerAgent cfg)"
  unfolding AskServerAgent_def by (intro program_intros)

lemma program_AskInstall [program_intros]: "program (AskInstall out t cfg)"
  unfolding AskInstall_def by (intro program_intros)

lemma program_Ask [program_intros]: "program (Ask out t cfg)"
  unfolding Ask_def by (intro program_intros)

lemma program_installer [program_intros]:
  "program (runCCApply a)" "program (run_installer ev)" "program (install_with_file m cfg i)" "program (save_config a b)"
  unfolding runCCApply_def run_installer_def install_with_file_def save_config_def Let_def
  by (intro program_intros)+

lemma program_runInstall [program_intros]: "program (runInstall m cfg)"
  unfolding runInstall_def by (intro program_intros)

lemma program_cliinstall_Run [program_intros]: "program (cliinstall_Run y m out t a)"
  unfolding cliinstall_Run_def by (intro program_intros)

lemma program_print_out [program_intros]: "program (print_out b)"
  unfolding print_out_def by (intro program_intros)

lemma program_config_Main [program_intros]: "program (config_Main ow f)"
  unfolding config_Main_def Write_def by (intro program_intros program_phases)

interpretation programs: command_frame ksteps
  by unfold_locales (simp_all add: reflp_def transp_def flip: program_def, auto intro: program_intros rtranclp_trans)

lemma program_no_result: "program m \<Longrightarrow> program (no_result m)"
  unfolding no_result_def by (intro program_intros)

lemma program_rooted: "program (root_Before sh vars)"
  unfolding root_Before_def by (intro program_intros)

lemma program_upgrade_or_exit: "program sh \<Longrightarrow> program (upgrade_or_exit sh vars)"
  unfolding upgrade_or_exit_def by (auto intro!: program_intros split: sum.split)

lemma program_actions:
  "program rc_Action" "program (config_Action ow f)" "program (install_Action ow)" "program (upgrade_Run u v)"
  unfolding config_Action_def install_Action_def log_error_def by (intro program_intros)+

lemma program_command:
  assumes "c \<in> set (app_commands ow hidden)" "program sh"
  shows "program (Command_act sh c as vars)"
proof -
  have "program (cmd_Before c sh vars)" if "program sh" for sh vars
    using assms(1) that
    by (auto simp: app_commands_def rc_Command_def config_Command_def install_Command_def upgrade_Command_def
        intro: program_rooted program_upgrade_or_exit)
  moreover have "program (cmd_Action c as vars)" for as vars
    using assms(1)
    by (auto simp: app_commands_def rc_Command_def config_Command_def install_Command_def upgrade_Command_def
        intro!: program_no_result program_actions)
  ultimately show ?thesis
    using programs.act [of sh c as vars] assms(2) unfolding program_def by blast
qed

lemma program_app_New [program_intros]: "program (app_New ow)"
  unfolding app_New_def install_hidden_def by (intro program_intros)

lemma app_New_parts:
  assumes "run_state (app_New ow) w = (app, w')"
  obtains hidden where "a_Commands app = app_commands ow hidden" "a_Before app = (\<lambda>_. State_Monad.return None)"
    "a_Name app = app_Name" "a_Flags app = [bool_flag ''debug'' ''Turn on debug logs'' ''K3OS_DEBUG'' False]"
    "w' = snd (run_state install_hidden w)"
  using assms by (auto simp: app_New_def split: prod.splits)

lemma program_initrd [program_intros]: "program (initrd ow)"
  unfolding initrd_def Let_def by (intro program_intros)

lemma program_main: "program (main ow)"
proof (cases "p_arg0 (ow_process ow) \<in> {''/init'', ''/sbin/init'', ''enter-root''}")
  case True
  then show ?thesis unfolding main_def Let_def by (auto intro!: program_intros)
next
  case False
  show ?thesis
  proof (rule programI)
    fix w a w'
    assume r: "run_state (main ow) w = (a, w')"
    obtain app v where n: "run_state (app_New ow) w = (app, v)" by fastforce
    let ?args = "tl (main_args app (p_arg0 (ow_process ow)) (p_rest (ow_process ow)))"
    let ?m = "do { r \<leftarrow> App_Run (ow_help ow) app ?args;
      (case r of Exited \<Rightarrow> State_Monad.return () | Returned res \<Rightarrow> or_fatal res State_Monad.return) }"
    have m: "run_state ?m v = (a, w')" using r n False by (simp add: main_def Let_def)
    obtain hidden where app: "a_Commands app = app_commands ow hidden" "a_Before app = (\<lambda>_. State_Monad.return None)"
      by (rule app_New_parts [OF n])
    have "program (App_Run (ow_help ow) app ?args)"
      unfolding program_def
      by (rule programs.run_app)
        (use app program_command program_return in \<open>auto simp: program_def\<close>)
    then have "program ?m" by (auto intro!: program_intros split: ended.split)
    then have "ksteps v w'" using m unfolding program_def by (rule keeps_run)
    moreover have "ksteps w v" using program_app_New n unfolding program_def by (rule keeps_run)
    ultimately show "ksteps w w'" by (rule rtranclp_trans [rotated])
  qed
qed

section \<open>What every call keeps\<close>

text \<open>
  However the program is called, whatever fails and whatever the commands it runs and the mounts it makes do
  within a tree: the files form a well-formed tree at every end, and what was recorded stays recorded.
\<close>

lemma main_keeps_tree:
  assumes "wf_fs (w_fs w)" "sane_outside w"
  shows "wf_fs (w_fs (snd (run_state (main ow) w))) \<and> prefix (w_trace w) (w_trace (snd (run_state (main ow) w)))"
proof -
  have "wf_world (snd (run_state (main ow) w))"
    by (rule tree.snd_run_keeps [OF program_main]) (use assms in \<open>simp add: wf_world_def\<close>)
  then show ?thesis by (simp add: wf_world_def trace.snd_run_keeps [OF program_main])
qed

section \<open>The first process\<close>

definition remount_root :: mountreq where
  "remount_root = \<lparr>m_source = [], m_target = ''/'', m_fstype = ''none'', m_flags = MS_REMOUNT, m_data = []\<rparr>"

lemma remount_root_run:
  assumes "run_state (Mount [] ''/'' ''none'' ''rw,remount'') w = (r, w')"
  shows "w_trace w' = w_trace w @ [EvMount remount_root]"
proof -
  have o: "parseOptions ''rw,remount'' = (MS_REMOUNT, [])" "MS_REMOUNT AND MS_REMOUNT = MS_REMOUNT"
    "\<not> (MS_REMOUNT AND MS_BIND = MS_BIND)"
    by code_simp+
  then show ?thesis
    using assms by (auto simp: Mount_def ForceMount_def mount_call_def Let_def sys_mount_def remount_root_def split: option.splits prod.splits)
qed


section \<open>Names of the program\<close>

text \<open>Called by the name of a command, through a link, the program gets the arguments it gets from the command line.\<close>

lemma main_args_link:
  assumes "path_Base a \<noteq> a_Name app" "list_ex (\<lambda>c. HasName c (path_Base a)) (a_Commands app)" "path_Base b = a_Name app"
  shows "main_args app a rest = main_args app b (path_Base a # rest)"
  using assms by (simp add: main_args_def)

section \<open>Without the rights of root\<close>

text \<open>The program prints, logs and exits.\<close>

definition says :: "event \<Rightarrow> bool" where
  "says ev = (case ev of EvPrint _ \<Rightarrow> True | EvLog _ \<Rightarrow> True | EvExit _ \<Rightarrow> True | _ \<Rightarrow> False)"

definition only_says :: "world \<Rightarrow> world \<Rightarrow> bool" where
  "only_says w w' = (w_uid w \<noteq> 0 \<longrightarrow>
     w_uid w' = w_uid w \<and> w_fs w' = w_fs w \<and> (\<exists>es. w_trace w' = w_trace w @ es \<and> list_all says es))"

lemma only_says_emit: "says ev \<Longrightarrow> keeps only_says (emit ev)"
  by (auto simp: keeps_def only_says_def emit_def)

interpretation unprivileged: command_frame only_says
proof unfold_locales
  show "reflp only_says" by (auto simp: reflp_def only_says_def)
  show "transp only_says" unfolding transp_def only_says_def by (metis append_assoc list_all_append)
qed (simp_all add: only_says_emit says_def)

text \<open>A command whose \<open>Before\<close> asks for root gets no further than that.\<close>

lemma rooted_only_says:
  assumes "cmd_Before c = root_Before" "keeps only_says sh"
  shows "keeps only_says (Command_act sh c as vars)"
proof (rule keepsI)
  fix w
  show "only_says w (snd (run_state (Command_act sh c as vars) w))"
  proof (cases "w_uid w = 0")
    case False
    then have "run_state (Command_act sh c as vars) w
        = run_state (usage_error [] sh (ErrMsg ''must be run as root'')) w"
      by (simp add: Command_act_def assms(1) root_Before_def must_be_root_def Getuid_def)
    then show ?thesis using keepsD [OF unprivileged.usage [OF assms(2)]] by simp
  qed (simp add: only_says_def)
qed

lemma named_command:
  assumes "c \<in> set (app_commands ow hidden)" "HasName c n" "n \<noteq> ''upgrade''"
  shows "cmd_Before c = root_Before"
  using assms by (auto simp: app_commands_def rc_Command_def config_Command_def install_Command_def upgrade_Command_def
      HasName_def Names_def)

lemma app_New_silent: "keeps only_says (app_New ow)"
  by (rule keepsI) (auto simp: only_says_def app_New_def install_hidden_def mode_Get_def os_ReadFile_def fs_call_def
      fs_call_part_def call_results split: option.splits sum.splits prod.splits)

text \<open>
  C40. Without the rights of root the commands of the program, but \<^verbatim>\<open>upgrade\<close>, change no file and run nothing, whatever
  the flags, the arguments and the environment are: it prints, logs and exits. This is for every name the
  program is called by except \<^verbatim>\<open>/init\<close>, \<^verbatim>\<open>/sbin/init\<close> and \<^verbatim>\<open>enter-root\<close>: under these \<open>main\<close> is no command line
  but the start of the system, and asks for no rights.
\<close>

theorem main_root_only:
  assumes uid: "w_uid w \<noteq> 0" and name: "p_arg0 (ow_process ow) \<notin> {''/init'', ''/sbin/init'', ''enter-root''}"
    and args: "path_Base (p_arg0 (ow_process ow)) \<noteq> ''upgrade''" "''upgrade'' \<notin> set (p_rest (ow_process ow))"
  shows "w_fs (snd (run_state (main ow) w)) = w_fs w
    \<and> (\<exists>es. w_trace (snd (run_state (main ow) w)) = w_trace w @ es \<and> list_all says es)"
proof -
  obtain app v where n: "run_state (app_New ow) w = (app, v)" by fastforce
  obtain hidden where app: "a_Commands app = app_commands ow hidden" "a_Before app = (\<lambda>_. State_Monad.return None)"
    by (rule app_New_parts [OF n])
  let ?args = "tl (main_args app (p_arg0 (ow_process ow)) (p_rest (ow_process ow)))"
  have up: "''upgrade'' \<notin> set ?args" using args by (auto simp: main_args_def Let_def)
  have "keeps only_says (App_Run (ow_help ow) app ?args)"
  proof (rule unprivileged.run_app)
    fix c n as vars and sh :: "(world, exit_error option) state"
    assume "c \<in> set (a_Commands app)" "n \<in> set ?args" "HasName c n" "keeps only_says sh"
    then show "keeps only_says (Command_act sh c as vars)"
      using up named_command [of c ow hidden n] app(1) by (auto intro: rooted_only_says)
  qed (use app(2) unprivileged.ret in simp)
  then have "keeps only_says (do { r \<leftarrow> App_Run (ow_help ow) app ?args;
      (case r of Exited \<Rightarrow> State_Monad.return () | Returned res \<Rightarrow> or_fatal res State_Monad.return) })"
    by (auto intro!: unprivileged.bind unprivileged.ret only_says_emit
        simp: or_fatal_def fatal_def says_def split: ended.split sum.split)
  note run = keepsD [OF this, of v]
  have "only_says w v" using keepsD [OF app_New_silent, of w ow] n by simp
  then have "only_says w (snd (run_state (main ow) w))"
    using run name n unprivileged.later by (auto simp: main_def Let_def dest: transpD)
  then show ?thesis using uid by (simp add: only_says_def)
qed

section \<open>The command line of an upgrade\<close>

text \<open>Arguments that spell every setting out.\<close>

definition upgrade_vars :: "upgrade_flags \<Rightarrow> vars" where
  "upgrade_vars u =
     [(''k3os'', BoolValue (upgradeK3OS u)), (''k3s'', BoolValue (upgradeK3S u)), (''kernel'', BoolValue (upgradeKernel u)),
      (''rootfs'', BoolValue (upgradeRootFS u)), (''remount'', BoolValue (doRemount u)), (''sync'', BoolValue (doSync u)),
      (''reboot'', BoolValue (doReboot u)), (''source'', TextValue (sourceDir u)),
      (''destination'', TextValue (destinationDir u)), (''lock-file'', TextValue (lockFile u))]"

definition upgrade_args :: "upgrade_flags \<Rightarrow> string list" where
  "upgrade_args u = map spelled (upgrade_vars u)"

lemma upgrade_flags_of_override: "map_of al = map_of bl ++ map_of (rev (upgrade_vars u)) \<Longrightarrow> upgrade_flags_of al = u"
  by (simp add: upgrade_flags_of_def upgrade_vars_def flag_bool_def flag_text_def)

lemma upgrade_names:
  "concat (map flag_names (upgrade_Flags @ [HelpFlag])) =
     [''k3os'', ''k3s'', ''kernel'', ''rootfs'', ''remount'', ''sync'', ''reboot'', ''source'', ''destination'',
      ''lock-file'', ''help'', ''h'']"
  by code_simp

lemma app_names:
  "distinct (concat (map flag_names ([bool_flag ''debug'' ''Turn on debug logs'' ''K3OS_DEBUG'' False] @ [HelpFlag, VersionFlag])))"
  by code_simp

lemma install_hidden_env: "w_env (snd (run_state install_hidden w)) = w_env w"
  by (auto simp: install_hidden_def mode_Get_def os_ReadFile_def fs_call_def fs_call_part_def call_results
      split: option.splits sum.splits prod.splits)

lemma upgrade_var_names:
  "map fst (upgrade_vars u) = [''k3os'', ''k3s'', ''kernel'', ''rootfs'', ''remount'', ''sync'', ''reboot'', ''source'',
     ''destination'', ''lock-file'']"
  by (simp add: upgrade_vars_def)

text \<open>A flag with one name, the value of its kind.\<close>

definition carries :: "cli_flag \<Rightarrow> string \<times> flag_value \<Rightarrow> bool" where
  "carries f kv =
     (flag_name_ok (fst kv) \<and> flag_names f = [fst kv] \<and> Split (flag_Name f) (CHR '','') = [fst kv]
      \<and> TrimSpace (fst kv) = fst kv
      \<and> (case (flag_kind f, snd kv) of (BoolFlag, BoolValue _) \<Rightarrow> True | (StringFlag _, TextValue _) \<Rightarrow> True | _ \<Rightarrow> False))"

lemma upgrade_vars_carried: "list_all2 carries upgrade_Flags (upgrade_vars u)"
  unfolding upgrade_Flags_def upgrade_vars_def
  by (simp add: carries_def bool_flag_def string_flag_def flag_name_ok_def eachName_def,
      simp add: TrimFunc_def TrimSpace_def TrimLeft_def TrimRight_def is_space_def)

lemma upgrade_required:
  assumes "f \<in> set (upgrade_Flags @ [HelpFlag])" "flag_Required f"
  shows "\<exists>n \<in> {''source'', ''destination''}. Split (flag_Name f) (CHR '','') = [n] \<and> TrimSpace n = n"
proof -
  have "TrimSpace ''source'' = ''source''" "TrimSpace ''destination'' = ''destination''"
    "Split ''source'' (CHR '','') = [''source'']" "Split ''destination'' (CHR '','') = [''destination'']"
    by (simp_all add: TrimSpace_def TrimFunc_def TrimLeft_def TrimRight_def is_space_def)
  moreover have "flag_Name f = ''source'' \<or> flag_Name f = ''destination''"
    using assms by (auto simp: upgrade_Flags_def HelpFlag_def bool_flag_def string_flag_def)
  ultimately show ?thesis by auto
qed

lemma carried_fits:
  assumes "carries f kv" "f \<in> set fs" "flagSet env fs NewFlagSet = Inr s0" "distinct (concat (map flag_names fs))"
  shows "fits (fl_formal s0) kv \<and> (\<exists>f \<in> set fs. \<exists>k \<in> set (Split (flag_Name f) (CHR '','')). TrimSpace k = fst kv)"
proof -
  obtain v where "map_of (fl_formal s0) (fst kv) = Some v" "flag_default env f = Inr v"
    using flagSet_default [OF assms(3,4,2), of "fst kv"] assms(1) by (auto simp: carries_def)
  then have "fits (fl_formal s0) kv"
    using assms(1) by (auto simp: fits_def carries_def flag_default_def split: flag_kind.splits flag_value.splits
        option.splits if_splits)
  moreover have "\<exists>k \<in> set (Split (flag_Name f) (CHR '','')). TrimSpace k = fst kv" using assms(1) by (simp add: carries_def)
  ultimately show ?thesis using assms(2) by blast
qed

lemma carrier:
  "f \<in> set upgrade_Flags \<Longrightarrow> \<exists>kv. carries f kv"
  "kv \<in> set (upgrade_vars u) \<Longrightarrow> \<exists>f \<in> set upgrade_Flags. carries f kv"
  using upgrade_vars_carried [of u] by (metis list_all2_conv_all_nth in_set_conv_nth)+

lemma upgrade_single_names:
  assumes "f \<in> set (upgrade_Flags @ [HelpFlag])" "n \<in> set (flag_names f)" "n \<in> fst ` set (upgrade_vars u)"
  shows "length (flag_names f) = 1"
proof (cases "f = HelpFlag")
  case True
  then show ?thesis using assms by (auto simp: library_names upgrade_vars_def)
next
  case False
  then obtain kv where "carries f kv" using carrier(1) [of f] assms(1) by auto
  then show ?thesis by (simp add: carries_def)
qed

text \<open>The settings that the arguments spell out, over those of the environment.\<close>

definition spelled_set :: "upgrade_flags \<Rightarrow> flagset \<Rightarrow> flagset" where
  "spelled_set u s = (fold set_flag (upgrade_vars u) s)\<lparr>fl_args := []\<rparr>"

lemma spelled_set_formal: "map_of (fl_formal (spelled_set u s)) = map_of (fl_formal s) ++ map_of (rev (upgrade_vars u))"
  by (simp add: spelled_set_def fold_set_flag map_of_fold_update)

lemma spelled_set_help:
  assumes s: "flagSet env (upgrade_Flags @ [HelpFlag]) NewFlagSet = Inr s" and n: "n \<in> {''h'', ''help''}"
  shows "\<not> flag_bool (fl_formal (spelled_set u s)) n"
proof -
  have "n \<notin> set (map fst (upgrade_vars u))" using n unfolding upgrade_var_names by fastforce
  then have "map_of (rev (upgrade_vars u)) n = None" by (simp add: map_of_eq_None_iff)
  then have "map_of (fl_formal (spelled_set u s)) n = map_of (fl_formal s) n"
    unfolding spelled_set_formal by (simp add: map_add_def)
  moreover have "distinct (concat (map flag_names (upgrade_Flags @ [HelpFlag])))" unfolding upgrade_names by simp
  then have "\<not> flag_bool (fl_formal s) n"
    using unset_flag [OF s _ _ _ library_default(1), of n] n by (auto simp: library_names)
  ultimately show ?thesis by (simp add: flag_bool_def)
qed

lemma spelled_set_required: "checkRequiredFlags env (upgrade_Flags @ [HelpFlag]) (spelled_set u s) = None"
proof -
  let ?fs = "upgrade_Flags @ [HelpFlag]"
  have set: "IsSet env ?fs (spelled_set u s) n" if "n \<in> {''source'', ''destination''}" for n
  proof -
    have "n \<in> set (map fst (upgrade_vars u))" using that unfolding upgrade_var_names by fastforce
    then have "n \<in> set (fl_actual (spelled_set u s))" by (simp add: spelled_set_def fold_set_flag(2))
    then show ?thesis by (simp add: IsSet_def)
  qed
  have "missing_flag env ?fs (spelled_set u s) f = None" if "f \<in> set ?fs" for f
  proof (cases "flag_Required f")
    case True
    then obtain n where n: "n \<in> {''source'', ''destination''}" "Split (flag_Name f) (CHR '','') = [n]" "TrimSpace n = n"
      using upgrade_required [OF \<open>f \<in> set ?fs\<close>] by blast
    show ?thesis by (rule missing_flag_single [OF n(2,3) set [OF n(1)]])
  qed (simp add: missing_flag_def)
  then have "List.map_filter (missing_flag env ?fs (spelled_set u s)) ?fs = []"
    by (simp add: List.map_filter_def filter_empty_conv)
  then show ?thesis by (simp add: checkRequiredFlags_def)
qed

text \<open>The flags of \<open>upgrade\<close> with the values that the arguments spell out, whatever the environment says.\<close>

lemma upgrade_parsed:
  assumes ok: "\<forall>f \<in> set upgrade_Flags. is_ok (flag_default env f)"
  obtains s where "parseFlags env (upgrade_Flags @ [HelpFlag]) (upgrade_args u) = Inr s"
    "upgrade_flags_of (fl_formal s) = u" "fl_args s = []"
    "\<not> flag_bool (fl_formal s) ''h''" "\<not> flag_bool (fl_formal s) ''help''"
    "checkRequiredFlags env (upgrade_Flags @ [HelpFlag]) s = None"
proof -
  let ?fs = "upgrade_Flags @ [HelpFlag]"
  have d: "distinct (concat (map flag_names ?fs))" unfolding upgrade_names by simp
  have "\<forall>f \<in> set ?fs. is_ok (flag_default env f)" using ok by (simp add: library_default)
  then obtain s0 where s0: "flagSet env ?fs NewFlagSet = Inr s0" using flagSet_ok by blast
  have fit: "\<forall>kv \<in> set (upgrade_vars u). fits (fl_formal s0) kv
      \<and> (\<exists>f \<in> set ?fs. \<exists>k \<in> set (Split (flag_Name f) (CHR '','')). TrimSpace k = fst kv)"
  proof
    fix kv
    assume "kv \<in> set (upgrade_vars u)"
    then obtain f where f: "f \<in> set upgrade_Flags" "carries f kv" using carrier(2) by blast
    show "fits (fl_formal s0) kv \<and> (\<exists>f \<in> set ?fs. \<exists>k \<in> set (Split (flag_Name f) (CHR '','')). TrimSpace k = fst kv)"
      by (rule carried_fits [OF f(2) _ s0 d]) (use f(1) in simp)
  qed
  show ?thesis
  proof (rule that)
    show "parseFlags env ?fs (upgrade_args u) = Inr (spelled_set u s0)"
      unfolding upgrade_args_def spelled_set_def by (rule parseFlags_spelled [OF s0 fit upgrade_single_names])
    show "upgrade_flags_of (fl_formal (spelled_set u s0)) = u" by (rule upgrade_flags_of_override [OF spelled_set_formal])
    show "fl_args (spelled_set u s0) = []" by (simp add: spelled_set_def)
  qed (use spelled_set_help [OF s0] spelled_set_required in simp_all)
qed

text \<open>
  C16. An upgrade whose settings are all spelled out on the command line is run with exactly these settings, whatever
  valid settings the environment has: the arguments override the environment.
\<close>

theorem upgrade_spelled_out:
  assumes name: "path_Base (p_arg0 (ow_process ow)) = ''k3os''" "p_arg0 (ow_process ow) \<notin> {''/init'', ''/sbin/init'', ''enter-root''}"
    and rest: "p_rest (ow_process ow) = ''upgrade'' # upgrade_args u"
    and env: "is_ok (flag_default (w_env w) (bool_flag ''debug'' ''Turn on debug logs'' ''K3OS_DEBUG'' False))"
      "\<forall>f \<in> set upgrade_Flags. is_ok (flag_default (w_env w) f)"
    and valid: "upgrade_Before u = Inr u'"
  shows "run_state (main ow) w = run_state (upgrade_Run (ow_upgrade ow) u') (snd (run_state install_hidden w))"
proof -
  obtain app v where n: "run_state (app_New ow) w = (app, v)" by fastforce
  obtain hidden where app: "a_Commands app = app_commands ow hidden" "a_Before app = (\<lambda>_. State_Monad.return None)"
    "a_Name app = app_Name" "a_Flags app = [bool_flag ''debug'' ''Turn on debug logs'' ''K3OS_DEBUG'' False]"
    and v: "v = snd (run_state install_hidden w)" by (rule app_New_parts [OF n])
  have venv: "w_env v = w_env w" by (simp add: v install_hidden_env)
  have args: "tl (main_args app (p_arg0 (ow_process ow)) (p_rest (ow_process ow))) = ''upgrade'' # upgrade_args u"
    using name(1) rest by (simp add: main_args_def app(3) app_Name_def)
  let ?run = "App_Run (ow_help ow) app (''upgrade'' # upgrade_args u)"
  have cmd: "run_state ?run v = run_state (Command_Run (ow_help ow) app (upgrade_Command ow) (upgrade_args u)) v"
  proof (rule App_Run_command)
    show "\<forall>f \<in> set (a_Flags app). is_ok (flag_default (w_env v) f) \<and> \<not> flag_Required f"
      using env(1) by (simp add: app(4) venv) (simp add: bool_flag_def)
    show "distinct (concat (map flag_names (all_flags app)))" unfolding all_flags_def app(4) by (rule app_names)
    show "arg_word ''upgrade'' = NoFlag" by (simp add: arg_word_def)
    show "find (\<lambda>c. HasName c ''upgrade'') (runnable (ow_help ow) app) = Some (upgrade_Command ow)"
      by (simp add: runnable_def app(1) app_commands_def rc_Command_def config_Command_def install_Command_def
          upgrade_Command_def HasName_def Names_def)
  qed (simp add: app(2))
  obtain s where s: "parseFlags (w_env v) (upgrade_Flags @ [HelpFlag]) (upgrade_args u) = Inr s"
    "upgrade_flags_of (fl_formal s) = u" "fl_args s = []"
    "\<not> flag_bool (fl_formal s) ''h''" "\<not> flag_bool (fl_formal s) ''help''"
    "checkRequiredFlags (w_env v) (upgrade_Flags @ [HelpFlag]) s = None"
    using upgrade_parsed [of "w_env v"] env(2) venv by metis
  let ?vars = "AList.update ''k3s'' (BoolValue (upgradeK3S u')) (AList.update ''k3os'' (BoolValue (upgradeK3OS u')) (fl_formal s))"
  have u': "upgrade_flags_of ?vars = u'"
    using s(2) valid
    by (auto simp: upgrade_flags_of_def upgrade_Before_def flag_bool_def flag_text_def update_conv' Let_def split: if_splits)
  have "run_state (Command_Run (ow_help ow) app (upgrade_Command ow) (upgrade_args u)) v
      = (Returned (Inr ()), snd (run_state (upgrade_Run (ow_upgrade ow) u') v))"
    using s u' valid
    by (simp add: Command_Run_def current_env_def Let_def upgrade_Command_def Command_act_def upgrade_or_exit_def
        no_result_def HandleExitCoder_def split: prod.split)
  then show ?thesis
    using n args cmd name v by (simp add: main_def Let_def or_fatal_def split: prod.split) (metis old.unit.exhaust prod.collapse)
qed

text \<open>
  The defaults of the two directories are never used: an upgrade goes on only if each of them is named by an
  argument or by its variable.
\<close>

lemma upgrade_name_env:
  "map (\<lambda>f. (flag_names f, flag_EnvVar f)) (upgrade_Flags @ [HelpFlag]) =
     [([''k3os''], ''K3OS_UPGRADE_K3OS''), ([''k3s''], ''K3OS_UPGRADE_K3S''), ([''kernel''], ''K3OS_UPGRADE_KERNEL''),
      ([''rootfs''], ''K3OS_UPGRADE_ROOTFS''), ([''remount''], ''K3OS_UPGRADE_REMOUNT''), ([''sync''], ''K3OS_UPGRADE_SYNC''),
      ([''reboot''], ''K3OS_UPGRADE_REBOOT''), ([''source''], ''K3OS_UPGRADE_SOURCE''),
      ([''destination''], ''K3OS_UPGRADE_DESTINATION''), ([''lock-file''], ''K3OS_UPGRADE_LOCK_FILE''),
      ([''help'', ''h''], [])]"
  by code_simp

lemma upgrade_env_names:
  "env_names env ''K3OS_UPGRADE_SOURCE'' = (env_lookup env ''K3OS_UPGRADE_SOURCE'' \<noteq> None)"
  "env_names env ''K3OS_UPGRADE_DESTINATION'' = (env_lookup env ''K3OS_UPGRADE_DESTINATION'' \<noteq> None)"
  by (simp add: env_names_def eachName_def,
      simp add: TrimFunc_def TrimSpace_def TrimLeft_def TrimRight_def is_space_def)+

lemma upgrade_IsSet:
  "IsSet env (upgrade_Flags @ [HelpFlag]) s ''source'' \<Longrightarrow>
     ''source'' \<in> set (fl_actual s) \<or> env_lookup env ''K3OS_UPGRADE_SOURCE'' \<noteq> None"
  "IsSet env (upgrade_Flags @ [HelpFlag]) s ''destination'' \<Longrightarrow>
     ''destination'' \<in> set (fl_actual s) \<or> env_lookup env ''K3OS_UPGRADE_DESTINATION'' \<noteq> None"
proof -
  have "n \<in> set (fl_actual s) \<or> list_ex (\<lambda>p. n \<in> set (fst p) \<and> env_names env (snd p))
      (map (\<lambda>f. (flag_names f, flag_EnvVar f)) (upgrade_Flags @ [HelpFlag]))"
    if "IsSet env (upgrade_Flags @ [HelpFlag]) s n" for n
    using that by (auto simp: IsSet_def list_ex_iff)
  note named = this [unfolded upgrade_name_env]
  show "IsSet env (upgrade_Flags @ [HelpFlag]) s ''source'' \<Longrightarrow>
      ''source'' \<in> set (fl_actual s) \<or> env_lookup env ''K3OS_UPGRADE_SOURCE'' \<noteq> None"
    using named [of "''source''"] by (simp add: upgrade_env_names)
  show "IsSet env (upgrade_Flags @ [HelpFlag]) s ''destination'' \<Longrightarrow>
      ''destination'' \<in> set (fl_actual s) \<or> env_lookup env ''K3OS_UPGRADE_DESTINATION'' \<noteq> None"
    using named [of "''destination''"] by (simp add: upgrade_env_names)
qed

lemma upgrade_defaults_dead:
  assumes "checkRequiredFlags env (upgrade_Flags @ [HelpFlag]) s = None"
  shows "''source'' \<in> set (fl_actual s) \<or> env_lookup env ''K3OS_UPGRADE_SOURCE'' \<noteq> None"
    "''destination'' \<in> set (fl_actual s) \<or> env_lookup env ''K3OS_UPGRADE_DESTINATION'' \<noteq> None"
proof -
  let ?fs = "upgrade_Flags @ [HelpFlag]"
  have set: "IsSet env ?fs s n" if "string_flag n e (RootPath []) True False \<in> set ?fs" "Split n (CHR '','') = [n]"
    "TrimSpace n = n" "1 < length n" for n e
    using checkRequiredFlags_None [OF assms that(1)] that(2-4) by (simp add: missing_flag_def string_flag_def split: if_splits)
  have "IsSet env ?fs s ''source''"
    by (rule set [of _ "''K3OS_UPGRADE_SOURCE''"])
      (simp_all add: upgrade_Flags_def TrimSpace_def TrimFunc_def TrimLeft_def TrimRight_def is_space_def)
  then show "''source'' \<in> set (fl_actual s) \<or> env_lookup env ''K3OS_UPGRADE_SOURCE'' \<noteq> None"
    by (rule upgrade_IsSet(1))
  have "IsSet env ?fs s ''destination''"
    by (rule set [of _ "''K3OS_UPGRADE_DESTINATION''"])
      (simp_all add: upgrade_Flags_def TrimSpace_def TrimFunc_def TrimLeft_def TrimRight_def is_space_def)
  then show "''destination'' \<in> set (fl_actual s) \<or> env_lookup env ''K3OS_UPGRADE_DESTINATION'' \<noteq> None"
    by (rule upgrade_IsSet(2))
qed

section \<open>Examples\<close>

text \<open>An outside for examples: no terminal, no network, parsers that fail, help without text.\<close>

definition bare_outside :: "string \<Rightarrow> string list \<Rightarrow> outside_world" where
  "bare_outside arg0 rest =
     \<lparr>ow_deps = \<lparr>d_gunzip = \<lambda>_. Inl ErrEOF, d_version = ''v'', d_order = id\<rparr>,
      ow_unmarshal = \<lambda>_. Inr [], ow_marshal = \<lambda>_. Inl ErrEOF, ow_json = \<lambda>_. Inl ErrEOF, ow_output = \<lambda>_ _. [],
      ow_tty = NoTerminal, ow_upgrade = \<lparr>u_flock = None, u_lookpath = None\<rparr>, ow_devices = \<lambda>_ _. 0,
      ow_statfs = \<lambda>_. Inr tmpfsMagic,
      ow_process = \<lparr>p_arg0 = arg0, p_rest = rest, p_pid = 2, p_debug = False, p_attach = \<lambda>_ _. Inl ErrEOF\<rparr>,
      ow_help = \<lparr>help_app = \<lambda>_ _ _. [], help_command = \<lambda>_ _. [], help_subcommand = \<lambda>_ _ _. []\<rparr>\<rparr>"

lemma main_keeps_tree_example:
  "wf_fs (w_fs (snd (run_state (main (bare_outside ''/init'' [])) (calm_world [([], mkdir_inode), ([''init''], mkfile ''x'')]))))"
proof -
  let ?w = "calm_world [([], mkdir_inode), ([''init''], mkfile ''x'')]"
  have "wf_fs (w_fs ?w)" by code_simp
  moreover have "sane_outside ?w" by (simp add: sane_outside_def calm_world_def)
  ultimately show ?thesis by (rule main_keeps_tree [THEN conjunct1])
qed


theorem main_root_only_witness:
  "w_fs (snd (run_state (main (bare_outside ''/sbin/k3os'' [''rc''])) ((calm_world [])\<lparr>w_uid := 1000\<rparr>))) = []"
proof -
  let ?ow = "bare_outside ''/sbin/k3os'' [''rc'']"
  have base: "path_Base (p_arg0 (ow_process ?ow)) = ''k3os''" by code_simp
  have "w_fs (snd (run_state (main ?ow) ((calm_world [])\<lparr>w_uid := 1000\<rparr>))) = w_fs ((calm_world [])\<lparr>w_uid := 1000\<rparr>)"
    by (rule main_root_only [THEN conjunct1])
      (simp_all add: base, simp_all add: bare_outside_def calm_world_def)
  then show ?thesis by (simp add: calm_world_def)
qed

definition sync_world :: world where
  "sync_world = (calm_world [])\<lparr>w_env := [(''K3OS_UPGRADE_SYNC'', ''false''), (''K3OS_UPGRADE_SOURCE'', ''/src'')]\<rparr>"

theorem upgrade_spelled_out_witness:
  "run_state (main (bare_outside ''/sbin/k3os'' (''upgrade'' # upgrade_args upgrade_demo))) sync_world
     = run_state (upgrade_Run \<lparr>u_flock = None, u_lookpath = None\<rparr> upgrade_demo) (snd (run_state install_hidden sync_world))"
proof -
  let ?ow = "bare_outside ''/sbin/k3os'' (''upgrade'' # upgrade_args upgrade_demo)"
  have base: "path_Base (p_arg0 (ow_process ?ow)) = ''k3os''" by (simp add: bare_outside_def) code_simp
  have env: "is_ok (flag_default (w_env sync_world) (bool_flag ''debug'' ''Turn on debug logs'' ''K3OS_DEBUG'' False))"
    "\<forall>f \<in> set upgrade_Flags. is_ok (flag_default (w_env sync_world) f)" by code_simp+
  have "upgrade_Before upgrade_demo = Inr upgrade_demo" by code_simp
  then show ?thesis
    using upgrade_spelled_out [OF base _ _ env] by (simp add: bare_outside_def)
qed

end
