(* ===== verification/ConfigTypes.thy ===== *)
theory ConfigTypes
  imports ConfigSources
begin

text \<open>
  The types of a configuration: which values the decoder of \<^verbatim>\<open>encoding/json\<close> accepts for the configuration types,
  and that merging sources which are accepted each on its own yields a configuration that is accepted.
\<close>

section \<open>Well-typed values\<close>

text \<open>A value of a structure: what a key that names a field stands for has the type of the field.\<close>

definition entry_type :: "(string \<times> 'a) list \<Rightarrow> string \<Rightarrow> 'a option" where
  "entry_type fs k = (case json_field (map fst fs) k of None \<Rightarrow> None | Some n \<Rightarrow> map_of fs n)"

definition typed_object :: "(string \<Rightarrow> (gval \<Rightarrow> bool) option) \<Rightarrow> gval \<Rightarrow> bool" where
  "typed_object ps v =
     (case as_object v of
        None \<Rightarrow> v = GNull
      | Some m \<Rightarrow> list_all (\<lambda>(k, x). case ps k of None \<Rightarrow> True | Some p \<Rightarrow> p x) m)"

definition typed_array :: "(gval \<Rightarrow> bool) \<Rightarrow> gval \<Rightarrow> bool" where
  "typed_array p v = (case as_array v of None \<Rightarrow> v = GNull | Some vs \<Rightarrow> list_all p vs)"

definition typed_text :: "gval \<Rightarrow> bool" where
  "typed_text v = (case v of GStr _ \<Rightarrow> True | GNull \<Rightarrow> True | _ \<Rightarrow> False)"

primrec has_type :: "ftype \<Rightarrow> gval \<Rightarrow> bool" where
  "has_type FString = typed_text"
| "has_type FBool = (\<lambda>v. case v of GBool _ \<Rightarrow> True | GNull \<Rightarrow> True | _ \<Rightarrow> False)"
| "has_type FStrings = typed_array typed_text"
| "has_type FStrMap = typed_object (\<lambda>_. Some typed_text)"
| "has_type (FObj fs) = typed_object (entry_type (map (map_prod (\<lambda>k. k) has_type) fs))"
| "has_type (FObjs fs) = typed_array (typed_object (entry_type (map (map_prod (\<lambda>k. k) has_type) fs)))"

lemma entry_type_map: "entry_type (map (map_prod (\<lambda>k. k) f) fs) k = map_option f (entry_type fs k)"
proof -
  have "map fst (map (map_prod (\<lambda>k. k) f) fs) = map fst fs" by simp
  moreover have "map_of (map (map_prod (\<lambda>k. k) f) fs) n = map_option f (map_of fs n)" for n
    by (induction fs) auto
  ultimately show ?thesis by (simp add: entry_type_def del: map_map split: option.split)
qed

section \<open>Decoders and the types they accept\<close>

lemma first_error_iff [simp]: "first_error e f = None \<longleftrightarrow> e = None \<and> f = None"
  by (simp add: first_error_def split: option.split)

text \<open>
  The contract of a decoder: it fails exactly on the values that do not have its type, whatever it decodes
  into, and null has every type.
\<close>

locale typed_decoder =
  fixes decode :: "gval \<Rightarrow> 'a \<Rightarrow> 'a \<times> goerror option" and p :: "gval \<Rightarrow> bool"
  assumes accepts: "snd (decode v old) = None \<longleftrightarrow> p v"
    and null: "p GNull"
begin

lemma elems: "snd (dec_elems decode zero old vs) = None \<longleftrightarrow> list_all p vs"
proof (induction vs arbitrary: old)
  case (Cons v vs)
  let ?x = "case old of [] \<Rightarrow> zero | x # _ \<Rightarrow> x"
  show ?case using Cons [of "tl old"] accepts [of v ?x] by (auto split: prod.splits)
qed simp

lemma array: "snd (dec_list decode zero v old) = None \<longleftrightarrow> typed_array p v"
  by (simp add: dec_list_def typed_array_def elems split: option.split)

lemma pointer: "snd (dec_ptr decode zero v old) = None \<longleftrightarrow> p v"
proof (cases "v = GNull")
  case False
  have "snd (decode v (case old of None \<Rightarrow> zero | Some x \<Rightarrow> x)) = None \<longleftrightarrow> p v" by (rule accepts)
  then show ?thesis using False by (auto simp: dec_ptr_def split: prod.splits)
qed (simp add: dec_ptr_def null)

lemma field_value: "snd (dec_field fnames m n decode old) = None \<longleftrightarrow> list_all p (hits fnames n m)"
proof -
  have "snd (fold (\<lambda>v st. case decode v (fst st) of (x, e) \<Rightarrow> (x, first_error (snd st) e)) vs st) = None
      \<longleftrightarrow> snd st = None \<and> list_all p vs" for vs st
  proof (induction vs arbitrary: st)
    case (Cons v vs)
    obtain x e where d: "decode v (fst st) = (x, e)" by fastforce
    then have "e = None \<longleftrightarrow> p v" using accepts [of v "fst st"] by simp
    then show ?case using Cons [of "(x, first_error (snd st) e)"] d by auto
  qed simp
  then show ?thesis by (simp add: dec_field_def)
qed

end

lemma json_field_in: "json_field fnames k = Some n \<Longrightarrow> n \<in> set fnames"
  by (auto simp: json_field_def find_Some_iff split: if_splits)

lemma typed_object_hits:
  "list_all (\<lambda>(k, x). case entry_type ps k of None \<Rightarrow> True | Some p \<Rightarrow> p x) m
     \<longleftrightarrow> (\<forall>n p. map_of ps n = Some p \<longrightarrow> list_all p (hits (map fst ps) n m))"
proof -
  have hits: "list_all p (hits fnames n m) \<longleftrightarrow> (\<forall>k x. (k, x) \<in> set m \<longrightarrow> json_field fnames k = Some n \<longrightarrow> p x)"
    for fnames n p
    by (force simp: hits_def list_all_iff)
  have "(case entry_type ps k of None \<Rightarrow> True | Some p \<Rightarrow> p x)
      \<longleftrightarrow> (\<forall>n p. json_field (map fst ps) k = Some n \<and> map_of ps n = Some p \<longrightarrow> p x)" for k x
    by (simp add: entry_type_def split: option.split)
  then show ?thesis unfolding hits by (simp add: list_all_iff split_beta) fastforce
qed

lemma struct_decoder:
  assumes "\<And>m old. snd (f m old) = None
      \<longleftrightarrow> (\<forall>n p. map_of ps n = Some p \<longrightarrow> list_all p (hits (map fst ps) n m))"
  shows "typed_decoder (dec_struct f) (typed_object (entry_type ps))"
  by unfold_locales
    (simp_all add: dec_struct_def typed_object_def as_object_def typed_object_hits assms split: option.split)

lemma struct_schema:
  assumes "distinct (map fst fs)"
    and "\<And>m old. snd (f m old) = None
      \<longleftrightarrow> list_all (\<lambda>(n, ty). list_all (has_type ty) (hits (map fst fs) n m)) fs"
  shows "typed_decoder (dec_struct f) (has_type (FObj fs))"
proof -
  let ?ps = "map (map_prod (\<lambda>k. k) has_type) fs"
  have m: "map fst ?ps = map fst fs" by simp
  have iff: "map_of ?ps n = Some p \<longleftrightarrow> (\<exists>ty. (n, ty) \<in> set fs \<and> p = has_type ty)" for n p
    using assms(1) by (subst map_of_eq_Some_iff) (auto simp: comp_def)
  have "(\<forall>n p. map_of ?ps n = Some p \<longrightarrow> list_all p (hits (map fst ?ps) n m))
      \<longleftrightarrow> list_all (\<lambda>(n, ty). list_all (has_type ty) (hits (map fst fs) n m)) fs" for m
    unfolding m iff list_all_iff [of _ fs] Ball_def split_paired_All prod.case by blast
  then show ?thesis unfolding has_type.simps by (intro struct_decoder) (simp only: assms(2))
qed

section \<open>The decoders of the configuration\<close>

interpretation text_value: typed_decoder dec_str "has_type FString"
  by unfold_locales (simp_all add: dec_str_def typed_text_def split: gval.split)

interpretation switch: typed_decoder dec_bool "has_type FBool"
  by unfold_locales (simp_all add: dec_bool_def split: gval.split)

interpretation texts: typed_decoder "dec_list dec_str []" "has_type FStrings"
  by unfold_locales (simp_all add: text_value.array, simp add: typed_array_def as_array_def)

interpretation text_map: typed_decoder dec_map "has_type FStrMap"
proof
  have "snd (fold dec_entry m st) = None \<longleftrightarrow> snd st = None \<and> list_all (\<lambda>(k, x). typed_text x) m" for m st
  proof (induction m arbitrary: st)
    case (Cons e m)
    have "snd (dec_entry e st) = None \<longleftrightarrow> snd st = None \<and> typed_text (snd e)"
      using text_value.accepts [of "snd e" "[]"] by (auto simp: dec_entry_def split: prod.splits)
    then show ?case using Cons [of "dec_entry e st"] by (simp add: split_beta)
  qed simp
  moreover have "list_all q (sort_key fst m) \<longleftrightarrow> list_all q m" for q and m :: gmap
    by (simp add: list_all_iff)
  ultimately show "snd (dec_map v old) = None \<longleftrightarrow> has_type FStrMap v" for v old
    by (simp add: dec_map_def typed_object_def split: option.split)
  show "has_type FStrMap GNull" by (simp add: typed_object_def as_object_def)
qed

lemmas field_accepts = text_value.field_value switch.field_value texts.field_value text_map.field_value

interpretation wifi: typed_decoder dec_wifi "has_type (FObj wifi_schema)"
  unfolding dec_wifi_def
  by (rule struct_schema [OF distinct_schemas(5)], simp only: Let_def snd_conv)
    (simp add: field_accepts wifi_schema_def)

interpretation file_type: typed_decoder dec_file "has_type (FObj file_schema)"
  unfolding dec_file_def
  by (rule struct_schema [OF distinct_schemas(4)], simp only: Let_def snd_conv)
    (simp add: field_accepts file_schema_def)

interpretation install: typed_decoder dec_install "has_type (FObj install_schema)"
  unfolding dec_install_def
  by (rule struct_schema [OF distinct_schemas(3)], simp only: Let_def snd_conv)
    (simp add: field_accepts install_schema_def)

interpretation install_pointer: typed_decoder "dec_ptr dec_install emptyInstall" "has_type (FObj install_schema)"
  by unfold_locales (simp_all only: install.pointer install.null)

interpretation wifis: typed_decoder "dec_list dec_wifi emptyWifi" "has_type (FObjs wifi_schema)"
  by unfold_locales (simp_all add: wifi.array, simp add: typed_array_def as_array_def)

interpretation file_types: typed_decoder "dec_list dec_file emptyFile" "has_type (FObjs file_schema)"
  by unfold_locales (simp_all add: file_type.array, simp add: typed_array_def as_array_def)

interpretation k3os: typed_decoder dec_k3os "has_type (FObj k3os_schema)"
  unfolding dec_k3os_def
  by (rule struct_schema [OF distinct_schemas(2)], simp only: Let_def snd_conv)
    (simp add: field_accepts wifis.field_value install_pointer.field_value k3os_schema_def)

interpretation config: typed_decoder dec_config "has_type (FObj cloudConfig_schema)"
  unfolding dec_config_def
  by (rule struct_schema [OF distinct_schemas(1)], simp only: Let_def snd_conv)
    (simp add: field_accepts file_types.field_value k3os.field_value cloudConfig_schema_def)

text \<open>
  C20. Decoding a configuration fails exactly if a value does not have the type of the field its key stands for.
\<close>

theorem ToObj_accepts: "snd (ToObj data into) = None \<longleftrightarrow> has_type (FObj cloudConfig_schema) (GMap data)"
  unfolding ToObj_def by (rule config.accepts)

section \<open>Merging\<close>

declare has_type.simps(5,6) [simp del]

text \<open>The types of the entries of a map, if a map can have the type.\<close>

definition entry_types :: "ftype \<Rightarrow> (string \<Rightarrow> ftype option) option" where
  "entry_types ty = (case ty of FStrMap \<Rightarrow> Some (\<lambda>_. Some FString) | FObj fs \<Rightarrow> Some (entry_type fs) | _ \<Rightarrow> None)"

definition typed_entries :: "(string \<Rightarrow> ftype option) \<Rightarrow> gmap \<Rightarrow> bool" where
  "typed_entries t m = list_all (\<lambda>(k, x). case t k of None \<Rightarrow> True | Some ty \<Rightarrow> has_type ty x) m"

lemma has_type_GMap: "has_type ty (GMap m) \<longleftrightarrow> (\<exists>t. entry_types ty = Some t \<and> typed_entries t m)"
  by (cases ty)
    (auto simp: has_type.simps entry_types_def typed_entries_def typed_object_def typed_array_def typed_text_def as_object_def
      as_array_def entry_type_map list_all_iff split: option.splits)

lemma typed_entries_lookup: "typed_entries t m \<Longrightarrow> map_of m k = Some x \<Longrightarrow> t k = Some ty \<Longrightarrow> has_type ty x"
  by (force simp: typed_entries_def list_all_iff dest: map_of_SomeD)

lemma typed_entries_update:
  "typed_entries t m \<Longrightarrow> (\<And>ty. t k = Some ty \<Longrightarrow> has_type ty x) \<Longrightarrow> typed_entries t (AList.update k x m)"
  by (induction m) (auto simp: typed_entries_def split: option.splits)

lemma merge_typed:
  "(\<And>a. dest = Some a \<Longrightarrow> has_type ty a) \<Longrightarrow> has_type ty v \<Longrightarrow> has_type ty (merge_value k sch dest v)"
  "typed_entries t d \<Longrightarrow> typed_entries t result \<Longrightarrow> typed_entries t src \<Longrightarrow> typed_entries t (merge_into sch d result src)"
proof (induction k sch dest v and sch d result src arbitrary: ty and t rule: merge_value_merge_into.induct)
  case (1 field sch dest sm)
  show ?case
  proof (cases "\<not> isMap field sch \<and> (\<exists>dm. dest = Some (GMap dm))")
    case True
    then obtain dm where d: "\<not> isMap field sch" "dest = Some (GMap dm)" by blast
    then obtain t where t: "entry_types ty = Some t" "typed_entries t dm" "typed_entries t sm"
      using "1.prems" by (auto simp: has_type_GMap)
    from "1.IH" [OF d refl t(2,2,3)] show ?thesis using d t(1) by (simp add: has_type_GMap)
  next
    case False
    then show ?thesis using "1.prems" by (auto split: option.split gval.split)
  qed
next
  case (4 sch dest result k v src)
  have "has_type ty (merge_value k sch (map_of dest k) v)" if "t k = Some ty" for ty
    using "4.prems" that by (intro "4.IH"(1)) (auto intro: typed_entries_lookup simp: typed_entries_def)
  then have "typed_entries t (AList.update k (merge_value k sch (map_of dest k) v) result)"
    by (rule typed_entries_update [OF "4.prems"(2)])
  moreover have "typed_entries t src" using "4.prems"(3) by (simp add: typed_entries_def)
  ultimately show ?case using "4.IH"(2) "4.prems"(1) by simp
qed auto

lemma UpdateMerge_typed: "has_type ty (GMap d) \<Longrightarrow> has_type ty (GMap src) \<Longrightarrow> has_type ty (GMap (UpdateMerge sch d src))"
  unfolding has_type_GMap UpdateMerge_def mergeMaps_def using merge_typed(2) by fastforce

text \<open>The data the readers give, one after the other, up to the first that fails.\<close>

primrec sources :: "reader list \<Rightarrow> world \<Rightarrow> gmap list" where
  "sources [] w = []"
| "sources (r # rs) w = (case run_state r w of (Inl _, _) \<Rightarrow> [] | (Inr d, w') \<Rightarrow> d # sources rs w')"

lemma merge_from_typed:
  assumes "has_type (FObj cloudConfig_schema) (GMap data)"
    and "\<forall>d \<in> set (sources rs w). has_type (FObj cloudConfig_schema) (GMap (ToInternal cloudConfig_schema d))"
    and "run_state (merge_from data rs) w = (Inr m, w')"
  shows "has_type (FObj cloudConfig_schema) (GMap m)"
  using assms
proof (induction rs arbitrary: data w)
  case (Cons r rs)
  obtain a v where a: "run_state r w = (a, v)" by fastforce
  then obtain d where "a = Inr d" using Cons.prems(3) by (cases a) simp_all
  then have d: "run_state r w = (Inr d, v)" using a by simp
  have "has_type (FObj cloudConfig_schema) (GMap (UpdateMerge cloudConfig_schema data (ToInternal cloudConfig_schema d)))"
    using Cons.prems(1,2) d by (intro UpdateMerge_typed) simp_all
  from Cons.IH [OF this, of v] show ?case using Cons.prems(2,3) d by simp
qed simp

text \<open>
  C19. If each source, with its names and values converted, can be decoded on its own, then what they merge to
  can be decoded: a configuration is only refused for a source that is at fault itself.
\<close>

theorem sources_accepted:
  assumes each: "\<forall>d \<in> set (sources rs w). snd (ToObj (ToInternal cloudConfig_schema d) initialConfig) = None"
    and run: "run_state (merge rs) w = (Inr m, w')"
  shows "snd (fst (run_state (readersToObject rs) w)) = None"
proof -
  have "has_type (FObj cloudConfig_schema) (GMap [])" by (simp add: has_type.simps typed_object_def as_object_def)
  moreover have "\<forall>d \<in> set (sources rs w). has_type (FObj cloudConfig_schema) (GMap (ToInternal cloudConfig_schema d))"
    using each config.accepts unfolding ToObj_def by blast
  ultimately have "has_type (FObj cloudConfig_schema) (GMap m)"
    using run merge_from_typed unfolding merge_def by blast
  then show ?thesis using run config.accepts [of "GMap m" initialConfig] by (simp add: readersToObject_def ToObj_def)
qed

theorem sources_accepted_witness:
  "snd (fst (run_state (readersToObject
     [State_Monad.return (Inr [(''k3os'', GMap [(''module'', GStr ''kvm'')])]),
      State_Monad.return (Inr [(''k3os'', GMap [(''modules'', GStrs [''nvme'']), (''token'', GStr ''x'')])])])
     (calm_world []))) = None"
proof (rule sources_accepted)
  let ?rs = "[State_Monad.return (Inr [(''k3os'', GMap [(''module'', GStr ''kvm'')])]),
      State_Monad.return (Inr [(''k3os'', GMap [(''modules'', GStrs [''nvme'']), (''token'', GStr ''x'')])])] :: reader list"
  have src: "sources ?rs (calm_world []) = [[(''k3os'', GMap [(''module'', GStr ''kvm'')])],
      [(''k3os'', GMap [(''modules'', GStrs [''nvme'']), (''token'', GStr ''x'')])]]" by simp
  have i: "ToInternal cloudConfig_schema [(''k3os'', GMap [(''module'', GStr ''kvm'')])]
      = [(''k3os'', GMap [(''module'', GStr ''kvm''), (''modules'', GStrs [''kvm''])])]"
    "ToInternal cloudConfig_schema [(''k3os'', GMap [(''modules'', GStrs [''nvme'']), (''token'', GStr ''x'')])]
      = [(''k3os'', GMap [(''modules'', GStrs [''nvme'']), (''token'', GStr ''x'')])]"
    by code_simp+
  have "has_type (FObj cloudConfig_schema) (GMap [(''k3os'', GMap [(''module'', GStr ''kvm''), (''modules'', GStrs [''kvm''])])])"
    "has_type (FObj cloudConfig_schema) (GMap [(''k3os'', GMap [(''modules'', GStrs [''nvme'']), (''token'', GStr ''x'')])])"
    by code_simp+
  then show "\<forall>d \<in> set (sources ?rs (calm_world [])). snd (ToObj (ToInternal cloudConfig_schema d) initialConfig) = None"
    unfolding src ToObj_def config.accepts by (simp only: list.set ball_simps i)
  show "run_state (merge ?rs) (calm_world []) = (Inr (fold (\<lambda>d m. UpdateMerge cloudConfig_schema m (ToInternal cloudConfig_schema d))
      (sources ?rs (calm_world [])) []), calm_world [])"
    unfolding merge_def src by simp
qed

text \<open>An empty section of a later source takes away what the sources before it said there.\<close>

lemma empty_section_discards:
  "UpdateMerge cloudConfig_schema [(''k3os'', GMap [(''token'', GStr ''x'')])] [(''k3os'', GNull)] = [(''k3os'', GNull)]"
  by code_simp

end
