(* ===== verification/Spec2Isabelle.thy ===== *)
theory Spec2Isabelle
  imports Writefile Cli ConfigTypes
begin

text \<open>
  A verification development for k3OS: the Go program \<^verbatim>\<open>k3os\<close> that boots, configures, installs and upgrades a
  Linux system made for k3s.

  \<^bold>\<open>The program.\<close> One executable plays every part, by the name it is called with (\<^verbatim>\<open>main.go\<close>).

  \<^item> As \<^verbatim>\<open>/init\<close> of the initial ram file system it moves the root to a file system one can pivot from
    (\<^verbatim>\<open>pkg/transferroot\<close>), starts again there, remounts the root, attaches the image that is appended to its own
    file (or lies beside it) to a loop device, and starts itself as \<^verbatim>\<open>enter-root\<close> (\<^verbatim>\<open>pkg/enterchroot\<close>).
  \<^item> As \<^verbatim>\<open>enter-root\<close> it mounts data directory and image, pivots into the new root and becomes \<^verbatim>\<open>/usr/init\<close>.
    The scripts of the image take over from there and call the commands below.
  \<^item> \<^verbatim>\<open>rc\<close> (\<^verbatim>\<open>pkg/cli/rc\<close>) is the early phase of the boot: mounts, devices, control groups, clock, host name.
  \<^item> \<^verbatim>\<open>config\<close> (\<^verbatim>\<open>pkg/cli/config\<close>) reads the configuration from its sources (\<^verbatim>\<open>pkg/config\<close>) and runs the appliers of a
    phase (\<^verbatim>\<open>pkg/cc\<close>), which use \<^verbatim>\<open>pkg/module\<close>, \<^verbatim>\<open>pkg/sysctl\<close>, \<^verbatim>\<open>pkg/hostname\<close>, \<^verbatim>\<open>pkg/ssh\<close>, \<^verbatim>\<open>pkg/command\<close>, \<^verbatim>\<open>pkg/writefile\<close>,
    \<^verbatim>\<open>pkg/mode\<close> and \<^verbatim>\<open>pkg/system\<close>.
  \<^item> \<^verbatim>\<open>install\<close> (\<^verbatim>\<open>pkg/cli/install\<close>, \<^verbatim>\<open>pkg/cliinstall\<close>) asks the questions of \<^verbatim>\<open>pkg/questions\<close> and runs the installer, or
    saves the answers as configuration and applies it.
  \<^item> \<^verbatim>\<open>upgrade\<close> (\<^verbatim>\<open>pkg/cli/upgrade\<close>) replaces the versions of the components (\<^verbatim>\<open>pkg/system\<close>) and restarts.

  The parts meet in the file system (the configuration files, the links \<^verbatim>\<open>current\<close> and \<^verbatim>\<open>previous\<close>, the files below
  \<^verbatim>\<open>/run/config\<close>), in the environment of the processes, and in the calls \<open>main\<close> puts together.
\<close>

text \<open>
  \<^bold>\<open>The state.\<close> The record \<open>world\<close> (theory GoOS) is all a run can see or change: the files (\<open>w_fs\<close>, absolute paths
  with kind, mode and owner, symbolic links followed at most 40 times as Linux does), working directory, environment,
  host name, input, and the trace of what went out (commands run, mounts, log lines, texts printed,
  processes replaced or ended). The world outside is part of it as functions: what a command, a mount, a module or a web
  server does (the table of mounts is the file \<^verbatim>\<open>/proc/self/mountinfo\<close>, which a mount may change). Every system call first asks the schedule \<open>w_fault\<close> whether it fails; the schedule is arbitrary, so
  that a statement about every world is one about every pattern of failures, a write cut short and a \<open>RemoveAll\<close> that
  removed only some of the entries included.

  A Go function that returns \<open>(T, error)\<close> is a state program of type \<open>T os\<close> with an error or a value as result;
  \<open>onok\<close> is the early return, \<open>deferred\<close> a \<open>defer\<close>, \<open>fatal\<close> the end of the process. Strings are lists of bytes, Go maps
  are association lists, the integers of flags, modes and device numbers are words of their width. A nil pointer that
  is dereferenced is the error \<open>nil_pointer\<close>.

  \<^bold>\<open>The theories.\<close>

  \<^item> Library of the language. Prelude: the error idiom, weakest preconditions, \<open>keeps\<close>. GoStrings, GoPath, GoQuote,
    GoBase64, GoURL, GoCSV, GoFlag: the standard packages the program uses, with their round trips. GoOS and GoOS_Laws: system
    calls and the laws of the file system. Kernel: the step relation \<open>kstep\<close>, and that every operation is a sequence
    of steps. GoFiles: a rule of weakest preconditions for each call. Traces: which events a program may record.
  \<^item> Library of third parties, as far as it is called. GoCopy (\<^verbatim>\<open>otiai10/copy\<close>), GoMount and GoMountInfo
    (\<^verbatim>\<open>docker/pkg/mount\<close>), CommandLine (\<^verbatim>\<open>urfave/cli\<close>: flags, environment, dispatch of commands), GoValues and
    ConfigMap (\<^verbatim>\<open>rancher/mapper\<close> and the converters of \<^verbatim>\<open>pkg/config\<close>).
  \<^item> Configuration. Config: the records of \<^verbatim>\<open>config.go\<close>. ConfigJSON: decoding and encoding. ConfigRead: \<^verbatim>\<open>read.go\<close> and
    \<^verbatim>\<open>read_cc.go\<close>. ConfigWrite: \<^verbatim>\<open>write.go\<close> and reading back. ConfigLaws, ConfigSources, ConfigTypes: names, sources, types.
  \<^item> Applying it. System, Util, Prompt, Writefile, SSH, Sysctl, Hosts, Modprobe, Commands and CC: the packages of the
    same names under \<^verbatim>\<open>pkg\<close> (\<^verbatim>\<open>hostname\<close> is Hosts, \<^verbatim>\<open>module\<close> is Modprobe, \<^verbatim>\<open>mode\<close> is in System).
  \<^item> The other commands. Component and Upgrade: versions and \<^verbatim>\<open>upgrade\<close>. Questions, CliInstall and InstallLaws:
    \<^verbatim>\<open>install\<close>. RC and RCLaws: \<^verbatim>\<open>rc\<close>. EnterChroot and EnterLaws, Transferroot and TransferLaws: the way into the root.
    Cli: the commands with their flags and \<open>main\<close>.

  Definitions have the names of the functions they model, with a prefix where several packages use one name
  (\<open>rc_mkdir\<close>, \<open>enter_run\<close>, \<open>upgrade_Run\<close>); a long function is cut where the code has its loops and blocks.
\<close>

text \<open>
  \<^bold>\<open>The interfaces.\<close>

  \<^item> \<open>kernel_invariant\<close> (Kernel): what each kernel step keeps, every program keeps. Interpreted for the shape of the
    tree, for what the outside world is, for the trace that only grows, and (Upgrade) for the worlds an upgrade may meet.
  \<^item> \<open>atomic_writer\<close> (Util): what a writer of files promises to those that replace files others read; interpreted by
    \<open>WriteFileAtomic\<close>.
  \<^item> \<open>path_store\<close> (ConfigSources): a store addressed by paths, as reading the kernel command line needs it;
    interpreted by \<open>GetValue\<close> and \<open>PutValue\<close>.
  \<^item> \<open>typed_decoder\<close> (ConfigTypes): a decoder fails exactly on the values that do not have its type; interpreted by the
    decoder of every field type and structure of the configuration.
  \<^item> \<open>command_frame\<close> (CommandLine): what printing and exiting keep and the commands that can be called keep, a run of
    the application keeps; interpreted (Cli) by the steps of the kernel and by having said something only.

  \<^bold>\<open>What is shown.\<close>

  \<^item> Files are replaced as a whole or not at all, whatever fails (\<open>WriteFileAtomic\<close>; \<open>WriteFile\<close> where the directories
    above the file exist); authorized keys are never lost; an upgrade switches \<^verbatim>\<open>current\<close> only together with success, to
    the version of the source, whose directory is then there (that every file in it was copied is not shown); moving
    the root loses no file, and the walk that deletes the old tree spares the new root (not every mount: what is mounted
    below a directory of the root's device goes with it, \<open>delete_crosses_devices\<close>).
  \<^item> \<^verbatim>\<open>/usr/init\<close> runs in the new root only, the loop device is not leaked, the image is found however the reads cut the
    file; the early phase tries every mount in its order, those of the control groups being the enabled ones; the first
    process never returns.
  \<^item> The sources of a configuration: order, merging, types, the words of the kernel command line, user data; what is
    written reads back as what it was, for texts in UTF-8 and maps whose keys the writer does not rename. Every applier
    runs, in order, and all errors are reported.
  \<^item> Without consent nothing is installed: the questions before it run only \<^verbatim>\<open>lsblk\<close> and \<^verbatim>\<open>chpasswd\<close>, whose change of
    \<^verbatim>\<open>/etc/shadow\<close> is taken back; the loops of the questions end.
  \<^item> Over the whole program: \<open>main\<close> keeps the tree well-formed and its record growing; under any name but \<^verbatim>\<open>/init\<close>,
    \<^verbatim>\<open>/sbin/init\<close> and \<^verbatim>\<open>enter-root\<close> (which ask for no rights) no command but \<^verbatim>\<open>upgrade\<close> changes a file or runs anything
    without the rights of root, whatever the arguments; the settings of an upgrade spelled out on the command line are
    those it runs with.

  Where the code does something else than its name, a comment or a sibling says, a lemma with a concrete run stands at the
  end of the theory (such as \<open>mkchar_makes_regular_file\<close>, \<open>magic_after_underscore\<close>, \<open>old_directory_blocks\<close>).
\<close>

text \<open>
  \<^bold>\<open>Bounds.\<close> \<open>copy_depth\<close>, 4096, bounds the descent of a copy and of a walk: a path name has at most 4096 bytes and each
  level adds at least two, so the kernel ends the descent before. Temporary names are tried 10000 times, as
  \<^verbatim>\<open>ioutil.TempFile\<close> does. Reads of a terminal come in chunks of at most 4096 bytes, none of them empty (the end of the input is the end of the list of chunks), those that search the image in chunks
  of 8192. All other recursion follows the input and ends without fuel; \<open>walk\<close>, \<open>json_text\<close> and \<open>merge_value\<close> have
  termination proofs by measures or are primitive recursive.

  \<^bold>\<open>Parameters.\<close> Code that is not in the repository or is a third party's is an argument: the parser and the printer of
  YAML, the text of JSON, gzip, the texts of help, the terminal, the output of \<^verbatim>\<open>lsblk\<close>, device numbers and the kind of
  a file system, whether the upgrade lock is free, the outcome of attaching a loop device, the order in which Go visits
  a map, the version the linker sets. Theorems assume of them only what they document, and each has a witness with a
  concrete function in its place.

  \<^bold>\<open>Not modelled.\<close> Case mapping and white space are those of ASCII. Pauses, time stamps, log levels and debug lines are left
  out, as is whether a text goes to standard output or standard error. The goroutine that after three seconds asks the
  kernel to free the loop device by itself changes nothing the program sees. \<^verbatim>\<open>return result, f(&result)\<close> in \<^verbatim>\<open>read.go\<close>
  returns what \<open>f\<close> left in \<open>result\<close>, as the compiler in use does; the language leaves the order open. A mount does
  to the files what the world's function says; mounts do not hide files of themselves. The shell scripts of the
  image, the build files and what the program does not use of the vendored libraries (combined short options, completion
  and other kinds of flags of the command line, unmounting) are left out.
\<close>

end
